theory Spec2Isabelle
  imports Complex_Main "HOL-Library.Multiset" "HOL-Library.Char_ord" "HOL-Library.List_Lexorder"
    "HOL-Library.Product_Lexorder"
begin

section \<open>Python strings\<close>

text \<open>
  The four extractors (\<^verbatim>\<open>extract_json.py\<close>, \<^verbatim>\<open>hierarchy_mapper.py\<close>,
  \<^verbatim>\<open>dataframe_parser.py\<close>, \<^verbatim>\<open>openpyxl_parser.py\<close>) use three string
  primitives of Python: the substring test \<^verbatim>\<open>sep in s\<close>, \<^verbatim>\<open>s.split(sep, 1)\<close> and
  \<^verbatim>\<open>s.strip()\<close>. Strings are modelled as \<^typ>\<open>string\<close>; a character is a code point
  below 256.
\<close>

definition startswith :: "string \<Rightarrow> string \<Rightarrow> bool" where
  "startswith s sep = (take (length sep) s = sep)"

text \<open>\<^verbatim>\<open>sep in s\<close>: some suffix of \<open>s\<close> starts with \<open>sep\<close>.\<close>

fun py_in :: "string \<Rightarrow> string \<Rightarrow> bool" where
  "py_in sep [] = (sep = [])"
| "py_in sep (c # cs) = (startswith (c # cs) sep \<or> py_in sep cs)"

text \<open>
  \<^verbatim>\<open>s.split(sep, 1)\<close> for a non-empty separator: the text before the first (leftmost)
  occurrence of \<open>sep\<close> and the text after it, or the one-element list \<open>[s]\<close> when
  \<open>sep\<close> does not occur.
\<close>

fun split1 :: "string \<Rightarrow> string \<Rightarrow> string list" where
  "split1 sep [] = [[]]"
| "split1 sep (c # cs) =
     (if startswith (c # cs) sep then [[], drop (length sep) (c # cs)]
      else (case split1 sep cs of
              [a, b] \<Rightarrow> [c # a, b]
            | _ \<Rightarrow> [c # cs]))"

text \<open>
  \<^verbatim>\<open>s.strip()\<close> removes leading and trailing white space. A character of the
  model is a code point below 256; of these Python counts as white space the tab, line
  feed, vertical tab, form feed and carriage return, the four separators \<open>0x1C\<close> to
  \<open>0x1F\<close>, the space, the next-line control \<open>0x85\<close> and the no-break space
  \<open>0xA0\<close>.
\<close>

definition isspace :: "char \<Rightarrow> bool" where
  "isspace c =
     (let n = (of_char c :: nat)
      in (9 \<le> n \<and> n \<le> 13) \<or> (28 \<le> n \<and> n \<le> 32) \<or> n = 133 \<or> n = 160)"

definition strip :: "string \<Rightarrow> string" where
  "strip s = rev (dropWhile isspace (rev (dropWhile isspace s)))"

section \<open>Bilingual names\<close>

text \<open>
  \<^verbatim>\<open>hierarchy_mapper.extract_hierarchy_data\<close>, lines 77 to 84 (and the same code in
  \<^verbatim>\<open>dataframe_parser.py\<close>, lines 66 to 72): the separator is \<^verbatim>\<open>" / "\<close>; without it
  the English name is empty.
  \<^verbatim>\<open>
  if " / " in entry["name"]:
      parts = entry["name"].split(" / ", 1)
      entry["is"] = parts[0]
      entry["en"] = parts[1]
  else:
      entry["is"] = entry["name"]
      entry["en"] = ""
  \<close>
\<close>

definition split_name :: "string \<Rightarrow> string \<times> string" where
  "split_name name =
     (if py_in '' / '' name
      then (let parts = split1 '' / '' name in (parts ! 0, parts ! 1))
      else (name, ''''))"

text \<open>
  \<^verbatim>\<open>extract_json.parse_section\<close>, lines 48 to 54: the separator is \<^verbatim>\<open>"/"\<close>, both
  parts are stripped, and both names start out as the whole name.
  \<^verbatim>\<open>
  icelandic_name = name
  english_name = name
  if "/" in name:
      parts = name.split("/", 1)
      icelandic_name = parts[0].strip()
      english_name = parts[1].strip()
  \<close>
\<close>

definition split_translation :: "string \<Rightarrow> string \<times> string" where
  "split_translation name =
     (if py_in ''/'' name
      then (let parts = split1 ''/'' name in (strip (parts ! 0), strip (parts ! 1)))
      else (name, name))"

section \<open>Cells, errors and configuration\<close>

text \<open>
  A Python \<^verbatim>\<open>float\<close> is a finite binary number; Python prints it, with \<^verbatim>\<open>str\<close> and
  \<^verbatim>\<open>repr\<close> alike, as the shortest decimal number that reads back as the same float.
  The model carries a float by that decimal number: \<open>PyFloat negative digits exponent\<close>
  is the float printed from the sign, the digits and the power of ten, with the value
  \<open>digits * 10 ^ exponent\<close>, negated when \<open>negative\<close> holds. The not-a-number value is
  not a \<open>PyFloat\<close>: pandas treats it as a missing cell.
\<close>

datatype pyfloat = PyFloat bool nat int

text \<open>
  A \<^verbatim>\<open>datetime\<close> by its fields: year, month, day, hour, minute, second and
  microsecond. Python orders datetimes as it orders the tuples of these fields.
\<close>

datatype datetime = DateTime nat nat nat nat nat nat nat

text \<open>
  A cell of the spreadsheet as Python sees it: empty (\<^verbatim>\<open>None\<close> in openpyxl;
  \<^verbatim>\<open>NaN\<close>, \<^verbatim>\<open>None\<close> or \<^verbatim>\<open>NaT\<close> in pandas), an \<^verbatim>\<open>int\<close>, a \<^verbatim>\<open>float\<close>, a
  Boolean, a text, or a \<^verbatim>\<open>datetime\<close> (in pandas also a \<^verbatim>\<open>Timestamp\<close>, which is a
  \<^verbatim>\<open>datetime\<close>).
\<close>

datatype cell = CNone | CNum int | CFloat pyfloat | CBool bool | CStr string | CDate datetime

text \<open>
  The exceptions of the extractors, by the place that raises them:
  \<open>IndexError_list\<close> is \<^verbatim>\<open>stack[-1]\<close> on an empty list, \<open>IndexError_iloc\<close> a
  positional \<^verbatim>\<open>df.iloc\<close> access out of bounds, \<open>KeyError\<close> a missing label of a
  pandas row or a missing column of a data frame, \<open>ValueError\<close> a row or column
  below 1 in \<^verbatim>\<open>ws.cell\<close>, \<open>TypeError\<close> a sort of values that cannot be compared.
\<close>

datatype error = IndexError_list | IndexError_iloc | KeyError | ValueError | TypeError

text \<open>The entry \<^verbatim>\<open>config["sheets"][0]\<close> of the schema; positions are 1-based.\<close>

record sheet_config =
  date_row :: int
  data_start_column :: int
  data_name_column :: int
  assets_row :: int
  liabilities_row :: int
  assets_hierarchy :: "int list"
  liabilities_hierarchy :: "int list"

subsection \<open>Printing\<close>

text \<open>\<^verbatim>\<open>str(n)\<close> for an integer.\<close>

function str_nat :: "nat \<Rightarrow> string" where
  "str_nat n =
     (if n < 10 then [char_of (48 + n)]
      else str_nat (n div 10) @ [char_of (48 + n mod 10)])"
  by pat_completeness auto
termination
  by (relation "measure id") auto

declare str_nat.simps [simp del]

definition str_int :: "int \<Rightarrow> string" where
  "str_int i = (if i < 0 then CHR ''-'' # str_nat (nat (- i)) else str_nat (nat i))"

text \<open>A number in a field of a fixed least width, filled with zeros on the left.\<close>

definition zero_pad :: "nat \<Rightarrow> nat \<Rightarrow> string" where
  "zero_pad width n = replicate (width - length (str_nat n)) CHR ''0'' @ str_nat n"

text \<open>
  The digits of a float without the zeros at their end, which go into the
  exponent: 2024 times ten to the 0 and 2024000 times ten to the -3 are the same
  float.
\<close>

function strip_zeros :: "nat \<Rightarrow> int \<Rightarrow> nat \<times> int" where
  "strip_zeros d e =
     (if d = 0 then (0, 0)
      else if d mod 10 = 0 then strip_zeros (d div 10) (e + 1)
      else (d, e))"
  by pat_completeness auto
termination
  by (relation "measure fst") auto

declare strip_zeros.simps [simp del]

text \<open>
  \<^verbatim>\<open>str(x)\<close> for a float, as \<^verbatim>\<open>float.__repr__\<close> lays out the shortest digits: with
  \<open>decpt\<close> the position of the decimal point after the first \<open>decpt\<close> digits, the
  number is written with an exponent when \<open>decpt > 16\<close> or \<open>decpt < -3\<close>, and in
  positional notation with at least one digit after the point otherwise. The
  exponent has a sign and at least two digits.
\<close>

definition exponent_str :: "int \<Rightarrow> string" where
  "exponent_str x =
     (if x < 0 then ''-'' else ''+'') @ (if \<bar>x\<bar> < 10 then ''0'' else []) @ str_nat (nat \<bar>x\<bar>)"

definition float_str :: "pyfloat \<Rightarrow> string" where
  "float_str x =
     (case x of PyFloat negative digits exponent \<Rightarrow>
        (case strip_zeros digits exponent of (d, e) \<Rightarrow>
           (let ds = str_nat d;
                n = int (length ds);
                decpt = n + e
            in (if negative then ''-'' else []) @
               (if d = 0 then ''0.0''
                else if decpt > 16 \<or> decpt < - 3 then
                  take 1 ds @ (if n > 1 then ''.'' @ drop 1 ds else []) @ ''e''
                    @ exponent_str (decpt - 1)
                else if decpt \<le> 0 then ''0.'' @ replicate (nat (- decpt)) CHR ''0'' @ ds
                else if decpt \<ge> n then ds @ replicate (nat (decpt - n)) CHR ''0'' @ ''.0''
                else take (nat decpt) ds @ ''.'' @ drop (nat decpt) ds))))"

text \<open>
  \<^verbatim>\<open>str(d)\<close> for a \<^verbatim>\<open>datetime\<close>: the ISO form with a space between date and time,
  and the microseconds only when they are not zero.
\<close>

definition datetime_str :: "datetime \<Rightarrow> string" where
  "datetime_str d =
     (case d of DateTime y mo dd h mi s us \<Rightarrow>
        zero_pad 4 y @ ''-'' @ zero_pad 2 mo @ ''-'' @ zero_pad 2 dd @ '' ''
          @ zero_pad 2 h @ '':'' @ zero_pad 2 mi @ '':'' @ zero_pad 2 s
          @ (if us = 0 then [] else ''.'' @ zero_pad 6 us))"

text \<open>
  \<^verbatim>\<open>d.strftime("%Y-%m-%d")\<close>, the period label of a date. The month and the day have
  two digits; the year is printed as the C library of Linux prints \<^verbatim>\<open>%Y\<close>, without
  leading zeros (four digits from the year 1000 on).
\<close>

definition strftime :: "datetime \<Rightarrow> string" where
  "strftime d =
     (case d of DateTime y mo dd h mi s us \<Rightarrow>
        str_nat y @ ''-'' @ zero_pad 2 mo @ ''-'' @ zero_pad 2 dd)"

text \<open>
  \<^verbatim>\<open>str(value)\<close> of a cell value. The extractors never print an empty cell.
\<close>

fun py_str :: "cell \<Rightarrow> string" where
  "py_str CNone = ''None''"
| "py_str (CNum n) = str_int n"
| "py_str (CFloat x) = float_str x"
| "py_str (CBool b) = (if b then ''True'' else ''False'')"
| "py_str (CStr s) = s"
| "py_str (CDate d) = datetime_str d"

subsection \<open>Tests on a cell value\<close>

text \<open>\<^verbatim>\<open>pd.notna(v)\<close>, and the truth value \<^verbatim>\<open>if v:\<close> of a cell value.\<close>

fun notna :: "cell \<Rightarrow> bool" where
  "notna CNone = False"
| "notna _ = True"

fun truthy :: "cell \<Rightarrow> bool" where
  "truthy CNone = False"
| "truthy (CNum n) = (n \<noteq> 0)"
| "truthy (CFloat (PyFloat negative digits exponent)) = (digits \<noteq> 0)"
| "truthy (CBool b) = b"
| "truthy (CStr s) = (s \<noteq> [])"
| "truthy (CDate d) = True"

text \<open>
  \<^verbatim>\<open>isinstance(value, (int, float))\<close>: in Python \<^verbatim>\<open>bool\<close> is a subclass of
  \<^verbatim>\<open>int\<close>, so a Boolean passes the test.
\<close>

fun is_int_or_float :: "cell \<Rightarrow> bool" where
  "is_int_or_float (CNum n) = True"
| "is_int_or_float (CFloat x) = True"
| "is_int_or_float (CBool b) = True"
| "is_int_or_float _ = False"

subsection \<open>From an integer to a float\<close>

text \<open>
  \<^verbatim>\<open>float(n)\<close> for an integer, which is also how pandas turns an integer into a
  float when it stores a column of numbers as floats. A float has 53 binary digits:
  an integer of at most 53 binary digits is a float as it is, a longer one is rounded
  to the nearest float, to the one with the even mantissa when it lies halfway
  between two. \<open>round_double a\<close> is the mantissa \<open>q\<close> and the binary exponent \<open>k\<close> of
  that float, whose value is \<open>q * 2 ^ k\<close>.
\<close>

function bit_length :: "nat \<Rightarrow> nat" where
  "bit_length a = (if a = 0 then 0 else Suc (bit_length (a div 2)))"
  by pat_completeness auto
termination
  by (relation "measure id") auto

declare bit_length.simps [simp del]

definition round_double :: "nat \<Rightarrow> nat \<times> nat" where
  "round_double a =
     (if bit_length a \<le> 53 then (a, 0)
      else
        (let k = bit_length a - 53;
             q = a div 2 ^ k;
             r = a mod 2 ^ k;
             half = 2 ^ (k - 1);
             q' = (if r > half \<or> (r = half \<and> odd q) then q + 1 else q)
         in if q' = 2 ^ 53 then (2 ^ 52, k + 1) else (q', k)))"

text \<open>
  The shortest digits of a rounded integer \<open>x\<close>. The decimal numbers that read back
  as \<open>x\<close> are those between the midpoints to the two neighbouring floats, the
  midpoints included when the mantissa is even; \<open>lo4\<close> and \<open>hi4\<close> are four times
  these midpoints. The search goes from the longest run of zeros at the end down to
  none and takes the multiple of \<open>10 ^ j\<close> in the interval that is nearest to \<open>x\<close>;
  without zeros at the end \<open>x\<close> itself is in the interval.
\<close>

fun shortest_digits :: "int \<Rightarrow> int \<Rightarrow> bool \<Rightarrow> nat \<Rightarrow> nat \<Rightarrow> nat \<times> int" where
  "shortest_digits lo4 hi4 inclusive x 0 = (x, 0)"
| "shortest_digits lo4 hi4 inclusive x (Suc j) =
     (let p = 10 ^ Suc j;
          c = - ((- lo4) div (4 * p));
          f = hi4 div (4 * p);
          m_lo = max 1 (if \<not> inclusive \<and> 4 * c * p = lo4 then c + 1 else c);
          m_hi = (if \<not> inclusive \<and> 4 * f * p = hi4 then f - 1 else f)
      in if m_lo \<le> m_hi
         then (nat (arg_min_list (\<lambda>m. \<bar>m * p - int x\<bar>) [m_lo .. m_hi]), int (Suc j))
         else shortest_digits lo4 hi4 inclusive x j)"

definition float_of_nat :: "nat \<Rightarrow> nat \<times> int" where
  "float_of_nat a =
     (case round_double a of (q, k) \<Rightarrow>
        if k = 0 then strip_zeros a 0
        else
          (let x = q * 2 ^ k;
               up = 2 * 2 ^ k;
               down = (if q = 2 ^ 52 then 2 ^ k else up)
           in case shortest_digits (4 * int x - int down) (4 * int x + int up) (even q) x
                     (length (str_nat x)) of
                (d, e) \<Rightarrow> strip_zeros d e))"

definition float_of_int :: "int \<Rightarrow> pyfloat" where
  "float_of_int n = (case float_of_nat (nat \<bar>n\<bar>) of (d, e) \<Rightarrow> PyFloat (n < 0) d e)"

text \<open>
  \<^verbatim>\<open>float(val)\<close> for a number of a data frame: an integer becomes a float, a float
  stays what it is. Other values are not converted.
\<close>

fun to_float :: "cell \<Rightarrow> cell" where
  "to_float (CNum n) = CFloat (float_of_int n)"
| "to_float c = c"

text \<open>The value of a float as a rational number, for comparisons.\<close>

definition float_value :: "pyfloat \<Rightarrow> rat" where
  "float_value x =
     (case x of PyFloat negative digits exponent \<Rightarrow>
        (if negative then - 1 else 1) * of_nat digits *
          (if exponent \<ge> 0 then 10 ^ nat exponent else 1 / 10 ^ nat (- exponent)))"
section \<open>\<^verbatim>\<open>extract_json.py\<close>: the data frame\<close>

text \<open>
  \<^verbatim>\<open>pd.read_excel(..., header=None)\<close> gives a data frame, which is the input of the
  model: a rectangular table whose columns each have a type. The model distinguishes
  the columns that pandas stores as 64-bit integers (every cell an \<open>CNum\<close>), the
  columns that it stores as floats (a cell is a \<open>CFloat\<close>, or \<open>CNone\<close> for
  \<^verbatim>\<open>NaN\<close>), and all others (\<open>Object\<close>: Python objects, Booleans, datetimes), whose
  cells are handed out as they are. pandas chooses the type of a column from all the
  cells of the column. The width of the frame is the number of its columns; a row of
  the table is read up to that width, and \<^verbatim>\<open>NaN\<close> stands where it is shorter.
\<close>

datatype dtype = Int64 | Float64 | Object

record dataframe =
  dtypes :: "dtype list"
  table :: "cell list list"

definition shape1 :: "dataframe \<Rightarrow> nat" where
  "shape1 df = length (dtypes df)"

definition padded :: "nat \<Rightarrow> cell list \<Rightarrow> cell list" where
  "padded w r = take w r @ replicate (w - length r) CNone"

definition frame_row :: "dataframe \<Rightarrow> nat \<Rightarrow> cell list" where
  "frame_row df j = padded (shape1 df) (table df ! j)"

text \<open>
  \<^verbatim>\<open>df.iloc[i]\<close>: positional, a negative index counts from the end. The row is
  handed out as a series of one type: when every column of the frame is a column of
  numbers and one of them holds floats, the integers of the row are handed out as
  floats; in every other case the cells are handed out unchanged.
\<close>

definition upcast :: "dataframe \<Rightarrow> bool" where
  "upcast df \<longleftrightarrow>
     list_all (\<lambda>t. t \<noteq> Object) (dtypes df) \<and> list_ex (\<lambda>t. t = Float64) (dtypes df)"

definition iloc :: "dataframe \<Rightarrow> int \<Rightarrow> error + cell list" where
  "iloc df i =
     (let n = int (length (table df)); j = (if i < 0 then n + i else i)
      in if 0 \<le> j \<and> j < n
         then Inr (if upcast df then map to_float (frame_row df (nat j))
                   else frame_row df (nat j))
         else Inl IndexError_iloc)"

text \<open>
  \<^verbatim>\<open>df.iloc[i, c]\<close>: positional in both directions; the cell is handed out with
  the type of its column.
\<close>

definition iloc2 :: "dataframe \<Rightarrow> int \<Rightarrow> int \<Rightarrow> error + cell" where
  "iloc2 df i c =
     (let n = int (length (table df)); j = (if i < 0 then n + i else i);
          w = int (shape1 df); k = (if c < 0 then w + c else c)
      in if 0 \<le> j \<and> j < n \<and> 0 \<le> k \<and> k < w
         then Inr (frame_row df (nat j) ! nat k)
         else Inl IndexError_iloc)"

text \<open>
  \<^verbatim>\<open>row_data[k]\<close> on a row of the frame: the row's index is the column labels
  \<open>0 .. shape[1] - 1\<close>, and an integer that is not a label raises \<^verbatim>\<open>KeyError\<close>.
\<close>

definition getitem :: "cell list \<Rightarrow> int \<Rightarrow> error + cell" where
  "getitem row_data k =
     (if 0 \<le> k \<and> k < int (length row_data) then Inr (row_data ! nat k) else Inl KeyError)"

text \<open>
  \<^verbatim>\<open>isinstance(val, (np.integer, np.floating))\<close> for the value that a row holds in
  the column \<open>k\<close>: the numbers of the columns of numbers are numpy numbers, the cells
  of the other columns are Python objects.
\<close>

definition is_numpy_number :: "dataframe \<Rightarrow> int \<Rightarrow> bool" where
  "is_numpy_number df k \<longleftrightarrow> 0 \<le> k \<and> k < int (shape1 df) \<and> dtypes df ! nat k \<noteq> Object"

text \<open>
  Lines 63 and 64, for the value \<open>val\<close> that a row holds in the column \<open>k\<close>.
  \<^verbatim>\<open>
  if isinstance(val, (np.integer, np.floating)):
      val = float(val)
  \<close>
\<close>

definition float_if_numpy :: "dataframe \<Rightarrow> int \<Rightarrow> cell \<Rightarrow> cell" where
  "float_if_numpy df k val = (if is_numpy_number df k then to_float val else val)"

section \<open>\<^verbatim>\<open>extract_json.py\<close>: the period axis\<close>

text \<open>
  Lines 16 to 25 of \<^verbatim>\<open>extract_nested_json\<close>. Every cell of the date row that is
  not \<^verbatim>\<open>NaN\<close> gives a label: its date label if it is a \<^verbatim>\<open>datetime\<close>, its
  \<^verbatim>\<open>str\<close> otherwise.
  \<^verbatim>\<open>
  for col in range(sheet_config["data_start_column"] - 1, df.shape[1]):
      cell_value = df.iloc[date_row, col]
      if pd.notna(cell_value):
          if isinstance(cell_value, (datetime, pd.Timestamp)):
              dates.append(cell_value.strftime("%Y-%m-%d"))
          else:
              dates.append(str(cell_value))
  \<close>
\<close>

definition date_label :: "cell \<Rightarrow> string" where
  "date_label cell_value =
     (case cell_value of CDate d \<Rightarrow> strftime d | _ \<Rightarrow> py_str cell_value)"

fun json_dates_loop :: "dataframe \<Rightarrow> int \<Rightarrow> int list \<Rightarrow> error + string list" where
  "json_dates_loop df date_row0 [] = Inr []"
| "json_dates_loop df date_row0 (col # cols) =
     (case iloc2 df date_row0 col of
        Inl e \<Rightarrow> Inl e
      | Inr cell_value \<Rightarrow>
          (case json_dates_loop df date_row0 cols of
             Inl e \<Rightarrow> Inl e
           | Inr dates \<Rightarrow>
               Inr (if notna cell_value then date_label cell_value # dates else dates)))"

definition json_dates :: "dataframe \<Rightarrow> sheet_config \<Rightarrow> error + string list" where
  "json_dates df sheet_config =
     json_dates_loop df (date_row sheet_config - 1)
       [data_start_column sheet_config - 1 .. int (shape1 df) - 1]"

section \<open>\<^verbatim>\<open>extract_json.py\<close>: \<^verbatim>\<open>parse_section\<close>\<close>

text \<open>
  The nodes are Python dictionaries that the loop mutates through the references
  held on the stack, so the model keeps them in a store: a list of objects, an
  object's address being its position. The section's own dictionary
  \<^verbatim>\<open>{"name": section_name, "children": []}\<close> is at address 0; a row's dictionary
  has the keys \<^verbatim>\<open>name\<close>, \<^verbatim>\<open>is\<close>, \<^verbatim>\<open>en\<close>, \<^verbatim>\<open>values\<close>, \<^verbatim>\<open>children\<close>. The children
  are addresses.
\<close>

datatype jnode =
    Section string (children: "nat list")
  | Item string string string "string \<rightharpoonup> cell" (children: "nat list")

fun append_child :: "jnode \<Rightarrow> nat \<Rightarrow> jnode" where
  "append_child (Section name cs) a = Section name (cs @ [a])"
| "append_child (Item name name_is name_en vals cs) a = Item name name_is name_en vals (cs @ [a])"

text \<open>
  Lines 56 to 65: the values of a row. Every cell that is not \<^verbatim>\<open>NaN\<close> is kept,
  whatever its type; a numpy number is stored as a Python \<^verbatim>\<open>float\<close>.
  \<^verbatim>\<open>
  for i, date in enumerate(dates):
      col_idx = sheet_config["data_start_column"] - 1 + i
      if col_idx < df.shape[1]:
          val = row_data[col_idx]
          if pd.notna(val):
              if isinstance(val, (np.integer, np.floating)):
                  val = float(val)
              values[date] = val
  \<close>
\<close>

fun prepare_values ::
  "dataframe \<Rightarrow> int \<Rightarrow> cell list \<Rightarrow> int \<Rightarrow> string list \<Rightarrow> (string \<rightharpoonup> cell)
     \<Rightarrow> error + (string \<rightharpoonup> cell)"
where
  "prepare_values df start row_data i [] vals = Inr vals"
| "prepare_values df start row_data i (date # dates) vals =
     (let col_idx = start - 1 + i in
      if col_idx < int (shape1 df) then
        (case getitem row_data col_idx of
           Inl e \<Rightarrow> Inl e
         | Inr val \<Rightarrow>
             prepare_values df start row_data (i + 1) dates
               (if notna val then vals(date \<mapsto> float_if_numpy df col_idx val) else vals))
      else prepare_values df start row_data (i + 1) dates vals)"

text \<open>
  Lines 38 to 74: one row is read. \<open>None\<close> is the skipped row (\<^verbatim>\<open>continue\<close>),
  otherwise the new dictionary.
\<close>

definition parse_row :: "dataframe \<Rightarrow> sheet_config \<Rightarrow> string list \<Rightarrow> int \<Rightarrow> error + jnode option" where
  "parse_row df sheet_config dates current_row =
     (case iloc df current_row of
        Inl e \<Rightarrow> Inl e
      | Inr row_data \<Rightarrow>
          (case getitem row_data (data_name_column sheet_config - 1) of
             Inl e \<Rightarrow> Inl e
           | Inr name_cell \<Rightarrow>
               if \<not> notna name_cell then Inr None
               else
                 (let name = strip (py_str name_cell);
                      (icelandic_name, english_name) = split_translation name
                  in case prepare_values df (data_start_column sheet_config) row_data 0 dates
                            Map.empty of
                       Inl e \<Rightarrow> Inl e
                     | Inr vals \<Rightarrow> Inr (Some (Item name icelandic_name english_name vals [])))))"

text \<open>
  Lines 76 to 78, \<^verbatim>\<open>while stack[-1][1] >= level: stack.pop()\<close>. The stack is a list
  of (address, level) whose head is \<^verbatim>\<open>stack[-1]\<close>; on the empty list
  \<^verbatim>\<open>stack[-1]\<close> raises.
\<close>

fun find_parent :: "(nat \<times> int) list \<Rightarrow> int \<Rightarrow> error + (nat \<times> int) list" where
  "find_parent [] level = Inl IndexError_list"
| "find_parent ((a, l) # stack) level =
     (if l \<ge> level then find_parent stack level else Inr ((a, l) # stack))"

text \<open>
  Lines 76 to 82: the parent is found, the node is appended to the parent's children
  and pushed. The new dictionary gets the next free address.
\<close>

definition add_node ::
  "jnode list \<times> (nat \<times> int) list \<Rightarrow> jnode \<Rightarrow> int \<Rightarrow> error + jnode list \<times> (nat \<times> int) list"
where
  "add_node st node level =
     (case find_parent (snd st) level of
        Inl e \<Rightarrow> Inl e
      | Inr [] \<Rightarrow> Inl IndexError_list
      | Inr ((p, l) # stack) \<Rightarrow>
          (let store = fst st; a = length store
           in Inr ((store @ [node])[p := append_child (store ! p) a],
                   (a, level) # (p, l) # stack)))"

fun parse_rows ::
  "dataframe \<Rightarrow> sheet_config \<Rightarrow> string list \<Rightarrow> int \<Rightarrow> int list
    \<Rightarrow> jnode list \<times> (nat \<times> int) list \<Rightarrow> error + jnode list \<times> (nat \<times> int) list"
where
  "parse_rows df sheet_config dates current_row [] st = Inr st"
| "parse_rows df sheet_config dates current_row (level # levels) st =
     (case parse_row df sheet_config dates current_row of
        Inl e \<Rightarrow> Inl e
      | Inr None \<Rightarrow> parse_rows df sheet_config dates (current_row + 1) levels st
      | Inr (Some node) \<Rightarrow>
          (case add_node st node level of
             Inl e \<Rightarrow> Inl e
           | Inr st' \<Rightarrow> parse_rows df sheet_config dates (current_row + 1) levels st'))"

text \<open>
  \<^verbatim>\<open>parse_section(start_row, hierarchy_levels, section_name)\<close>: the result is the
  store, whose address 0 is the returned dictionary.
\<close>

definition parse_section ::
  "dataframe \<Rightarrow> sheet_config \<Rightarrow> string list \<Rightarrow> int \<Rightarrow> int list \<Rightarrow> string \<Rightarrow> error + jnode list"
where
  "parse_section df sheet_config dates start_row hierarchy_levels section_name =
     (case parse_rows df sheet_config dates start_row hierarchy_levels
             ([Section section_name []], [(0, 0)]) of
        Inl e \<Rightarrow> Inl e
      | Inr st \<Rightarrow> Inr (fst st))"

text \<open>
  The JSON document of a store: the tree below an address. The fuel bounds the depth;
  \<open>None\<close> is a store that is deeper than the fuel or refers outside itself.
\<close>

datatype tree =
    SectionT string "tree list"
  | ItemT string string string "string \<rightharpoonup> cell" "tree list"

fun tree_of :: "nat \<Rightarrow> jnode list \<Rightarrow> nat \<Rightarrow> tree option" where
  "tree_of 0 store a = None"
| "tree_of (Suc fuel) store a =
     (if a < length store then
        (case store ! a of
           Section name cs \<Rightarrow>
             map_option (SectionT name) (those (map (tree_of fuel store) cs))
         | Item name name_is name_en vals cs \<Rightarrow>
             map_option (ItemT name name_is name_en vals) (those (map (tree_of fuel store) cs)))
      else None)"

definition json_tree :: "jnode list \<Rightarrow> tree option" where
  "json_tree store = tree_of (length store) store 0"

text \<open>
  \<^verbatim>\<open>extract_nested_json\<close>, lines 88 to 118: the dates and the two sections, each
  parsed from its own start row with a stack of its own.
\<close>

definition extract_nested_json ::
  "dataframe \<Rightarrow> sheet_config \<Rightarrow> error + string list \<times> jnode list \<times> jnode list"
where
  "extract_nested_json df sheet_config =
     (case json_dates df sheet_config of
        Inl e \<Rightarrow> Inl e
      | Inr dates \<Rightarrow>
          (case parse_section df sheet_config dates (assets_row sheet_config - 1)
                  (assets_hierarchy sheet_config) ''EIGNIR / ASSETS'' of
             Inl e \<Rightarrow> Inl e
           | Inr assets \<Rightarrow>
               (case parse_section df sheet_config dates (liabilities_row sheet_config - 1)
                       (liabilities_hierarchy sheet_config) ''SKULDIR / LIABILITIES'' of
                  Inl e \<Rightarrow> Inl e
                | Inr liabilities \<Rightarrow> Inr (dates, assets, liabilities))))"

section \<open>\<^verbatim>\<open>hierarchy_mapper.py\<close>: the worksheet and the period axis\<close>

text \<open>
  An openpyxl worksheet: \<^verbatim>\<open>ws.cell(row=r, column=c).value\<close> is defined for every
  row and column from 1 on (a cell that was never written holds \<^verbatim>\<open>None\<close>), and
  raises \<^verbatim>\<open>ValueError\<close> below 1.
\<close>

record worksheet =
  max_row :: int
  max_column :: int
  cell_value :: "int \<Rightarrow> int \<Rightarrow> cell"

definition ws_cell :: "worksheet \<Rightarrow> int \<Rightarrow> int \<Rightarrow> error + cell" where
  "ws_cell ws row column =
     (if row < 1 \<or> column < 1 then Inl ValueError else Inr (cell_value ws row column))"

text \<open>
  The result of \<^verbatim>\<open>pd.to_datetime\<close> on one value is a \<^verbatim>\<open>Timestamp\<close>, a datetime
  with a further field for the nanoseconds, or the missing date \<^verbatim>\<open>NaT\<close>.
\<close>

datatype stamp = Stamp datetime nat | NaT

text \<open>
  Lines 35 to 48 of \<^verbatim>\<open>extract_hierarchy_data\<close>. \<^verbatim>\<open>pd.to_datetime\<close> is a parameter
  of the model: \<open>to_datetime v\<close> is \<open>Some\<close> of the result, and \<open>None\<close> when the call
  raises. \<^verbatim>\<open>NaT.strftime\<close> raises too, and the bare \<^verbatim>\<open>except\<close> swallows both.
  \<^verbatim>\<open>
  for col in range(data_start_column, ws.max_column + 1):
      date_value = ws.cell(row=date_row, column=col).value
      if date_value:
          if isinstance(date_value, datetime):
              dates.append(date_value.strftime("%Y-%m-%d"))
          else:
              try:
                  dt = pd.to_datetime(date_value)
                  dates.append(dt.strftime("%Y-%m-%d"))
              except:
                  pass
  \<close>
\<close>

definition parse_date :: "(cell \<Rightarrow> stamp option) \<Rightarrow> cell \<Rightarrow> string option" where
  "parse_date to_datetime date_value =
     (if truthy date_value
      then (case date_value of
              CDate d \<Rightarrow> Some (strftime d)
            | _ \<Rightarrow>
                (case to_datetime date_value of
                   Some (Stamp dt ns) \<Rightarrow> Some (strftime dt)
                 | _ \<Rightarrow> None))
      else None)"

fun header_dates ::
  "(cell \<Rightarrow> stamp option) \<Rightarrow> worksheet \<Rightarrow> int \<Rightarrow> int list \<Rightarrow> error + string list"
where
  "header_dates to_datetime ws date_row1 [] = Inr []"
| "header_dates to_datetime ws date_row1 (col # cols) =
     (case ws_cell ws date_row1 col of
        Inl e \<Rightarrow> Inl e
      | Inr date_value \<Rightarrow>
          (case header_dates to_datetime ws date_row1 cols of
             Inl e \<Rightarrow> Inl e
           | Inr dates \<Rightarrow>
               Inr (case parse_date to_datetime date_value of
                      Some d \<Rightarrow> d # dates
                    | None \<Rightarrow> dates)))"

definition extract_dates ::
  "(cell \<Rightarrow> stamp option) \<Rightarrow> worksheet \<Rightarrow> sheet_config \<Rightarrow> error + string list"
where
  "extract_dates to_datetime ws banking_config =
     header_dates to_datetime ws (date_row banking_config)
       [data_start_column banking_config .. max_column ws]"

section \<open>\<^verbatim>\<open>hierarchy_mapper.py\<close>: the rows of a section\<close>

text \<open>
  Lines 62 to 67: the values of a row. The \<open>i\<close>-th date is paired with the column
  \<open>data_start_column + i\<close>; a cell is kept when it is an \<^verbatim>\<open>int\<close> or a
  \<^verbatim>\<open>float\<close>.
  \<^verbatim>\<open>
  for date_idx, col in enumerate(range(data_start_column, data_start_column + len(dates))):
      value = ws.cell(row=row_index, column=col).value
      if value is not None and isinstance(value, (int, float)):
          values[dates[date_idx]] = value
  \<close>
\<close>

fun row_values ::
  "worksheet \<Rightarrow> int \<Rightarrow> int \<Rightarrow> string list \<Rightarrow> (string \<rightharpoonup> cell) \<Rightarrow> error + (string \<rightharpoonup> cell)"
where
  "row_values ws row_index col [] vals = Inr vals"
| "row_values ws row_index col (date # dates) vals =
     (case ws_cell ws row_index col of
        Inl e \<Rightarrow> Inl e
      | Inr v \<Rightarrow>
          row_values ws row_index (col + 1) dates
            (if v \<noteq> CNone \<and> is_int_or_float v then vals(date \<mapsto> v) else vals))"

text \<open>
  The dictionary \<^verbatim>\<open>entry\<close> of lines 70 to 84, with the keys \<^verbatim>\<open>name\<close>,
  \<^verbatim>\<open>hierarchy_level\<close>, \<^verbatim>\<open>row\<close>, \<^verbatim>\<open>values\<close>, \<^verbatim>\<open>is\<close> and \<^verbatim>\<open>en\<close>.
\<close>

record entry =
  entry_name :: string
  hierarchy_level :: int
  entry_row :: int
  entry_values :: "string \<rightharpoonup> cell"
  entry_is :: string
  entry_en :: string

text \<open>
  Lines 50 to 87 (assets) and 89 to 126 (liabilities): the same loop, from the
  section's start row over the section's levels. A row whose name cell is
  \<^verbatim>\<open>None\<close> is skipped.
\<close>

fun section_data ::
  "worksheet \<Rightarrow> sheet_config \<Rightarrow> string list \<Rightarrow> int \<Rightarrow> int list \<Rightarrow> error + entry list"
where
  "section_data ws banking_config dates row_index [] = Inr []"
| "section_data ws banking_config dates row_index (level # levels) =
     (case ws_cell ws row_index (data_name_column banking_config) of
        Inl e \<Rightarrow> Inl e
      | Inr c \<Rightarrow>
          if c = CNone then section_data ws banking_config dates (row_index + 1) levels
          else
            (case row_values ws row_index (data_start_column banking_config) dates Map.empty of
               Inl e \<Rightarrow> Inl e
             | Inr vs \<Rightarrow>
                 (case section_data ws banking_config dates (row_index + 1) levels of
                    Inl e \<Rightarrow> Inl e
                  | Inr entries \<Rightarrow>
                      Inr (\<lparr>entry_name = strip (py_str c), hierarchy_level = level,
                            entry_row = row_index, entry_values = vs,
                            entry_is = fst (split_name (strip (py_str c))),
                            entry_en = snd (split_name (strip (py_str c)))\<rparr> # entries))))"

section \<open>\<^verbatim>\<open>hierarchy_mapper.py\<close>: \<^verbatim>\<open>build_section_hierarchy\<close>\<close>

text \<open>
  The node dictionaries (keys \<^verbatim>\<open>id\<close>, \<^verbatim>\<open>name\<close>, \<^verbatim>\<open>is\<close>, \<^verbatim>\<open>en\<close>, \<^verbatim>\<open>level\<close>,
  \<^verbatim>\<open>values\<close>, \<^verbatim>\<open>children\<close>) are in the list \<^verbatim>\<open>nodes\<close>; the model keeps that list and
  refers to a node by its position in it. \<^verbatim>\<open>root_nodes\<close>, \<^verbatim>\<open>node_map\<close> and the
  \<^verbatim>\<open>children\<close> lists hold such positions.
\<close>

record hnode =
  node_id :: string
  node_name :: string
  node_is :: string
  node_en :: string
  node_level :: int
  node_values :: "string \<rightharpoonup> cell"
  node_children :: "nat list"

text \<open>Lines 150 to 161.\<close>

definition make_node :: "entry \<Rightarrow> hnode" where
  "make_node item =
     \<lparr>node_id = ''row_'' @ str_int (entry_row item), node_name = entry_name item,
      node_is = entry_is item, node_en = entry_en item, node_level = hierarchy_level item,
      node_values = entry_values item, node_children = []\<rparr>"

text \<open>
  Lines 167 to 186, one turn of the loop for the node at position \<open>i\<close>. A node of
  level 1 is a root and resets \<^verbatim>\<open>node_map\<close>. Any other node is attached to the
  node on record for the level just above; when there is none, nothing is done with
  the node.
  \<^verbatim>\<open>
  if level == 1:
      root_nodes.append(node)
      node_map = {1: node}
  else:
      parent_level = level - 1
      if parent_level in node_map:
          parent = node_map[parent_level]
          parent["children"].append(node)
          node_map[level] = node
          keys_to_remove = [k for k in node_map.keys() if k > level]
          for k in keys_to_remove:
              node_map.pop(k, None)
  \<close>
\<close>

definition place_node ::
  "nat \<Rightarrow> hnode list \<times> nat list \<times> (int \<rightharpoonup> nat) \<Rightarrow> hnode list \<times> nat list \<times> (int \<rightharpoonup> nat)"
where
  "place_node i st =
     (case st of (nodes, root_nodes, node_map) \<Rightarrow>
        if node_level (nodes ! i) = 1 then (nodes, root_nodes @ [i], [1 \<mapsto> i])
        else
          (case node_map (node_level (nodes ! i) - 1) of
             Some parent \<Rightarrow>
               (nodes[parent := (nodes ! parent)
                   \<lparr>node_children := node_children (nodes ! parent) @ [i]\<rparr>],
                root_nodes,
                (\<lambda>k. if k > node_level (nodes ! i) then None
                      else (node_map(node_level (nodes ! i) \<mapsto> i)) k))
           | None \<Rightarrow> (nodes, root_nodes, node_map)))"

text \<open>
  \<^verbatim>\<open>build_section_hierarchy(section_data)\<close>: the result is \<^verbatim>\<open>root_nodes\<close>, given
  here with the list of nodes that its positions refer to.
\<close>

definition build_section_hierarchy :: "entry list \<Rightarrow> hnode list \<times> nat list" where
  "build_section_hierarchy items =
     (case fold place_node [0 ..< length items] (map make_node items, [], Map.empty) of
        (nodes, root_nodes, node_map) \<Rightarrow> (nodes, root_nodes))"

text \<open>The JSON document below a node, and the list of documents of the roots.\<close>

datatype htree = HTree string string string string int "string \<rightharpoonup> cell" "htree list"

fun htree_of :: "nat \<Rightarrow> hnode list \<Rightarrow> nat \<Rightarrow> htree option" where
  "htree_of 0 nodes a = None"
| "htree_of (Suc fuel) nodes a =
     (if a < length nodes then
        map_option
          (HTree (node_id (nodes ! a)) (node_name (nodes ! a)) (node_is (nodes ! a))
             (node_en (nodes ! a)) (node_level (nodes ! a)) (node_values (nodes ! a)))
          (those (map (htree_of fuel nodes) (node_children (nodes ! a))))
      else None)"

definition forest :: "hnode list \<times> nat list \<Rightarrow> htree list option" where
  "forest r = those (map (htree_of (Suc (length (fst r))) (fst r)) (snd r))"

text \<open>
  \<^verbatim>\<open>extract_hierarchy_data\<close> with \<^verbatim>\<open>build_hierarchy\<close>, lines 128 to 143: the dates
  and the two hierarchies, each built by a call of its own.
\<close>

definition extract_hierarchy_data ::
  "(cell \<Rightarrow> stamp option) \<Rightarrow> worksheet \<Rightarrow> sheet_config
     \<Rightarrow> error + string list \<times> (hnode list \<times> nat list) \<times> (hnode list \<times> nat list)"
where
  "extract_hierarchy_data to_datetime ws banking_config =
     (case extract_dates to_datetime ws banking_config of
        Inl e \<Rightarrow> Inl e
      | Inr dates \<Rightarrow>
          (case section_data ws banking_config dates (assets_row banking_config)
                  (assets_hierarchy banking_config) of
             Inl e \<Rightarrow> Inl e
           | Inr assets_data \<Rightarrow>
               (case section_data ws banking_config dates (liabilities_row banking_config)
                       (liabilities_hierarchy banking_config) of
                  Inl e \<Rightarrow> Inl e
                | Inr liabilities_data \<Rightarrow>
                    Inr (dates, build_section_hierarchy assets_data,
                         build_section_hierarchy liabilities_data))))"

section \<open>\<^verbatim>\<open>dataframe_parser.py\<close>: the flat view\<close>

text \<open>
  Lines 34 to 47: the dates of the header. The loop is the one of
  \<^verbatim>\<open>hierarchy_mapper.py\<close>, but it keeps the date itself, not its label: a
  \<^verbatim>\<open>datetime\<close> cell as it is, any other cell as \<^verbatim>\<open>pd.to_datetime\<close> returns it,
  \<^verbatim>\<open>NaT\<close> included. Only a call that raises is skipped.
  \<^verbatim>\<open>
  for col in range(data_start_column, ws.max_column + 1):
      date_value = ws.cell(row=date_row, column=col).value
      if date_value:
          if isinstance(date_value, datetime):
              dates.append(date_value)
          else:
              try:
                  dt = pd.to_datetime(date_value)
                  dates.append(dt)
              except:
                  pass
  \<close>
\<close>

definition parse_stamp :: "(cell \<Rightarrow> stamp option) \<Rightarrow> cell \<Rightarrow> stamp option" where
  "parse_stamp to_datetime date_value =
     (if truthy date_value
      then (case date_value of CDate d \<Rightarrow> Some (Stamp d 0) | _ \<Rightarrow> to_datetime date_value)
      else None)"

fun header_stamps ::
  "(cell \<Rightarrow> stamp option) \<Rightarrow> worksheet \<Rightarrow> int \<Rightarrow> int list \<Rightarrow> error + stamp list"
where
  "header_stamps to_datetime ws date_row1 [] = Inr []"
| "header_stamps to_datetime ws date_row1 (col # cols) =
     (case ws_cell ws date_row1 col of
        Inl e \<Rightarrow> Inl e
      | Inr date_value \<Rightarrow>
          (case header_stamps to_datetime ws date_row1 cols of
             Inl e \<Rightarrow> Inl e
           | Inr dates \<Rightarrow>
               Inr (case parse_stamp to_datetime date_value of
                      Some d \<Rightarrow> d # dates
                    | None \<Rightarrow> dates)))"

definition extract_stamps ::
  "(cell \<Rightarrow> stamp option) \<Rightarrow> worksheet \<Rightarrow> sheet_config \<Rightarrow> error + stamp list"
where
  "extract_stamps to_datetime ws banking_config =
     header_stamps to_datetime ws (date_row banking_config)
       [data_start_column banking_config .. max_column ws]"

text \<open>
  One row of \<^verbatim>\<open>all_data\<close>, with the keys \<^verbatim>\<open>date\<close>, \<^verbatim>\<open>name\<close>, \<^verbatim>\<open>name_is\<close>,
  \<^verbatim>\<open>name_en\<close>, \<^verbatim>\<open>type\<close>, \<^verbatim>\<open>parent\<close>, \<^verbatim>\<open>parent_is\<close>, \<^verbatim>\<open>parent_en\<close>,
  \<^verbatim>\<open>hierarchy_level\<close> and \<^verbatim>\<open>value\<close>. The name is the cell value as read (it is
  not converted to a string here), and a missing parent is \<^verbatim>\<open>None\<close>.
\<close>

record flat_row =
  row_date :: stamp
  row_name :: cell
  row_name_is :: cell
  row_name_en :: string
  row_type :: string
  row_parent :: cell
  row_parent_is :: cell
  row_parent_en :: string
  row_hierarchy_level :: int
  row_value :: cell

text \<open>
  Lines 66 to 72 and 86 to 92: the split of a name or of a parent, which applies to
  text only.
  \<^verbatim>\<open>
  name_is = name
  name_en = ""
  if isinstance(name, str) and " / " in name:
      parts = name.split(" / ", 1)
      name_is = parts[0]
      name_en = parts[1]
  \<close>
\<close>

definition split_cell :: "cell \<Rightarrow> cell \<times> string" where
  "split_cell c =
     (case c of
        CStr s \<Rightarrow>
          if py_in '' / '' s
          then (let parts = split1 '' / '' s in (CStr (parts ! 0), parts ! 1))
          else (c, [])
      | _ \<Rightarrow> (c, []))"

definition make_row :: "cell \<Rightarrow> string \<Rightarrow> cell \<Rightarrow> int \<Rightarrow> stamp \<Rightarrow> cell \<Rightarrow> flat_row" where
  "make_row c ty parent level d v =
     \<lparr>row_date = d, row_name = c, row_name_is = fst (split_cell c),
      row_name_en = snd (split_cell c), row_type = ty, row_parent = parent,
      row_parent_is = fst (split_cell parent), row_parent_en = snd (split_cell parent),
      row_hierarchy_level = level, row_value = v\<rparr>"

text \<open>Lines 94 to 112: one flat row for every date whose cell holds a number.\<close>

fun value_rows ::
  "worksheet \<Rightarrow> int \<Rightarrow> int \<Rightarrow> stamp list \<Rightarrow> (stamp \<Rightarrow> cell \<Rightarrow> flat_row) \<Rightarrow> error + flat_row list"
where
  "value_rows ws row_index col [] mk = Inr []"
| "value_rows ws row_index col (d # ds) mk =
     (case ws_cell ws row_index col of
        Inl e \<Rightarrow> Inl e
      | Inr v \<Rightarrow>
          (case value_rows ws row_index (col + 1) ds mk of
             Inl e \<Rightarrow> Inl e
           | Inr rows \<Rightarrow> Inr (if v \<noteq> CNone \<and> is_int_or_float v then mk d v # rows else rows)))"

text \<open>
  Lines 56 to 114 (assets) and 119 to 177 (liabilities): the same loop.
  \<^verbatim>\<open>current_parents\<close> maps a level to the name last seen at that level; the parent
  of a row is the name on record one level up, or \<^verbatim>\<open>None\<close>.
  \<^verbatim>\<open>
  current_parents[level] = name
  levels_to_remove = [k for k in current_parents.keys() if k > level]
  for k in levels_to_remove:
      if k in current_parents:
          del current_parents[k]
  parent = current_parents.get(level - 1, None) if level > 1 else None
  \<close>
\<close>

definition record_parent :: "(int \<rightharpoonup> cell) \<Rightarrow> int \<Rightarrow> cell \<Rightarrow> (int \<rightharpoonup> cell)" where
  "record_parent current_parents level c =
     (\<lambda>k. if k > level then None else (current_parents(level \<mapsto> c)) k)"

definition direct_parent :: "(int \<rightharpoonup> cell) \<Rightarrow> int \<Rightarrow> cell" where
  "direct_parent current_parents level =
     (if level > 1
      then (case current_parents (level - 1) of Some p \<Rightarrow> p | None \<Rightarrow> CNone)
      else CNone)"

fun section_rows ::
  "worksheet \<Rightarrow> sheet_config \<Rightarrow> stamp list \<Rightarrow> string \<Rightarrow> int \<Rightarrow> int list
     \<Rightarrow> (int \<rightharpoonup> cell) \<Rightarrow> error + flat_row list"
where
  "section_rows ws banking_config dates ty row_index [] current_parents = Inr []"
| "section_rows ws banking_config dates ty row_index (level # levels) current_parents =
     (case ws_cell ws row_index (data_name_column banking_config) of
        Inl e \<Rightarrow> Inl e
      | Inr c \<Rightarrow>
          if c = CNone
          then section_rows ws banking_config dates ty (row_index + 1) levels current_parents
          else
            (case value_rows ws row_index (data_start_column banking_config) dates
                    (make_row c ty
                       (direct_parent (record_parent current_parents level c) level) level) of
               Inl e \<Rightarrow> Inl e
             | Inr rows \<Rightarrow>
                 (case section_rows ws banking_config dates ty (row_index + 1) levels
                         (record_parent current_parents level c) of
                    Inl e \<Rightarrow> Inl e
                  | Inr later \<Rightarrow> Inr (rows @ later))))"

text \<open>
  \<^verbatim>\<open>all_data\<close> before the sort: the rows of the assets, then, with
  \<^verbatim>\<open>current_parents\<close> reset to the empty dictionary (line 117), the rows of the
  liabilities.
\<close>

definition all_data ::
  "(cell \<Rightarrow> stamp option) \<Rightarrow> worksheet \<Rightarrow> sheet_config \<Rightarrow> error + flat_row list"
where
  "all_data to_datetime ws banking_config =
     (case extract_stamps to_datetime ws banking_config of
        Inl e \<Rightarrow> Inl e
      | Inr dates \<Rightarrow>
          (case section_rows ws banking_config dates ''asset'' (assets_row banking_config)
                  (assets_hierarchy banking_config) Map.empty of
             Inl e \<Rightarrow> Inl e
           | Inr assets \<Rightarrow>
               (case section_rows ws banking_config dates ''liability''
                       (liabilities_row banking_config)
                       (liabilities_hierarchy banking_config) Map.empty of
                  Inl e \<Rightarrow> Inl e
                | Inr liabilities \<Rightarrow> Inr (assets @ liabilities))))"

text \<open>
  Line 180, \<^verbatim>\<open>pd.DataFrame(all_data)\<close>. The frame is represented by its rows in
  order, each row by its dictionary. pandas gives every column one type: a column
  that holds integers and floats (or integers and \<^verbatim>\<open>None\<close>) and nothing else
  becomes a column of floats, so its integers become floats; any other column keeps
  its values. This applies to the columns whose cells come from the sheet:
  \<^verbatim>\<open>name\<close>, \<^verbatim>\<open>name_is\<close>, \<^verbatim>\<open>parent\<close>, \<^verbatim>\<open>parent_is\<close> and \<^verbatim>\<open>value\<close>.
\<close>

fun is_number :: "cell \<Rightarrow> bool" where
  "is_number (CNum n) = True"
| "is_number (CFloat x) = True"
| "is_number _ = False"

fun is_int :: "cell \<Rightarrow> bool" where
  "is_int (CNum n) = True"
| "is_int _ = False"

definition infer_column :: "cell list \<Rightarrow> cell list" where
  "infer_column cs =
     (if list_all is_int cs then cs
      else if list_all (\<lambda>c. is_number c \<or> c = CNone) cs \<and> list_ex is_number cs
      then map to_float cs
      else cs)"

definition data_frame :: "flat_row list \<Rightarrow> flat_row list" where
  "data_frame rows =
     map (\<lambda>(r, n, ni, p, pi, v).
            r\<lparr>row_name := n, row_name_is := ni, row_parent := p, row_parent_is := pi,
              row_value := v\<rparr>)
       (zip rows
         (zip (infer_column (map row_name rows))
           (zip (infer_column (map row_name_is rows))
             (zip (infer_column (map row_parent rows))
               (zip (infer_column (map row_parent_is rows))
                 (infer_column (map row_value rows)))))))"

text \<open>
  Lines 182 to 185: \<^verbatim>\<open>df.sort_values(['date', 'type', 'name'])\<close>. A frame made
  from the empty list has no columns, and the sort raises \<^verbatim>\<open>KeyError\<close>. The sort
  is stable and ascending in the three keys. Dates are ordered by their fields, the
  missing date \<^verbatim>\<open>NaT\<close> last. Names are ordered as pandas orders the values of a
  column of objects: the values that are not texts come first, compared as Python
  compares them (numbers and Booleans by value, datetimes by their fields), then
  the texts, compared by their characters. A number and a datetime cannot be
  compared: a column that holds both makes the sort raise \<^verbatim>\<open>TypeError\<close>.
\<close>

definition datetime_key :: "datetime \<Rightarrow> nat \<times> nat \<times> nat \<times> nat \<times> nat \<times> nat \<times> nat" where
  "datetime_key d = (case d of DateTime y mo dd h mi s us \<Rightarrow> (y, mo, dd, h, mi, s, us))"

definition date_key ::
  "stamp \<Rightarrow> nat \<times> (nat \<times> nat \<times> nat \<times> nat \<times> nat \<times> nat \<times> nat) \<times> nat" where
  "date_key t =
     (case t of
        Stamp d ns \<Rightarrow> (0, datetime_key d, ns)
      | NaT \<Rightarrow> (1, (0, 0, 0, 0, 0, 0, 0), 0))"

definition name_key ::
  "cell \<Rightarrow> nat \<times> rat \<times> (nat \<times> nat \<times> nat \<times> nat \<times> nat \<times> nat \<times> nat) \<times> string" where
  "name_key c =
     (case c of
        CNum n \<Rightarrow> (0, of_int n, (0, 0, 0, 0, 0, 0, 0), [])
      | CFloat x \<Rightarrow> (0, float_value x, (0, 0, 0, 0, 0, 0, 0), [])
      | CBool b \<Rightarrow> (0, if b then 1 else 0, (0, 0, 0, 0, 0, 0, 0), [])
      | CDate d \<Rightarrow> (0, 0, datetime_key d, [])
      | CStr s \<Rightarrow> (1, 0, (0, 0, 0, 0, 0, 0, 0), s)
      | CNone \<Rightarrow> (2, 0, (0, 0, 0, 0, 0, 0, 0), []))"

definition sort_tuple ::
  "flat_row \<Rightarrow>
     (nat \<times> (nat \<times> nat \<times> nat \<times> nat \<times> nat \<times> nat \<times> nat) \<times> nat) \<times> string \<times>
     (nat \<times> rat \<times> (nat \<times> nat \<times> nat \<times> nat \<times> nat \<times> nat \<times> nat) \<times> string)" where
  "sort_tuple r = (date_key (row_date r), row_type r, name_key (row_name r))"

fun is_datetime :: "cell \<Rightarrow> bool" where
  "is_datetime (CDate d) = True"
| "is_datetime _ = False"

definition sort_values :: "flat_row list \<Rightarrow> error + flat_row list" where
  "sort_values rows =
     (if rows = [] then Inl KeyError
      else if list_ex (\<lambda>r. is_int_or_float (row_name r)) rows
              \<and> list_ex (\<lambda>r. is_datetime (row_name r)) rows
      then Inl TypeError
      else Inr (sort_key sort_tuple rows))"

text \<open>\<^verbatim>\<open>parse_excel_to_dataframe\<close>: the rows are collected, typed and sorted.\<close>

definition parse_excel_to_dataframe ::
  "(cell \<Rightarrow> stamp option) \<Rightarrow> worksheet \<Rightarrow> sheet_config \<Rightarrow> error + flat_row list"
where
  "parse_excel_to_dataframe to_datetime ws banking_config =
     (case all_data to_datetime ws banking_config of
        Inl e \<Rightarrow> Inl e
      | Inr rows \<Rightarrow> sort_values (data_frame rows))"
section \<open>\<^verbatim>\<open>openpyxl_parser.py\<close>: the section switch of \<^verbatim>\<open>detect_hierarchy\<close>\<close>

text \<open>
  Line 231. In Python \<^verbatim>\<open>and\<close> binds tighter than \<^verbatim>\<open>or\<close>, so the row offset
  guards the second marker only.
  \<^verbatim>\<open>
  if "SKULDIR" in title_text or "LIABILITIES" in title_text and row_idx > start_row + 5:
      in_assets = False
      hierarchy_stack = []  # Reset the stack
  \<close>
\<close>

definition is_section_switch :: "string \<Rightarrow> int \<Rightarrow> int \<Rightarrow> bool" where
  "is_section_switch title_text row_idx start_row \<longleftrightarrow>
     py_in ''SKULDIR'' title_text \<or>
     (py_in ''LIABILITIES'' title_text \<and> row_idx > start_row + 5)"

text \<open>
  Lines 219 to 234 of the loop over the rows, for the two variables that the switch
  writes: \<^verbatim>\<open>in_assets\<close> and \<^verbatim>\<open>hierarchy_stack\<close>. A row whose title is
  \<^verbatim>\<open>None\<close> or blank is skipped before the test.
\<close>

definition switch_step ::
  "worksheet \<Rightarrow> int \<Rightarrow> int \<Rightarrow> int \<Rightarrow> bool \<times> 'a list \<Rightarrow> error + bool \<times> 'a list"
where
  "switch_step ws title_col start_row row_idx st =
     (case ws_cell ws row_idx title_col of
        Inl e \<Rightarrow> Inl e
      | Inr title \<Rightarrow>
          if title = CNone \<or> strip (py_str title) = [] then Inr st
          else if is_section_switch (strip (py_str title)) row_idx start_row
          then Inr (False, [])
          else Inr st)"

section \<open>Specification predicates for \<^verbatim>\<open>parse_section\<close>\<close>

text \<open>
  The dictionaries of \<^verbatim>\<open>parse_section\<close> do not record their level; only the
  stack does. The node at address \<open>a > 0\<close> comes from the \<open>a\<close>-th row that was
  not skipped, so its declared level is the \<open>a\<close>-th entry of the levels of the rows
  that were not skipped.
\<close>

fun node_levels :: "dataframe \<Rightarrow> sheet_config \<Rightarrow> string list \<Rightarrow> int \<Rightarrow> int list \<Rightarrow> int list" where
  "node_levels df sheet_config dates current_row [] = []"
| "node_levels df sheet_config dates current_row (level # levels) =
     (case parse_row df sheet_config dates current_row of
        Inr (Some node) \<Rightarrow> level # node_levels df sheet_config dates (current_row + 1) levels
      | _ \<Rightarrow> node_levels df sheet_config dates (current_row + 1) levels)"

text \<open>
  Strict mode: the level of each node is at most one more than the level of the node
  created before it; before the first node stands the level given as \<open>prev\<close>.
\<close>

fun no_forward_gaps :: "int \<Rightarrow> int list \<Rightarrow> bool" where
  "no_forward_gaps prev [] = True"
| "no_forward_gaps prev (level # levels) = (level \<le> prev + 1 \<and> no_forward_gaps level levels)"

text \<open>A stack of levels that counts down to 0 in steps of one.\<close>

fun consecutive :: "int list \<Rightarrow> bool" where
  "consecutive [] = False"
| "consecutive [l] = (l = 0)"
| "consecutive (l # l' # ls) = (l = l' + 1 \<and> consecutive (l' # ls))"

text \<open>
  The invariants of the loop, about a store, a stack and the list \<open>lv\<close> of the levels
  of the nodes by address (the section's dictionary has level 0).
\<close>

definition store_inv :: "int list \<Rightarrow> jnode list \<times> (nat \<times> int) list \<Rightarrow> bool" where
  "store_inv lv st \<longleftrightarrow>
     length lv = length (fst st) \<and> lv \<noteq> [] \<and>
     (\<forall>x \<in> set (snd st). fst x < length lv \<and> lv ! fst x = snd x) \<and>
     (\<forall>p < length (fst st). \<forall>c \<in> set (children (fst st ! p)). p < c \<and> c < length lv)"

definition gen_inv :: "int list \<Rightarrow> jnode list \<times> (nat \<times> int) list \<Rightarrow> bool" where
  "gen_inv lv st \<longleftrightarrow>
     store_inv lv st \<and> snd st \<noteq> [] \<and> hd (snd st) = (length (fst st) - 1, last lv) \<and>
     last (snd st) = (0, 0) \<and>
     (\<forall>a < length (fst st). 0 < a \<longrightarrow> (\<exists>p < a. a \<in> set (children (fst st ! p)) \<and> lv ! p < lv ! a)) \<and>
     (\<forall>a < length (fst st). 0 < a \<longrightarrow> lv ! (a - 1) < lv ! a \<longrightarrow> a \<in> set (children (fst st ! (a - 1))))"

definition strict_inv :: "int list \<Rightarrow> jnode list \<times> (nat \<times> int) list \<Rightarrow> bool" where
  "strict_inv lv st \<longleftrightarrow>
     gen_inv lv st \<and> consecutive (map snd (snd st)) \<and>
     lv ! 0 = 0 \<and> (\<forall>a < length lv. 0 < a \<longrightarrow> 1 \<le> lv ! a) \<and>
     (\<forall>p < length (fst st). \<forall>c \<in> set (children (fst st ! p)). lv ! c = lv ! p + 1)"

text \<open>The declared levels by address; the section's dictionary, at address 0, has level 0.\<close>

definition json_levels ::
  "dataframe \<Rightarrow> sheet_config \<Rightarrow> string list \<Rightarrow> int \<Rightarrow> int list \<Rightarrow> int list" where
  "json_levels df sheet_config dates start_row hierarchy_levels =
     0 # node_levels df sheet_config dates start_row hierarchy_levels"


text \<open>
  The dictionaries that the rows of a section give, in row order: one for every row
  that is not skipped, as \<^verbatim>\<open>parse_section\<close> creates it, with no children yet. And a
  dictionary of the store without its children.
\<close>

fun row_nodes :: "dataframe \<Rightarrow> sheet_config \<Rightarrow> string list \<Rightarrow> int \<Rightarrow> int list \<Rightarrow> jnode list" where
  "row_nodes df sheet_config dates current_row [] = []"
| "row_nodes df sheet_config dates current_row (level # levels) =
     (case parse_row df sheet_config dates current_row of
        Inr (Some node) \<Rightarrow> node # row_nodes df sheet_config dates (current_row + 1) levels
      | _ \<Rightarrow> row_nodes df sheet_config dates (current_row + 1) levels)"

fun without_children :: "jnode \<Rightarrow> jnode" where
  "without_children (Section name cs) = Section name []"
| "without_children (Item name name_is name_en vals cs) = Item name name_is name_en vals []"
section \<open>Specification predicates for \<^verbatim>\<open>build_section_hierarchy\<close>\<close>

text \<open>
  The invariant of the loop of \<^verbatim>\<open>build_section_hierarchy\<close> before the turn for
  position \<open>i\<close>: \<^verbatim>\<open>node_map\<close> and \<^verbatim>\<open>root_nodes\<close> refer to earlier nodes of the
  right level, the keys of \<^verbatim>\<open>node_map\<close> are the levels from 1 to some \<open>m\<close>, and
  every child is a later node than its parent, one level below it.
\<close>

definition hm_inv :: "nat \<Rightarrow> int \<Rightarrow> hnode list \<Rightarrow> nat list \<Rightarrow> (int \<rightharpoonup> nat) \<Rightarrow> bool" where
  "hm_inv i m nodes root_nodes node_map \<longleftrightarrow>
     (\<forall>k a. node_map k = Some a \<longrightarrow> a < i \<and> a < length nodes \<and> node_level (nodes ! a) = k) \<and>
     (\<forall>k. (node_map k \<noteq> None) = (1 \<le> k \<and> k \<le> m)) \<and>
     (\<forall>r \<in> set root_nodes. r < i \<and> r < length nodes \<and> node_level (nodes ! r) = 1) \<and>
     (\<forall>p < length nodes. \<forall>c \<in> set (node_children (nodes ! p)).
        c < i \<and> c < length nodes \<and> p < c \<and> 1 \<le> node_level (nodes ! p) \<and>
        node_level (nodes ! c) = node_level (nodes ! p) + 1)"

section \<open>Specification predicates for the flat view\<close>

text \<open>
  Two cells hold the same number in the type that pandas chose for the column: the
  same cell, or the float of the integer. Two flat rows are the same up to that
  choice.
\<close>

definition same_number :: "cell \<Rightarrow> cell \<Rightarrow> bool" where
  "same_number c c' \<longleftrightarrow> c' = c \<or> c' = to_float c"

definition same_row :: "flat_row \<Rightarrow> flat_row \<Rightarrow> bool" where
  "same_row r r' \<longleftrightarrow>
     row_date r' = row_date r \<and> row_type r' = row_type r \<and>
     row_name_en r' = row_name_en r \<and> row_parent_en r' = row_parent_en r \<and>
     row_hierarchy_level r' = row_hierarchy_level r \<and>
     same_number (row_name r) (row_name r') \<and> same_number (row_name_is r) (row_name_is r') \<and>
     same_number (row_parent r) (row_parent r') \<and>
     same_number (row_parent_is r) (row_parent_is r') \<and>
     same_number (row_value r) (row_value r')"


section \<open>Specification predicates for the independence of the sections\<close>





section \<open>The concrete scenario\<close>

text \<open>
  A sheet with a header row holding the two periods and five rows of declared levels
  1, 2, 3, 2, 1, each with the value 10 for the first period and 20 for the second:
  as a data frame for \<^verbatim>\<open>extract_json.py\<close>, with the configuration that places
  the header on row 1 and the section on rows 2 to 6. Every column holds a text, so
  no column is a column of numbers.
\<close>

definition scenario_df :: dataframe where
  "scenario_df =
     \<lparr>dtypes = [Object, Object, Object],
      table =
        [[CNone, CStr ''2024-01'', CStr ''2024-02''],
         [CStr ''A'', CNum 10, CNum 20],
         [CStr ''B'', CNum 10, CNum 20],
         [CStr ''C'', CNum 10, CNum 20],
         [CStr ''D'', CNum 10, CNum 20],
         [CStr ''E'', CNum 10, CNum 20]]\<rparr>"

definition scenario_config :: sheet_config where
  "scenario_config =
     \<lparr>date_row = 1, data_start_column = 2, data_name_column = 1, assets_row = 2,
      liabilities_row = 7, assets_hierarchy = [1, 2, 3, 2, 1], liabilities_hierarchy = []\<rparr>"

definition scenario_values :: "string \<rightharpoonup> cell" where
  "scenario_values = [''2024-01'' \<mapsto> CNum 10, ''2024-02'' \<mapsto> CNum 20]"

text \<open>
  The same five rows as the \<^verbatim>\<open>section_data\<close> of \<^verbatim>\<open>hierarchy_mapper.py\<close>.
\<close>

definition scenario_entries :: "entry list" where
  "scenario_entries =
     [\<lparr>entry_name = ''A'', hierarchy_level = 1, entry_row = 2, entry_values = scenario_values,
       entry_is = ''A'', entry_en = []\<rparr>,
      \<lparr>entry_name = ''B'', hierarchy_level = 2, entry_row = 3, entry_values = scenario_values,
       entry_is = ''B'', entry_en = []\<rparr>,
      \<lparr>entry_name = ''C'', hierarchy_level = 3, entry_row = 4, entry_values = scenario_values,
       entry_is = ''C'', entry_en = []\<rparr>,
      \<lparr>entry_name = ''D'', hierarchy_level = 2, entry_row = 5, entry_values = scenario_values,
       entry_is = ''D'', entry_en = []\<rparr>,
      \<lparr>entry_name = ''E'', hierarchy_level = 1, entry_row = 6, entry_values = scenario_values,
       entry_is = ''E'', entry_en = []\<rparr>]"

text \<open>Two rows for \<^verbatim>\<open>hierarchy_mapper.py\<close>, of levels 1 and 3: a forward gap.\<close>

definition jump_entries :: "entry list" where
  "jump_entries =
     [\<lparr>entry_name = ''A'', hierarchy_level = 1, entry_row = 2, entry_values = scenario_values,
       entry_is = ''A'', entry_en = []\<rparr>,
      \<lparr>entry_name = ''B'', hierarchy_level = 3, entry_row = 3, entry_values = scenario_values,
       entry_is = ''B'', entry_en = []\<rparr>]"

text \<open>
  A worksheet whose title column holds the liabilities header on row 10, the first row
  of the data region.
\<close>

definition early_marker_ws :: worksheet where
  "early_marker_ws =
     \<lparr>max_row = 12, max_column = 2,
      cell_value = (\<lambda>r c. if r = 10 \<and> c = 1 then CStr ''SKULDIR / LIABILITIES'' else CNone)\<rparr>"

text \<open>The dates 31 January 2024 and 29 February 2024, at midnight.\<close>

abbreviation jan_31 :: datetime where
  "jan_31 \<equiv> DateTime 2024 1 31 0 0 0 0"

abbreviation feb_29 :: datetime where
  "feb_29 \<equiv> DateTime 2024 2 29 0 0 0 0"

text \<open>
  A \<^verbatim>\<open>pd.to_datetime\<close> that raises on every value. The sheets below call it on
  nothing but the text \<^verbatim>\<open>Total\<close>, on which \<^verbatim>\<open>pd.to_datetime\<close> does raise.
\<close>

definition no_parse :: "cell \<Rightarrow> stamp option" where
  "no_parse c = None"

text \<open>
  The configuration of a sheet with the header on row 1 and one asset row, row 2, of
  level 1.
\<close>

definition row_config :: sheet_config where
  "row_config =
     \<lparr>date_row = 1, data_start_column = 2, data_name_column = 1, assets_row = 2,
      liabilities_row = 3, assets_hierarchy = [1], liabilities_hierarchy = []\<rparr>"

text \<open>
  A row whose cell for the first period holds 10 and whose cell for the second period
  is blank: as a worksheet, under the dates of January and February 2024, and as a
  data frame, under the texts \<^verbatim>\<open>2024-01\<close> and \<^verbatim>\<open>2024-02\<close>. And the same frame
  with the text \<^verbatim>\<open>see note\<close> in the cell for the second period.
\<close>

definition missing_ws :: worksheet where
  "missing_ws =
     \<lparr>max_row = 2, max_column = 3,
      cell_value = (\<lambda>r c.
        if r = 1 \<and> c = 2 then CDate jan_31
        else if r = 1 \<and> c = 3 then CDate feb_29
        else if r = 2 \<and> c = 1 then CStr ''A''
        else if r = 2 \<and> c = 2 then CNum 10
        else CNone)\<rparr>"

definition missing_df :: dataframe where
  "missing_df =
     \<lparr>dtypes = [Object, Object, Object],
      table =
        [[CNone, CStr ''2024-01'', CStr ''2024-02''],
         [CStr ''A'', CNum 10, CNone]]\<rparr>"

definition text_df :: dataframe where
  "text_df =
     \<lparr>dtypes = [Object, Object, Object],
      table =
        [[CNone, CStr ''2024-01'', CStr ''2024-02''],
         [CStr ''A'', CNum 10, CStr ''see note'']]\<rparr>"

text \<open>
  A frame whose header holds the years 2023 and 2024 as numbers, above one row with
  the values 12 and 25: the two columns hold integers only, so pandas stores them as
  integers. And the frame of the same sheet with a second row, of the liabilities,
  whose value for 2024 is 7.5: pandas then stores the column of 2024 as floats.
\<close>

definition years_df :: dataframe where
  "years_df =
     \<lparr>dtypes = [Object, Int64, Int64],
      table =
        [[CNone, CNum 2023, CNum 2024],
         [CStr ''A'', CNum 12, CNum 25],
         [CStr ''L'', CNum 3, CNum 7]]\<rparr>"

definition years_df_float :: dataframe where
  "years_df_float =
     \<lparr>dtypes = [Object, Int64, Float64],
      table =
        [[CNone, CNum 2023, CFloat (PyFloat False 2024 0)],
         [CStr ''A'', CNum 12, CFloat (PyFloat False 25 0)],
         [CStr ''L'', CNum 3, CFloat (PyFloat False 75 (- 1))]]\<rparr>"

definition years_config :: sheet_config where
  "years_config =
     \<lparr>date_row = 1, data_start_column = 2, data_name_column = 1, assets_row = 2,
      liabilities_row = 3, assets_hierarchy = [1], liabilities_hierarchy = [1]\<rparr>"

text \<open>
  A sheet whose header holds a date, the text \<^verbatim>\<open>Total\<close> and a second date, above one
  row with the values 10, 99 and 20: as a worksheet and as a data frame. And the frame
  of the sheet whose header has an empty cell in the place of the text: its column
  holds an empty cell and a number, so pandas stores it as floats.
\<close>

definition shift_ws :: worksheet where
  "shift_ws =
     \<lparr>max_row = 2, max_column = 4,
      cell_value = (\<lambda>r c.
        if r = 1 \<and> c = 2 then CDate jan_31
        else if r = 1 \<and> c = 3 then CStr ''Total''
        else if r = 1 \<and> c = 4 then CDate feb_29
        else if r = 2 \<and> c = 1 then CStr ''A''
        else if r = 2 \<and> c = 2 then CNum 10
        else if r = 2 \<and> c = 3 then CNum 99
        else if r = 2 \<and> c = 4 then CNum 20
        else CNone)\<rparr>"

definition shift_df :: dataframe where
  "shift_df =
     \<lparr>dtypes = [Object, Object, Object, Object],
      table =
        [[CNone, CDate jan_31, CStr ''Total'', CDate feb_29],
         [CStr ''A'', CNum 10, CNum 99, CNum 20]]\<rparr>"

definition gap_df :: dataframe where
  "gap_df =
     \<lparr>dtypes = [Object, Object, Float64, Object],
      table =
        [[CNone, CDate jan_31, CNone, CDate feb_29],
         [CStr ''A'', CNum 10, CFloat (PyFloat False 99 0), CNum 20]]\<rparr>"

text \<open>
  A worksheet with one date and two asset rows, named \<^verbatim>\<open>B\<close> and \<^verbatim>\<open>A\<close> in that order,
  and its configuration; the two flat rows that it gives. And the worksheet whose
  second row is named by the number 7 instead, with its two flat rows.
\<close>

definition order_ws :: worksheet where
  "order_ws =
     \<lparr>max_row = 3, max_column = 2,
      cell_value = (\<lambda>r c.
        if r = 1 \<and> c = 2 then CDate jan_31
        else if r = 2 \<and> c = 1 then CStr ''B''
        else if r = 2 \<and> c = 2 then CNum 10
        else if r = 3 \<and> c = 1 then CStr ''A''
        else if r = 3 \<and> c = 2 then CNum 20
        else CNone)\<rparr>"

definition order_config :: sheet_config where
  "order_config =
     \<lparr>date_row = 1, data_start_column = 2, data_name_column = 1, assets_row = 2,
      liabilities_row = 4, assets_hierarchy = [1, 2], liabilities_hierarchy = []\<rparr>"

definition order_row_B :: flat_row where
  "order_row_B =
     \<lparr>row_date = Stamp jan_31 0, row_name = CStr ''B'', row_name_is = CStr ''B'',
      row_name_en = [], row_type = ''asset'', row_parent = CNone, row_parent_is = CNone,
      row_parent_en = [], row_hierarchy_level = 1, row_value = CNum 10\<rparr>"

definition order_row_A :: flat_row where
  "order_row_A =
     \<lparr>row_date = Stamp jan_31 0, row_name = CStr ''A'', row_name_is = CStr ''A'',
      row_name_en = [], row_type = ''asset'', row_parent = CStr ''B'', row_parent_is = CStr ''B'',
      row_parent_en = [], row_hierarchy_level = 2, row_value = CNum 20\<rparr>"

definition number_ws :: worksheet where
  "number_ws =
     \<lparr>max_row = 3, max_column = 2,
      cell_value = (\<lambda>r c.
        if r = 1 \<and> c = 2 then CDate jan_31
        else if r = 2 \<and> c = 1 then CStr ''B''
        else if r = 2 \<and> c = 2 then CNum 10
        else if r = 3 \<and> c = 1 then CNum 7
        else if r = 3 \<and> c = 2 then CNum 20
        else CNone)\<rparr>"

definition number_row_7 :: flat_row where
  "number_row_7 =
     \<lparr>row_date = Stamp jan_31 0, row_name = CNum 7, row_name_is = CNum 7,
      row_name_en = [], row_type = ''asset'', row_parent = CStr ''B'', row_parent_is = CStr ''B'',
      row_parent_en = [], row_hierarchy_level = 2, row_value = CNum 20\<rparr>"




section \<open>Facts about the string primitives\<close>

lemma py_in_append: "py_in sep (a @ sep @ b)"
proof (induction a)
  case Nil
  have sw: "startswith (sep @ b) sep" by (simp add: startswith_def)
  show ?case
  proof (cases "sep @ b")
    case Nil
    then show ?thesis by simp
  next
    case (Cons c cs)
    with sw show ?thesis by simp
  qed
next
  case (Cons c a)
  then show ?case by simp
qed

lemma py_in_iff: "py_in sep s \<longleftrightarrow> (\<exists>a b. s = a @ sep @ b)"
proof
  show "py_in sep s \<Longrightarrow> \<exists>a b. s = a @ sep @ b"
  proof (induction s)
    case Nil
    then show ?case by simp
  next
    case (Cons c cs)
    show ?case
    proof (cases "startswith (c # cs) sep")
      case True
      then have "c # cs = [] @ sep @ drop (length sep) (c # cs)"
        unfolding startswith_def by (metis append_Nil append_take_drop_id)
      then show ?thesis by blast
    next
      case False
      with Cons obtain a b where "cs = a @ sep @ b" by auto
      then have "c # cs = (c # a) @ sep @ b" by simp
      then show ?thesis by blast
    qed
  qed
next
  show "\<exists>a b. s = a @ sep @ b \<Longrightarrow> py_in sep s"
    using py_in_append by blast
qed

text \<open>The split is at the leftmost occurrence of the separator.\<close>

lemma split1_first:
  "sep \<noteq> [] \<Longrightarrow> \<not> py_in sep (a @ butlast sep) \<Longrightarrow> split1 sep (a @ sep @ b) = [a, b]"
proof (induction a)
  case Nil
  then show ?case by (cases sep) (simp_all add: startswith_def)
next
  case (Cons c a)
  from Cons.prems have ns: "\<not> startswith (c # a @ butlast sep) sep"
    and ni: "\<not> py_in sep (a @ butlast sep)" by simp_all
  have "take (length sep) (c # a @ sep @ b) = take (length sep) (c # a @ butlast sep)"
    using Cons.prems(1) by (cases sep rule: rev_cases) simp_all
  with ns have "\<not> startswith (c # a @ sep @ b) sep" by (simp add: startswith_def)
  then show ?case using Cons.IH [OF Cons.prems(1) ni] by simp
qed

lemma split1_absent: "\<not> py_in sep s \<Longrightarrow> split1 sep s = [s]"
  by (induction s) (auto split: list.splits)

section \<open>Facts about \<^verbatim>\<open>parse_section\<close>\<close>

lemma find_parent_result:
  "find_parent stack level = Inr stack' \<Longrightarrow>
     \<exists>popped p l rest. stack = popped @ stack' \<and> stack' = (p, l) # rest \<and> l < level
        \<and> (\<forall>x \<in> set popped. level \<le> snd x)"
proof (induction stack)
  case Nil
  then show ?case by simp
next
  case (Cons x stack)
  obtain a l where x: "x = (a, l)" by (cases x)
  show ?case
  proof (cases "level \<le> l")
    case True
    with Cons.prems x have "find_parent stack level = Inr stack'" by simp
    from Cons.IH [OF this] obtain popped p l' rest where
      "stack = popped @ stack'" "stack' = (p, l') # rest" "l' < level"
      "\<forall>x \<in> set popped. level \<le> snd x" by blast
    with True x have "x # stack = (x # popped) @ stack' \<and> stack' = (p, l') # rest \<and> l' < level
        \<and> (\<forall>y \<in> set (x # popped). level \<le> snd y)" by simp
    then show ?thesis by blast
  next
    case False
    with Cons.prems x have "stack' = x # stack" by simp
    with False x have "x # stack = [] @ stack' \<and> stack' = (a, l) # stack \<and> l < level
        \<and> (\<forall>y \<in> set []. level \<le> snd y)" by simp
    then show ?thesis by blast
  qed
qed

lemma consecutive_append:
  "consecutive (xs @ y # ys) \<Longrightarrow> consecutive (y # ys) \<and> (xs \<noteq> [] \<longrightarrow> last xs = y + 1)"
proof (induction xs)
  case Nil
  then show ?case by simp
next
  case (Cons x xs)
  show ?case
  proof (cases xs)
    case Nil
    with Cons.prems show ?thesis by simp
  next
    case (Cons x' xs')
    with Cons.prems Cons.IH show ?thesis by simp
  qed
qed

lemma children_append_child: "children (append_child n a) = children n @ [a]"
  by (cases n) simp_all


lemma find_parent_sentinel:
  "stack \<noteq> [] \<Longrightarrow> snd (last stack) < level \<Longrightarrow> \<exists>stack'. find_parent stack level = Inr stack'"
proof (induction stack)
  case Nil
  then show ?case by simp
next
  case (Cons x stack)
  obtain a l where x: "x = (a, l)" by (cases x)
  show ?case
  proof (cases "stack = []")
    case True
    with Cons.prems x show ?thesis by simp
  next
    case False
    with Cons x show ?thesis by simp
  qed
qed

lemma add_node_Inr:
  assumes "add_node (store, stack) node level = Inr st'"
  obtains popped p l rest where "stack = popped @ (p, l) # rest" and "l < level"
    and "\<forall>x \<in> set popped. level \<le> snd x"
    and "st' = ((store @ [node])[p := append_child (store ! p) (length store)],
                (length store, level) # (p, l) # rest)"
proof -
  from assms obtain stack1 where fp: "find_parent stack level = Inr stack1"
    by (auto simp: add_node_def split: sum.splits)
  from find_parent_result [OF fp] obtain popped p l rest where
    1: "stack = popped @ stack1" "stack1 = (p, l) # rest" "l < level"
      "\<forall>x \<in> set popped. level \<le> snd x" by blast
  with assms fp have "st' = ((store @ [node])[p := append_child (store ! p) (length store)],
      (length store, level) # (p, l) # rest)"
    by (auto simp: add_node_def Let_def)
  with 1 that show ?thesis by blast
qed

lemma children_new_store:
  assumes "p < length store" and "children node = []" and "q \<le> length store"
  shows "children ((store @ [node])[p := append_child (store ! p) (length store)] ! q) =
     (if q = p then children (store ! p) @ [length store]
      else if q < length store then children (store ! q) else [])"
  using assms by (auto simp: nth_append nth_list_update children_append_child)

lemma store_invD:
  assumes "store_inv lv (store, stack)"
  shows "length lv = length store" and "lv \<noteq> []"
    and "\<And>x. x \<in> set stack \<Longrightarrow> fst x < length store"
    and "\<And>x. x \<in> set stack \<Longrightarrow> lv ! fst x = snd x"
    and "\<And>q c. q < length store \<Longrightarrow> c \<in> set (children (store ! q)) \<Longrightarrow> q < c"
    and "\<And>q c. q < length store \<Longrightarrow> c \<in> set (children (store ! q)) \<Longrightarrow> c < length store"
  using assms unfolding store_inv_def fst_conv snd_conv by metis+

lemma store_invI:
  assumes "length lv = length store" and "lv \<noteq> []"
    and "\<And>x. x \<in> set stack \<Longrightarrow> fst x < length store \<and> lv ! fst x = snd x"
    and "\<And>q c. q < length store \<Longrightarrow> c \<in> set (children (store ! q)) \<Longrightarrow> q < c \<and> c < length store"
  shows "store_inv lv (store, stack)"
  using assms unfolding store_inv_def fst_conv snd_conv by metis

lemma gen_invD:
  assumes "gen_inv lv (store, stack)"
  shows "store_inv lv (store, stack)" and "stack \<noteq> []"
    and "hd stack = (length store - 1, last lv)" and "last stack = (0, 0)"
    and "\<And>a. a < length store \<Longrightarrow> 0 < a \<Longrightarrow> \<exists>p < a. a \<in> set (children (store ! p)) \<and> lv ! p < lv ! a"
    and "\<And>a. a < length store \<Longrightarrow> 0 < a \<Longrightarrow> lv ! (a - 1) < lv ! a \<Longrightarrow> a \<in> set (children (store ! (a - 1)))"
  using assms unfolding gen_inv_def fst_conv snd_conv by metis+

lemma strict_invD:
  assumes "strict_inv lv (store, stack)"
  shows "gen_inv lv (store, stack)" and "consecutive (map snd stack)"
    and "lv ! 0 = 0" and "\<And>a. a < length lv \<Longrightarrow> 0 < a \<Longrightarrow> 1 \<le> lv ! a"
    and "\<And>q c. q < length store \<Longrightarrow> c \<in> set (children (store ! q)) \<Longrightarrow> lv ! c = lv ! q + 1"
  using assms unfolding strict_inv_def fst_conv snd_conv by metis+

lemma add_node_store_inv:
  assumes inv: "store_inv lv (store, stack)"
    and ok: "add_node (store, stack) node level = Inr st'"
    and leaf: "children node = []"
  shows "store_inv (lv @ [level]) st'"
proof -
  from ok obtain popped p l rest where stack: "stack = popped @ (p, l) # rest"
    and st': "st' = ((store @ [node])[p := append_child (store ! p) (length store)],
                (length store, level) # (p, l) # rest)"
    by (rule add_node_Inr)
  note D = store_invD [OF inv]
  have pin: "(p, l) \<in> set stack" using stack by simp
  have p: "p < length store" using D(3) [OF pin] by simp
  have lp: "lv ! p = l" using D(4) [OF pin] by simp
  have rest: "\<And>x. x \<in> set rest \<Longrightarrow> x \<in> set stack" using stack by simp
  note ch = children_new_store [OF p leaf]
  have chp: "children ((store @ [node])[p := append_child (store ! p) (length store)] ! p) =
      children (store ! p) @ [length store]"
    using ch [of p] p by simp
  let ?store' = "(store @ [node])[p := append_child (store ! p) (length store)]"
  have len': "length ?store' = Suc (length store)" by simp
  have "store_inv (lv @ [level]) (?store', (length store, level) # (p, l) # rest)"
  proof (rule store_invI)
    show "length (lv @ [level]) = length ?store'" using D(1) by simp
    show "lv @ [level] \<noteq> []" by simp
  next
    fix x assume "x \<in> set ((length store, level) # (p, l) # rest)"
    then consider "x = (length store, level)" | "x = (p, l)" | "x \<in> set rest" by auto
    then show "fst x < length ?store' \<and> (lv @ [level]) ! fst x = snd x"
    proof cases
      case 1
      then show ?thesis using D(1) by (simp add: nth_append)
    next
      case 2
      then show ?thesis using p lp D(1) by (simp add: nth_append)
    next
      case 3
      from rest [OF 3] have "fst x < length store" "lv ! fst x = snd x"
        using D(3) D(4) by blast+
      then show ?thesis using D(1) by (simp add: nth_append)
    qed
  next
    fix q c assume q: "q < length ?store'" and c: "c \<in> set (children (?store' ! q))"
    from q have q': "q \<le> length store" by simp
    show "q < c \<and> c < length ?store'"
    proof (cases "q = p")
      case True
      with c ch [OF q'] have "c \<in> set (children (store ! p)) \<or> c = length store" by auto
      then show ?thesis
      proof
        assume "c \<in> set (children (store ! p))"
        with D(5) [OF p] D(6) [OF p] True show ?thesis by (simp add: less_SucI)
      next
        assume "c = length store"
        with True p show ?thesis by simp
      qed
    next
      case False
      show ?thesis
      proof (cases "q < length store")
        case True
        with False c ch [OF q'] have "c \<in> set (children (store ! q))" by simp
        with D(5) [OF True] D(6) [OF True] show ?thesis by (simp add: less_SucI)
      next
        case False
        with \<open>q \<noteq> p\<close> c ch [OF q'] show ?thesis by simp
      qed
    qed
  qed
  with st' show ?thesis by simp
qed


lemma add_node_gen:
  assumes inv: "gen_inv lv (store, stack)"
    and ok: "add_node (store, stack) node level = Inr st'"
    and leaf: "children node = []"
  shows "gen_inv (lv @ [level]) st'"
proof -
  from ok obtain popped p l rest where stack: "stack = popped @ (p, l) # rest"
    and l: "l < level" and popped: "\<forall>x \<in> set popped. level \<le> snd x"
    and st': "st' = ((store @ [node])[p := append_child (store ! p) (length store)],
                (length store, level) # (p, l) # rest)"
    by (rule add_node_Inr)
  note G = gen_invD [OF inv]
  note D = store_invD [OF G(1)]
  have pin: "(p, l) \<in> set stack" using stack by simp
  have p: "p < length store" using D(3) [OF pin] by simp
  have lp: "lv ! p = l" using D(4) [OF pin] by simp
  note ch = children_new_store [OF p leaf]
  have chp: "children ((store @ [node])[p := append_child (store ! p) (length store)] ! p) =
      children (store ! p) @ [length store]"
    using ch [of p] p by simp
  let ?store' = "(store @ [node])[p := append_child (store ! p) (length store)]"
  let ?stack' = "(length store, level) # (p, l) # rest"
  have A: "store_inv (lv @ [level]) (?store', ?stack')"
    using add_node_store_inv [OF G(1) ok leaf] st' by simp
  have C: "last ?stack' = (0, 0)" using G(4) stack by simp
  have D': "\<exists>q < a. a \<in> set (children (?store' ! q)) \<and> (lv @ [level]) ! q < (lv @ [level]) ! a"
    if a: "a < length ?store'" "0 < a" for a
  proof (cases "a = length store")
    case True
    have "a \<in> set (children (?store' ! p))" using True by (simp add: chp)
    moreover have "(lv @ [level]) ! p < (lv @ [level]) ! a"
      using True p lp l D(1) by (simp add: nth_append)
    ultimately show ?thesis using p True by blast
  next
    case False
    with a have al: "a < length store" by simp
    from G(5) [OF al a(2)] obtain q where q: "q < a" "a \<in> set (children (store ! q))" "lv ! q < lv ! a"
      by blast
    from q(1) al have ql: "q \<le> length store" "q < length store" by simp_all
    have "a \<in> set (children (?store' ! q))" using q(2) ql by (auto simp: ch)
    moreover have "(lv @ [level]) ! q < (lv @ [level]) ! a"
      using q(3) ql al D(1) by (simp add: nth_append)
    ultimately show ?thesis using q(1) by blast
  qed
  have E: "a \<in> set (children (?store' ! (a - 1)))"
    if a: "a < length ?store'" "0 < a" and up: "(lv @ [level]) ! (a - 1) < (lv @ [level]) ! a" for a
  proof (cases "a = length store")
    case True
    from D(2) have "last lv = lv ! (length lv - 1)" by (simp add: last_conv_nth)
    with up True D(1) a(2) have lt: "last lv < level" by (simp add: nth_append)
    have "popped = []"
    proof (rule ccontr)
      assume ne: "popped \<noteq> []"
      with stack G(3) have "hd popped = (length store - 1, last lv)" by simp
      moreover from ne have "hd popped \<in> set popped" by simp
      ultimately have "level \<le> last lv" using popped by fastforce
      with lt show False by simp
    qed
    with stack G(3) have "p = length store - 1" by simp
    with True have "a - 1 = p" by simp
    show ?thesis unfolding \<open>a - 1 = p\<close> chp using True by simp
  next
    case False
    with a have al: "a < length store" by simp
    then have "a - 1 < length lv" "a < length lv" using D(1) by simp_all
    with up have "lv ! (a - 1) < lv ! a" by (simp add: nth_append)
    from G(6) [OF al a(2) this] have "a \<in> set (children (store ! (a - 1)))" .
    moreover from al have "a - 1 \<le> length store" "a - 1 < length store" by simp_all
    ultimately show ?thesis by (auto simp: ch)
  qed
  have "gen_inv (lv @ [level]) (?store', ?stack')"
    unfolding gen_inv_def fst_conv snd_conv
  proof (intro conjI allI impI)
    show "store_inv (lv @ [level]) (?store', ?stack')" by (rule A)
    show "?stack' \<noteq> []" by simp
    show "hd ?stack' = (length ?store' - 1, last (lv @ [level]))" by simp
    show "last ?stack' = (0, 0)" by (rule C)
  next
    fix a assume "a < length ?store'" "0 < a"
    then show "\<exists>p<a. a \<in> set (children (?store' ! p)) \<and> (lv @ [level]) ! p < (lv @ [level]) ! a"
      by (rule D')
  next
    fix a assume "a < length ?store'" "0 < a" "(lv @ [level]) ! (a - 1) < (lv @ [level]) ! a"
    then show "a \<in> set (children (?store' ! (a - 1)))" by (rule E)
  qed
  with st' show ?thesis by simp
qed

lemma add_node_strict:
  assumes inv: "strict_inv lv (store, stack)"
    and ok: "add_node (store, stack) node level = Inr st'"
    and gap: "level \<le> last lv + 1"
    and leaf: "children node = []"
  shows "strict_inv (lv @ [level]) st'"
proof -
  from ok obtain popped p l rest where stack: "stack = popped @ (p, l) # rest"
    and l: "l < level" and popped: "\<forall>x \<in> set popped. level \<le> snd x"
    and st': "st' = ((store @ [node])[p := append_child (store ! p) (length store)],
                (length store, level) # (p, l) # rest)"
    by (rule add_node_Inr)
  note S = strict_invD [OF inv]
  note G = gen_invD [OF S(1)]
  note D = store_invD [OF G(1)]
  have pin: "(p, l) \<in> set stack" using stack by simp
  have p: "p < length store" using D(3) [OF pin] by simp
  have lp: "lv ! p = l" using D(4) [OF pin] by simp
  note ch = children_new_store [OF p leaf]
  have chp: "children ((store @ [node])[p := append_child (store ! p) (length store)] ! p) =
      children (store ! p) @ [length store]"
    using ch [of p] p by simp
  let ?store' = "(store @ [node])[p := append_child (store ! p) (length store)]"
  let ?stack' = "(length store, level) # (p, l) # rest"
  from S(2) stack have c1: "consecutive (map snd popped @ l # map snd rest)" by simp
  from consecutive_append [OF c1] have c2: "consecutive (l # map snd rest)"
    and c3: "popped \<noteq> [] \<longrightarrow> last (map snd popped) = l + 1" by simp_all
  have lev: "level = l + 1"
  proof (cases "popped = []")
    case True
    with stack G(3) have "l = last lv" by simp
    with gap l show ?thesis by simp
  next
    case False
    with c3 have "snd (last popped) = l + 1" by (simp add: last_map)
    moreover from False popped have "level \<le> snd (last popped)" by simp
    ultimately show ?thesis using l by simp
  qed
  have l0: "0 \<le> l"
  proof (cases "p = 0")
    case True
    with S(3) lp show ?thesis by simp
  next
    case False
    with S(4) [of p] p D(1) have "1 \<le> lv ! p" by simp
    with lp show ?thesis by simp
  qed
  have A: "gen_inv (lv @ [level]) (?store', ?stack')"
    using add_node_gen [OF S(1) ok leaf] st' by simp
  have B: "consecutive (map snd ?stack')" using c2 lev by simp
  have Z: "(lv @ [level]) ! 0 = 0" using S(3) D(2) by (simp add: nth_append)
  have E: "1 \<le> (lv @ [level]) ! a" if a: "a < length (lv @ [level])" "0 < a" for a
  proof (cases "a < length lv")
    case True
    with S(4) [OF True a(2)] show ?thesis by (simp add: nth_append)
  next
    case False
    with a have "a = length lv" by simp
    with l0 lev show ?thesis by simp
  qed
  have F: "(lv @ [level]) ! c = (lv @ [level]) ! q + 1"
    if q: "q < length ?store'" and c: "c \<in> set (children (?store' ! q))" for q c
  proof -
    from q have q': "q \<le> length store" by simp
    have old: "(lv @ [level]) ! c = (lv @ [level]) ! q + 1"
      if "q < length store" "c \<in> set (children (store ! q))"
    proof -
      from D(6) [OF that] have "c < length store" .
      with that(1) S(5) [OF that] D(1) show ?thesis by (simp add: nth_append)
    qed
    show ?thesis
    proof (cases "q = p")
      case True
      with c ch [OF q'] have "c \<in> set (children (store ! p)) \<or> c = length store" by auto
      then show ?thesis
      proof
        assume "c \<in> set (children (store ! p))"
        with old [of] True p show ?thesis by simp
      next
        assume "c = length store"
        with True p lp lev D(1) show ?thesis by (simp add: nth_append)
      qed
    next
      case False
      show ?thesis
      proof (cases "q < length store")
        case True
        with False c ch [OF q'] have "c \<in> set (children (store ! q))" by simp
        with old True show ?thesis by simp
      next
        case False
        with \<open>q \<noteq> p\<close> c ch [OF q'] show ?thesis by simp
      qed
    qed
  qed
  have "strict_inv (lv @ [level]) (?store', ?stack')"
    unfolding strict_inv_def fst_conv snd_conv
  proof (intro conjI allI impI ballI)
    show "gen_inv (lv @ [level]) (?store', ?stack')" by (rule A)
    show "consecutive (map snd ?stack')" by (rule B)
    show "(lv @ [level]) ! 0 = 0" by (rule Z)
  next
    fix a assume "a < length (lv @ [level])" "0 < a"
    then show "1 \<le> (lv @ [level]) ! a" by (rule E)
  next
    fix q c assume "q < length ?store'" "c \<in> set (children (?store' ! q))"
    then show "(lv @ [level]) ! c = (lv @ [level]) ! q + 1" by (rule F)
  qed
  with st' show ?thesis by simp
qed

lemma getitem_error: "getitem row_data k = Inl e \<Longrightarrow> e = KeyError"
  by (simp add: getitem_def split: if_splits)

lemma iloc_error: "iloc df i = Inl e \<Longrightarrow> e = IndexError_iloc"
  by (simp add: iloc_def Let_def split: if_splits)

lemma prepare_values_error:
  "prepare_values df start row_data i dates vals = Inl e \<Longrightarrow> e = KeyError"
proof (induction dates arbitrary: i vals)
  case Nil
  then show ?case by simp
next
  case (Cons date dates)
  show ?case
  proof (cases "start - 1 + i < int (shape1 df)")
    case False
    with Cons show ?thesis by simp
  next
    case True
    show ?thesis
    proof (cases "getitem row_data (start - 1 + i)")
      case (Inl e')
      with True Cons.prems have "e = e'" by simp
      with Inl show ?thesis by (simp add: getitem_error)
    next
      case (Inr val)
      with True Cons.prems Cons.IH show ?thesis by simp
    qed
  qed
qed

lemma parse_row_error: "parse_row df sheet_config dates r = Inl e \<Longrightarrow> e \<noteq> IndexError_list"
proof
  assume e: "parse_row df sheet_config dates r = Inl e" and "e = IndexError_list"
  then have *: "parse_row df sheet_config dates r = Inl IndexError_list" by simp
  show False
  proof (cases "iloc df r")
    case (Inl e1)
    with * iloc_error [OF Inl] show False by (simp add: parse_row_def)
  next
    case (Inr row_data)
    show False
    proof (cases "getitem row_data (data_name_column sheet_config - 1)")
      case (Inl e2)
      with * Inr getitem_error [OF Inl] show False by (simp add: parse_row_def)
    next
      case name: (Inr name_cell)
      show False
      proof (cases "prepare_values df (data_start_column sheet_config) row_data 0 dates Map.empty")
        case (Inl e3)
        with * Inr name prepare_values_error [OF Inl] show False
          by (simp add: parse_row_def Let_def split: if_splits prod.splits)
      next
        case vals: (Inr vals)
        with * Inr name show False
          by (simp add: parse_row_def Let_def split: if_splits prod.splits)
      qed
    qed
  qed
qed

lemma parse_row_leaf: "parse_row df sheet_config dates r = Inr (Some node) \<Longrightarrow> children node = []"
proof -
  assume a: "parse_row df sheet_config dates r = Inr (Some node)"
  then obtain name name_is name_en vals where "node = Item name name_is name_en vals []"
    unfolding parse_row_def
    by (simp add: Let_def split: sum.splits if_splits prod.splits) blast
  then show ?thesis by simp
qed

lemma parse_rows_gen:
  "gen_inv lv st \<Longrightarrow> parse_rows df sheet_config dates r levels st = Inr st' \<Longrightarrow>
     gen_inv (lv @ node_levels df sheet_config dates r levels) st'"
proof (induction levels arbitrary: r st lv)
  case Nil
  then show ?case by simp
next
  case (Cons level levels)
  show ?case
  proof (cases "parse_row df sheet_config dates r")
    case (Inl e)
    with Cons.prems show ?thesis by simp
  next
    case (Inr res)
    show ?thesis
    proof (cases res)
      case None
      with Inr Cons show ?thesis by simp
    next
      case (Some node)
      with Inr Cons.prems obtain st1 where st1: "add_node st node level = Inr st1"
        and rest: "parse_rows df sheet_config dates (r + 1) levels st1 = Inr st'"
        by (auto split: sum.splits)
      from Inr Some have leaf: "children node = []" by (simp add: parse_row_leaf)
      obtain store stack where st: "st = (store, stack)" by (cases st)
      from add_node_gen Cons.prems(1) st1 leaf st have "gen_inv (lv @ [level]) st1" by blast
      from Cons.IH [OF this rest] Inr Some show ?thesis by simp
    qed
  qed
qed

lemma parse_rows_strict:
  "strict_inv lv st \<Longrightarrow> no_forward_gaps (last lv) (node_levels df sheet_config dates r levels) \<Longrightarrow>
     parse_rows df sheet_config dates r levels st = Inr st' \<Longrightarrow>
     strict_inv (lv @ node_levels df sheet_config dates r levels) st'"
proof (induction levels arbitrary: r st lv)
  case Nil
  then show ?case by simp
next
  case (Cons level levels)
  show ?case
  proof (cases "parse_row df sheet_config dates r")
    case (Inl e)
    with Cons.prems show ?thesis by simp
  next
    case (Inr res)
    show ?thesis
    proof (cases res)
      case None
      with Inr Cons show ?thesis by simp
    next
      case (Some node)
      with Inr Cons.prems obtain st1 where st1: "add_node st node level = Inr st1"
        and rest: "parse_rows df sheet_config dates (r + 1) levels st1 = Inr st'"
        by (auto split: sum.splits)
      from Inr Some have leaf: "children node = []" by (simp add: parse_row_leaf)
      from Inr Some Cons.prems(2) have gap: "level \<le> last lv + 1"
        and gaps: "no_forward_gaps level (node_levels df sheet_config dates (r + 1) levels)"
        by simp_all
      obtain store stack where st: "st = (store, stack)" by (cases st)
      from add_node_strict Cons.prems(1) st1 gap leaf st have "strict_inv (lv @ [level]) st1" by blast
      moreover from gaps have "no_forward_gaps (last (lv @ [level])) (node_levels df sheet_config dates (r + 1) levels)"
        by simp
      ultimately have "strict_inv ((lv @ [level]) @ node_levels df sheet_config dates (r + 1) levels) st'"
        using rest by (rule Cons.IH)
      with Inr Some show ?thesis by simp
    qed
  qed
qed

lemma parse_rows_no_stack_error:
  "gen_inv lv st \<Longrightarrow> \<forall>level \<in> set levels. 1 \<le> level \<Longrightarrow>
     parse_rows df sheet_config dates r levels st \<noteq> Inl IndexError_list"
proof (induction levels arbitrary: r st lv)
  case Nil
  then show ?case by simp
next
  case (Cons level levels)
  show ?case
  proof (cases "parse_row df sheet_config dates r")
    case (Inl e)
    with parse_row_error [OF Inl] show ?thesis by simp
  next
    case (Inr res)
    show ?thesis
    proof (cases res)
      case None
      with Inr Cons show ?thesis by simp
    next
      case (Some node)
      from Cons.prems(1) have ne: "snd st \<noteq> []" and bot: "last (snd st) = (0, 0)"
        unfolding gen_inv_def by blast+
      from Cons.prems(2) have "snd (last (snd st)) < level" using bot by simp
      from find_parent_sentinel [OF ne this] obtain stack' where
        fp: "find_parent (snd st) level = Inr stack'" by blast
      from find_parent_result [OF fp] obtain p l rest where "stack' = (p, l) # rest" by blast
      with fp obtain st1 where st1: "add_node st node level = Inr st1"
        by (simp add: add_node_def Let_def)
      from Inr Some have leaf: "children node = []" by (simp add: parse_row_leaf)
      obtain store stack where st: "st = (store, stack)" by (cases st)
      from add_node_gen Cons.prems(1) st1 leaf st have "gen_inv (lv @ [level]) st1" by blast
      from Cons.IH [OF this] Cons.prems(2) Inr Some st1 show ?thesis by simp
    qed
  qed
qed

lemma gen_inv_init: "gen_inv [0] ([Section name []], [(0, 0)])"
  unfolding gen_inv_def store_inv_def by simp

lemma strict_inv_init: "strict_inv [0] ([Section name []], [(0, 0)])"
  unfolding strict_inv_def using gen_inv_init [of name] by simp


section \<open>Evaluation of \<^verbatim>\<open>extract_json.py\<close> on concrete sheets\<close>

lemmas json_eval =
  parse_section_def parse_row_def iloc_def iloc2_def shape1_def padded_def frame_row_def
  getitem_def
  add_node_def split_translation_def strip_def isspace_def startswith_def Let_def
  json_dates_def date_label_def upcast_def is_numpy_number_def float_if_numpy_def

lemma scenario_dates: "json_dates scenario_df scenario_config = Inr [''2024-01'', ''2024-02'']"
  by (simp add: json_eval scenario_df_def scenario_config_def upto.simps)

lemma scenario_store:
  "parse_section scenario_df scenario_config [''2024-01'', ''2024-02''] 1 [1, 2, 3, 2, 1] s =
     Inr [Section s [1, 5],
          Item ''A'' ''A'' ''A'' scenario_values [2, 4],
          Item ''B'' ''B'' ''B'' scenario_values [3],
          Item ''C'' ''C'' ''C'' scenario_values [],
          Item ''D'' ''D'' ''D'' scenario_values [],
          Item ''E'' ''E'' ''E'' scenario_values []]"
  by (simp add: json_eval scenario_df_def scenario_config_def scenario_values_def)

lemma scenario_level_zero:
  "parse_section scenario_df scenario_config [''2024-01'', ''2024-02''] 1 [1, 0] s =
     Inl IndexError_list"
  by (simp add: json_eval scenario_df_def scenario_config_def)

section \<open>Evaluation of \<^verbatim>\<open>hierarchy_mapper.py\<close> on the scenario\<close>

lemma str_int_digits:
  "str_int 2 = ''2''" "str_int 3 = ''3''" "str_int 4 = ''4''" "str_int 5 = ''5''" "str_int 6 = ''6''"
  by code_simp+

lemma scenario_nodes:
  "build_section_hierarchy scenario_entries =
     ([\<lparr>node_id = ''row_2'', node_name = ''A'', node_is = ''A'', node_en = [], node_level = 1,
        node_values = scenario_values, node_children = [1, 3]\<rparr>,
       \<lparr>node_id = ''row_3'', node_name = ''B'', node_is = ''B'', node_en = [], node_level = 2,
        node_values = scenario_values, node_children = [2]\<rparr>,
       \<lparr>node_id = ''row_4'', node_name = ''C'', node_is = ''C'', node_en = [], node_level = 3,
        node_values = scenario_values, node_children = []\<rparr>,
       \<lparr>node_id = ''row_5'', node_name = ''D'', node_is = ''D'', node_en = [], node_level = 2,
        node_values = scenario_values, node_children = []\<rparr>,
       \<lparr>node_id = ''row_6'', node_name = ''E'', node_is = ''E'', node_en = [], node_level = 1,
        node_values = scenario_values, node_children = []\<rparr>],
      [0, 4])"
  by (simp add: build_section_hierarchy_def scenario_entries_def make_node_def place_node_def
      str_int_digits upt_conv_Cons)

lemma scenario_forest:
  "forest (build_section_hierarchy scenario_entries) =
     Some [HTree ''row_2'' ''A'' ''A'' [] 1 scenario_values
             [HTree ''row_3'' ''B'' ''B'' [] 2 scenario_values
                [HTree ''row_4'' ''C'' ''C'' [] 3 scenario_values []],
              HTree ''row_5'' ''D'' ''D'' [] 2 scenario_values []],
           HTree ''row_6'' ''E'' ''E'' [] 1 scenario_values []]"
  unfolding scenario_nodes by (simp add: forest_def)

lemma scenario_extract:
  "extract_nested_json scenario_df scenario_config =
     Inr ([''2024-01'', ''2024-02''],
          [Section ''EIGNIR / ASSETS'' [1, 5],
           Item ''A'' ''A'' ''A'' scenario_values [2, 4],
           Item ''B'' ''B'' ''B'' scenario_values [3],
           Item ''C'' ''C'' ''C'' scenario_values [],
           Item ''D'' ''D'' ''D'' scenario_values [],
           Item ''E'' ''E'' ''E'' scenario_values []],
          [Section ''SKULDIR / LIABILITIES'' []])"
proof -
  have a: "assets_row scenario_config - 1 = 1" "assets_hierarchy scenario_config = [1, 2, 3, 2, 1]"
    "liabilities_hierarchy scenario_config = []"
    by (simp_all add: scenario_config_def)
  have l: "parse_section scenario_df scenario_config [''2024-01'', ''2024-02'']
      (liabilities_row scenario_config - 1) [] ''SKULDIR / LIABILITIES''
      = Inr [Section ''SKULDIR / LIABILITIES'' []]"
    by (simp add: parse_section_def)
  show ?thesis
    by (simp only: extract_nested_json_def scenario_dates a scenario_store l sum.case)
qed

lemma scenario_json_tree:
  "json_tree [Section s [1, 5],
           Item ''A'' ''A'' ''A'' scenario_values [2, 4],
           Item ''B'' ''B'' ''B'' scenario_values [3],
           Item ''C'' ''C'' ''C'' scenario_values [],
           Item ''D'' ''D'' ''D'' scenario_values [],
           Item ''E'' ''E'' ''E'' scenario_values []] =
   Some (SectionT s
     [ItemT ''A'' ''A'' ''A'' scenario_values
        [ItemT ''B'' ''B'' ''B'' scenario_values [ItemT ''C'' ''C'' ''C'' scenario_values []],
         ItemT ''D'' ''D'' ''D'' scenario_values []],
      ItemT ''E'' ''E'' ''E'' scenario_values []])"
  by (simp add: json_tree_def eval_nat_numeral)

section \<open>Facts about \<^verbatim>\<open>build_section_hierarchy\<close>\<close>

lemma hm_invD:
  assumes "hm_inv i m nodes root_nodes node_map"
  shows "\<And>k a. node_map k = Some a \<Longrightarrow> a < i"
    and "\<And>k a. node_map k = Some a \<Longrightarrow> a < length nodes"
    and "\<And>k a. node_map k = Some a \<Longrightarrow> node_level (nodes ! a) = k"
    and "\<And>k. (node_map k \<noteq> None) = (1 \<le> k \<and> k \<le> m)"
    and "\<And>r. r \<in> set root_nodes \<Longrightarrow> r < i \<and> r < length nodes \<and> node_level (nodes ! r) = 1"
    and "\<And>p c. p < length nodes \<Longrightarrow> c \<in> set (node_children (nodes ! p)) \<Longrightarrow>
           c < i \<and> c < length nodes \<and> p < c \<and> 1 \<le> node_level (nodes ! p) \<and>
           node_level (nodes ! c) = node_level (nodes ! p) + 1"
  using assms unfolding hm_inv_def by blast+

lemma hm_invI:
  assumes "\<And>k a. node_map k = Some a \<Longrightarrow> a < i \<and> a < length nodes \<and> node_level (nodes ! a) = k"
    and "\<And>k. (node_map k \<noteq> None) = (1 \<le> k \<and> k \<le> m)"
    and "\<And>r. r \<in> set root_nodes \<Longrightarrow> r < i \<and> r < length nodes \<and> node_level (nodes ! r) = 1"
    and "\<And>p c. p < length nodes \<Longrightarrow> c \<in> set (node_children (nodes ! p)) \<Longrightarrow>
           c < i \<and> c < length nodes \<and> p < c \<and> 1 \<le> node_level (nodes ! p) \<and>
           node_level (nodes ! c) = node_level (nodes ! p) + 1"
  shows "hm_inv i m nodes root_nodes node_map"
  unfolding hm_inv_def using assms by blast

text \<open>The three outcomes of one turn of the loop.\<close>

lemma place_node_root:
  "node_level (nodes ! i) = 1 \<Longrightarrow>
     place_node i (nodes, root_nodes, node_map) = (nodes, root_nodes @ [i], [1 \<mapsto> i])"
  by (simp add: place_node_def)

lemma place_node_dropped:
  "node_level (nodes ! i) \<noteq> 1 \<Longrightarrow> node_map (node_level (nodes ! i) - 1) = None \<Longrightarrow>
     place_node i (nodes, root_nodes, node_map) = (nodes, root_nodes, node_map)"
  by (simp add: place_node_def)

lemma place_node_child:
  "node_level (nodes ! i) \<noteq> 1 \<Longrightarrow> node_map (node_level (nodes ! i) - 1) = Some parent \<Longrightarrow>
     place_node i (nodes, root_nodes, node_map) =
       (nodes[parent := (nodes ! parent)\<lparr>node_children := node_children (nodes ! parent) @ [i]\<rparr>],
        root_nodes,
        (\<lambda>k. if k > node_level (nodes ! i) then None
              else (node_map(node_level (nodes ! i) \<mapsto> i)) k))"
  by (simp add: place_node_def)

lemma nth_update_children:
  assumes "parent < length nodes"
  shows "node_children ((nodes[parent := (nodes ! parent)\<lparr>node_children := node_children (nodes ! parent) @ [i]\<rparr>]) ! q)
     = (if q = parent then node_children (nodes ! parent) @ [i] else node_children (nodes ! q))"
    and "node_level ((nodes[parent := (nodes ! parent)\<lparr>node_children := node_children (nodes ! parent) @ [i]\<rparr>]) ! q)
     = node_level (nodes ! q)"
  using assms by (simp_all add: nth_list_update)

lemma place_node_inv:
  assumes inv: "hm_inv i m nodes root_nodes node_map" and i: "i < length nodes"
    and res: "place_node i (nodes, root_nodes, node_map) = (nodes', root_nodes', node_map')"
  shows "\<exists>m'. hm_inv (Suc i) m' nodes' root_nodes' node_map' \<and>
            (1 \<le> node_level (nodes ! i) \<longrightarrow> m' \<le> node_level (nodes ! i))"
proof -
  note I = hm_invD [OF inv]
  let ?L = "node_level (nodes ! i)"
  show ?thesis
  proof (cases "?L = 1")
    case True
    with res have eq: "nodes' = nodes" "root_nodes' = root_nodes @ [i]" "node_map' = [1 \<mapsto> i]"
      by (simp_all add: place_node_root)
    have "hm_inv (Suc i) 1 nodes (root_nodes @ [i]) [1 \<mapsto> i]"
    proof (rule hm_invI)
      fix k :: int and a assume "[1 \<mapsto> i] k = Some a"
      then have "k = 1 \<and> a = i" by (simp split: if_splits)
      with True i show "a < Suc i \<and> a < length nodes \<and> node_level (nodes ! a) = k" by simp
    next
      fix k :: int show "([1 \<mapsto> i] k \<noteq> None) = (1 \<le> k \<and> k \<le> 1)" by auto
    next
      fix r assume "r \<in> set (root_nodes @ [i])"
      then have "r \<in> set root_nodes \<or> r = i" by auto
      then show "r < Suc i \<and> r < length nodes \<and> node_level (nodes ! r) = 1"
        using I(5) True i by (auto simp: less_SucI)
    next
      fix p c assume "p < length nodes" "c \<in> set (node_children (nodes ! p))"
      from I(6) [OF this]
      show "c < Suc i \<and> c < length nodes \<and> p < c \<and> 1 \<le> node_level (nodes ! p) \<and>
           node_level (nodes ! c) = node_level (nodes ! p) + 1" by (simp add: less_SucI)
    qed
    with eq True show ?thesis by auto
  next
    case False
    show ?thesis
    proof (cases "node_map (?L - 1)")
      case None
      with False res have eq: "nodes' = nodes" "root_nodes' = root_nodes" "node_map' = node_map"
        by (simp_all add: place_node_dropped)
      have "hm_inv (Suc i) m nodes root_nodes node_map"
      proof (rule hm_invI)
        fix k a assume "node_map k = Some a"
        with I(1) [OF this] I(2) [OF this] I(3) [OF this]
        show "a < Suc i \<and> a < length nodes \<and> node_level (nodes ! a) = k" by (simp add: less_SucI)
      next
        fix k show "(node_map k \<noteq> None) = (1 \<le> k \<and> k \<le> m)" by (rule I(4))
      next
        fix r assume "r \<in> set root_nodes"
        from I(5) [OF this] show "r < Suc i \<and> r < length nodes \<and> node_level (nodes ! r) = 1"
          by (simp add: less_SucI)
      next
        fix p c assume "p < length nodes" "c \<in> set (node_children (nodes ! p))"
        from I(6) [OF this]
        show "c < Suc i \<and> c < length nodes \<and> p < c \<and> 1 \<le> node_level (nodes ! p) \<and>
           node_level (nodes ! c) = node_level (nodes ! p) + 1" by (simp add: less_SucI)
      qed
      moreover have "m \<le> ?L" if "1 \<le> ?L"
      proof -
        from None I(4) [of "?L - 1"] have "\<not> (1 \<le> ?L - 1 \<and> ?L - 1 \<le> m)" by simp
        with that False show ?thesis by simp
      qed
      ultimately show ?thesis using eq by blast
    next
      case (Some parent)
      let ?nodes' = "nodes[parent := (nodes ! parent)\<lparr>node_children := node_children (nodes ! parent) @ [i]\<rparr>]"
      let ?map' = "\<lambda>k. if k > ?L then None else (node_map(?L \<mapsto> i)) k"
      from Some False res have eq: "nodes' = ?nodes'" "root_nodes' = root_nodes" "node_map' = ?map'"
        by (simp_all add: place_node_child)
      from I(1) [OF Some] I(2) [OF Some] I(3) [OF Some]
      have par: "parent < i" "parent < length nodes" "node_level (nodes ! parent) = ?L - 1" by simp_all
      from Some I(4) [of "?L - 1"] have L: "2 \<le> ?L" "?L - 1 \<le> m" by simp_all
      note U = nth_update_children [OF par(2)]
      have "hm_inv (Suc i) ?L ?nodes' root_nodes ?map'"
      proof (rule hm_invI)
        fix k a assume ka: "?map' k = Some a"
        show "a < Suc i \<and> a < length ?nodes' \<and> node_level (?nodes' ! a) = k"
        proof (cases "k = ?L")
          case True
          with ka have "a = i" by simp
          with True i show ?thesis by (simp add: U)
        next
          case False
          with ka have "node_map k = Some a" by (simp split: if_splits)
          with I(1) [OF this] I(2) [OF this] I(3) [OF this] show ?thesis
            by (simp add: U less_SucI)
        qed
      next
        fix k
        show "(?map' k \<noteq> None) = (1 \<le> k \<and> k \<le> ?L)"
          using I(4) [of k] L by auto
      next
        fix r assume "r \<in> set root_nodes"
        from I(5) [OF this] show "r < Suc i \<and> r < length ?nodes' \<and> node_level (?nodes' ! r) = 1"
          by (simp add: U less_SucI)
      next
        fix p c assume p: "p < length ?nodes'" and c: "c \<in> set (node_children (?nodes' ! p))"
        from p have p': "p < length nodes" by simp
        from c have "c \<in> set (node_children (nodes ! p)) \<or> (p = parent \<and> c = i)"
          by (auto simp: U split: if_splits)
        then show "c < Suc i \<and> c < length ?nodes' \<and> p < c \<and> 1 \<le> node_level (?nodes' ! p) \<and>
           node_level (?nodes' ! c) = node_level (?nodes' ! p) + 1"
        proof
          assume "c \<in> set (node_children (nodes ! p))"
          from I(6) [OF p' this] show ?thesis by (simp add: U less_SucI)
        next
          assume "p = parent \<and> c = i"
          with par i L show ?thesis by (simp add: U)
        qed
      qed
      with eq show ?thesis by auto
    qed
  qed
qed

lemma place_node_cases:
  obtains (root) "node_level (nodes ! i) = 1"
      "place_node i (nodes, root_nodes, node_map) = (nodes, root_nodes @ [i], [1 \<mapsto> i])"
  | (dropped) "node_level (nodes ! i) \<noteq> 1" "node_map (node_level (nodes ! i) - 1) = None"
      "place_node i (nodes, root_nodes, node_map) = (nodes, root_nodes, node_map)"
  | (child) parent where "node_level (nodes ! i) \<noteq> 1"
      "node_map (node_level (nodes ! i) - 1) = Some parent"
      "place_node i (nodes, root_nodes, node_map) =
       (nodes[parent := (nodes ! parent)\<lparr>node_children := node_children (nodes ! parent) @ [i]\<rparr>],
        root_nodes,
        (\<lambda>k. if k > node_level (nodes ! i) then None
              else (node_map(node_level (nodes ! i) \<mapsto> i)) k))"
proof (cases "node_level (nodes ! i) = 1")
  case True
  with root place_node_root show ?thesis by blast
next
  case False
  show ?thesis
  proof (cases "node_map (node_level (nodes ! i) - 1)")
    case None
    with False dropped place_node_dropped show ?thesis by blast
  next
    case (Some parent)
    with False child place_node_child show ?thesis by blast
  qed
qed

lemma update_children_level:
  "node_level ((nodes[parent := (nodes ! parent)\<lparr>node_children := cs\<rparr>]) ! q) = node_level (nodes ! q)"
proof (cases "parent < length nodes")
  case True
  then show ?thesis by (simp add: nth_list_update)
next
  case False
  then have "length nodes \<le> parent" by simp
  then show ?thesis by (simp add: list_update_beyond)
qed

lemma update_children_subset:
  "set (node_children ((nodes[parent := (nodes ! parent)\<lparr>node_children := node_children (nodes ! parent) @ [i]\<rparr>]) ! q))
     \<subseteq> set (node_children (nodes ! q)) \<union> {i}"
proof (cases "parent < length nodes")
  case True
  then show ?thesis by (auto simp: nth_list_update)
next
  case False
  then have "length nodes \<le> parent" by simp
  then show ?thesis by (auto simp: list_update_beyond)
qed

lemma place_node_frame:
  assumes "place_node i (nodes, root_nodes, node_map) = (nodes', root_nodes', node_map')"
  shows "length nodes' = length nodes"
    and "node_level (nodes' ! q) = node_level (nodes ! q)"
    and "set root_nodes' \<subseteq> set root_nodes \<union> {i}"
    and "set (node_children (nodes' ! q)) \<subseteq> set (node_children (nodes ! q)) \<union> {i}"
proof -
  show "length nodes' = length nodes"
    using assms by (cases rule: place_node_cases [of nodes i root_nodes node_map]) auto
  show "node_level (nodes' ! q) = node_level (nodes ! q)"
    using assms by (cases rule: place_node_cases [of nodes i root_nodes node_map])
      (auto simp: update_children_level)
  show "set root_nodes' \<subseteq> set root_nodes \<union> {i}"
    using assms by (cases rule: place_node_cases [of nodes i root_nodes node_map]) auto
  show "set (node_children (nodes' ! q)) \<subseteq> set (node_children (nodes ! q)) \<union> {i}"
  proof (cases rule: place_node_cases [of nodes i root_nodes node_map])
    case root
    with assms show ?thesis by auto
  next
    case dropped
    with assms show ?thesis by auto
  next
    case (child parent)
    with assms have "nodes' = nodes[parent := (nodes ! parent)\<lparr>node_children := node_children (nodes ! parent) @ [i]\<rparr>]"
      by simp
    then show ?thesis using update_children_subset [of nodes parent i q] by simp
  qed
qed

lemma fold_place_node_frame:
  "fold place_node js (nodes, root_nodes, node_map) = (nodes', root_nodes', node_map') \<Longrightarrow>
     length nodes' = length nodes \<and>
     (\<forall>q. node_level (nodes' ! q) = node_level (nodes ! q)) \<and>
     set root_nodes' \<subseteq> set root_nodes \<union> set js \<and>
     (\<forall>q. set (node_children (nodes' ! q)) \<subseteq> set (node_children (nodes ! q)) \<union> set js)"
proof (induction js arbitrary: nodes root_nodes node_map)
  case Nil
  then show ?case by simp
next
  case (Cons j js)
  obtain n1 r1 m1 where step: "place_node j (nodes, root_nodes, node_map) = (n1, r1, m1)"
    by (cases "place_node j (nodes, root_nodes, node_map)") auto
  with Cons.prems have rest: "fold place_node js (n1, r1, m1) = (nodes', root_nodes', node_map')"
    by simp
  note F = place_node_frame [OF step]
  note R = Cons.IH [OF rest]
  have 1: "length nodes' = length nodes" using R F(1) by simp
  have 2: "\<forall>q. node_level (nodes' ! q) = node_level (nodes ! q)" using R F(2) by simp
  have 3: "set root_nodes' \<subseteq> set root_nodes \<union> set (j # js)" using R F(3) by auto
  have 4: "\<forall>q. set (node_children (nodes' ! q)) \<subseteq> set (node_children (nodes ! q)) \<union> set (j # js)"
  proof
    fix q
    from R have "set (node_children (nodes' ! q)) \<subseteq> set (node_children (n1 ! q)) \<union> set js" by blast
    with F(4) [of q] show "set (node_children (nodes' ! q)) \<subseteq> set (node_children (nodes ! q)) \<union> set (j # js)"
      by auto
  qed
  from 1 2 3 4 show ?case by blast
qed

lemma build_loop_inv:
  assumes leaves: "\<forall>q < length nodes0. node_children (nodes0 ! q) = []"
  shows "i \<le> length nodes0 \<Longrightarrow>
     fold place_node [0 ..< i] (nodes0, [], Map.empty) = (nodes, root_nodes, node_map) \<Longrightarrow>
     \<exists>m. hm_inv i m nodes root_nodes node_map \<and>
         (0 < i \<longrightarrow> 1 \<le> node_level (nodes0 ! (i - 1)) \<longrightarrow> m \<le> node_level (nodes0 ! (i - 1)))"
proof (induction i arbitrary: nodes root_nodes node_map)
  case 0
  then have eq: "nodes = nodes0" "root_nodes = []" "node_map = Map.empty" by simp_all
  have "hm_inv 0 0 nodes0 [] Map.empty"
    by (rule hm_invI) (use leaves in auto)
  with eq show ?case by auto
next
  case (Suc i)
  obtain n1 r1 m1 where pre: "fold place_node [0 ..< i] (nodes0, [], Map.empty) = (n1, r1, m1)"
    by (cases "fold place_node [0 ..< i] (nodes0, [], Map.empty)") auto
  with Suc.prems have step: "place_node i (n1, r1, m1) = (nodes, root_nodes, node_map)" by simp
  from Suc.prems have i: "i \<le> length nodes0" "i < length nodes0" by simp_all
  from Suc.IH [OF i(1) pre] obtain m where inv: "hm_inv i m n1 r1 m1" by blast
  from fold_place_node_frame [OF pre] have len: "length n1 = length nodes0"
    and lev: "node_level (n1 ! i) = node_level (nodes0 ! i)" by simp_all
  from i len have "i < length n1" by simp
  from place_node_inv [OF inv this step] lev show ?case by simp
qed

lemma make_node_leaves: "\<forall>q < length (map make_node items). node_children (map make_node items ! q) = []"
  by (simp add: make_node_def)

lemma build_section_hierarchy_run:
  assumes "build_section_hierarchy items = (nodes, root_nodes)"
  obtains node_map where
    "fold place_node [0 ..< length items] (map make_node items, [], Map.empty) = (nodes, root_nodes, node_map)"
  using assms unfolding build_section_hierarchy_def
  by (cases "fold place_node [0 ..< length items] (map make_node items, [], Map.empty)") auto

lemma build_section_hierarchy_inv:
  assumes res: "build_section_hierarchy items = (nodes, root_nodes)"
  shows "length nodes = length items"
    and "\<And>q. q < length items \<Longrightarrow> node_level (nodes ! q) = hierarchy_level (items ! q)"
    and "\<And>r. r \<in> set root_nodes \<Longrightarrow> r < length nodes \<and> node_level (nodes ! r) = 1"
    and "\<And>p c. p < length nodes \<Longrightarrow> c \<in> set (node_children (nodes ! p)) \<Longrightarrow>
           c < length nodes \<and> p < c \<and> 1 \<le> node_level (nodes ! p) \<and>
           node_level (nodes ! c) = node_level (nodes ! p) + 1"
proof -
  from res obtain node_map where run:
    "fold place_node [0 ..< length items] (map make_node items, [], Map.empty) = (nodes, root_nodes, node_map)"
    by (rule build_section_hierarchy_run)
  from fold_place_node_frame [OF run] have len: "length nodes = length items"
    and lev: "\<And>q. node_level (nodes ! q) = node_level (map make_node items ! q)" by simp_all
  from build_loop_inv [OF make_node_leaves _ run] obtain m where
    inv: "hm_inv (length items) m nodes root_nodes node_map" by auto
  note I = hm_invD [OF inv]
  show "length nodes = length items" by (rule len)
  show "node_level (nodes ! q) = hierarchy_level (items ! q)" if "q < length items" for q
    using lev [of q] that by (simp add: make_node_def)
  show "r < length nodes \<and> node_level (nodes ! r) = 1" if "r \<in> set root_nodes" for r
    using I(5) [OF that] by simp
  show "c < length nodes \<and> p < c \<and> 1 \<le> node_level (nodes ! p) \<and>
           node_level (nodes ! c) = node_level (nodes ! p) + 1"
    if "p < length nodes" "c \<in> set (node_children (nodes ! p))" for p c
    using I(6) [OF that] by simp
qed

lemma build_section_hierarchy_jump:
  assumes res: "build_section_hierarchy items = (nodes, root_nodes)"
    and i: "Suc i < length items"
    and prev: "1 \<le> hierarchy_level (items ! i)"
    and jump: "hierarchy_level (items ! i) + 1 < hierarchy_level (items ! Suc i)"
  shows "Suc i \<notin> set root_nodes"
    and "\<And>p. p < length nodes \<Longrightarrow> Suc i \<notin> set (node_children (nodes ! p))"
proof -
  let ?nodes0 = "map make_node items"
  let ?n = "length items"
  from res obtain node_map where run:
    "fold place_node [0 ..< ?n] (?nodes0, [], Map.empty) = (nodes, root_nodes, node_map)"
    by (rule build_section_hierarchy_run)
  from i have split: "[0 ..< ?n] = [0 ..< Suc i] @ Suc i # [Suc (Suc i) ..< ?n]"
    by (metis Suc_lessD le_add2 le_add_same_cancel2 less_imp_le_nat upt_add_eq_append upt_conv_Cons
        ordered_cancel_comm_monoid_diff_class.add_diff_inverse)
  obtain n1 r1 m1 where pre: "fold place_node [0 ..< Suc i] (?nodes0, [], Map.empty) = (n1, r1, m1)"
    by (cases "fold place_node [0 ..< Suc i] (?nodes0, [], Map.empty)") auto
  from i have le: "Suc i \<le> length ?nodes0" by simp
  from build_loop_inv [OF make_node_leaves le pre] i prev obtain m where
    inv: "hm_inv (Suc i) m n1 r1 m1" and m: "m \<le> hierarchy_level (items ! i)"
    by (auto simp: make_node_def)
  note I = hm_invD [OF inv]
  from fold_place_node_frame [OF pre] have len1: "length n1 = ?n"
    and lev1: "\<And>q. node_level (n1 ! q) = node_level (?nodes0 ! q)" by simp_all
  from lev1 [of "Suc i"] i have L: "node_level (n1 ! Suc i) = hierarchy_level (items ! Suc i)"
    by (simp add: make_node_def)
  from L jump prev have ne1: "node_level (n1 ! Suc i) \<noteq> 1" by simp
  from I(4) [of "node_level (n1 ! Suc i) - 1"] L jump m
  have none: "m1 (node_level (n1 ! Suc i) - 1) = None" by simp
  from place_node_dropped [where nodes = n1 and i = "Suc i" and node_map = m1 and root_nodes = r1,
      OF ne1 none]
  have step: "place_node (Suc i) (n1, r1, m1) = (n1, r1, m1)" .
  from run split pre step
  have rest: "fold place_node [Suc (Suc i) ..< ?n] (n1, r1, m1) = (nodes, root_nodes, node_map)"
    by simp
  note R = fold_place_node_frame [OF rest]
  show "Suc i \<notin> set root_nodes"
  proof
    assume "Suc i \<in> set root_nodes"
    with R have "Suc i \<in> set r1 \<or> Suc i \<in> set [Suc (Suc i) ..< ?n]" by blast
    with I(5) [of "Suc i"] show False by auto
  qed
  show "Suc i \<notin> set (node_children (nodes ! p))" if p: "p < length nodes" for p
  proof
    assume a: "Suc i \<in> set (node_children (nodes ! p))"
    with R have "Suc i \<in> set (node_children (n1 ! p)) \<or> Suc i \<in> set [Suc (Suc i) ..< ?n]" by blast
    then have b: "Suc i \<in> set (node_children (n1 ! p))" by auto
    from R p have "p < length n1" by simp
    from I(6) [OF this b] show False by simp
  qed
qed

section \<open>Runs of \<^verbatim>\<open>parse_section\<close>\<close>

lemma parse_section_run:
  assumes "parse_section df sheet_config dates start_row hierarchy_levels section_name = Inr store"
  obtains stack where
    "parse_rows df sheet_config dates start_row hierarchy_levels ([Section section_name []], [(0, 0)])
       = Inr (store, stack)"
proof (cases "parse_rows df sheet_config dates start_row hierarchy_levels ([Section section_name []], [(0, 0)])")
  case (Inl e)
  with assms show ?thesis by (simp add: parse_section_def)
next
  case (Inr st)
  with assms have "fst st = store" by (simp add: parse_section_def)
  with Inr that [of "snd st"] show ?thesis by (cases st) simp
qed

lemma scenario_node_levels:
  "node_levels scenario_df scenario_config [''2024-01'', ''2024-02''] 1 [1, 2, 3, 2, 1] = [1, 2, 3, 2, 1]"
  by (simp add: json_eval scenario_df_def scenario_config_def)

text \<open>Every row that is not skipped gets one dictionary, in row order.\<close>

lemma parse_row_item:
  "parse_row df sheet_config dates r = Inr (Some node) \<Longrightarrow> without_children node = node"
proof -
  assume a: "parse_row df sheet_config dates r = Inr (Some node)"
  then obtain name name_is name_en vals where "node = Item name name_is name_en vals []"
    unfolding parse_row_def
    by (simp add: Let_def split: sum.splits if_splits prod.splits) blast
  then show ?thesis by simp
qed

lemma without_children_append_child: "without_children (append_child n a) = without_children n"
  by (cases n) simp_all

lemma length_node_levels:
  "length (node_levels df sheet_config dates r levels) = length (row_nodes df sheet_config dates r levels)"
proof (induction levels arbitrary: r)
  case Nil
  then show ?case by simp
next
  case (Cons level levels)
  show ?case
  proof (cases "parse_row df sheet_config dates r")
    case (Inl e)
    with Cons show ?thesis by simp
  next
    case (Inr res)
    with Cons show ?thesis by (cases res) simp_all
  qed
qed

lemma parse_rows_nodes:
  "store_inv lv st \<Longrightarrow> parse_rows df sheet_config dates r levels st = Inr st' \<Longrightarrow>
     map without_children (fst st') =
       map without_children (fst st) @ row_nodes df sheet_config dates r levels"
proof (induction levels arbitrary: r st lv)
  case Nil
  then show ?case by simp
next
  case (Cons level levels)
  show ?case
  proof (cases "parse_row df sheet_config dates r")
    case (Inl e)
    with Cons.prems show ?thesis by simp
  next
    case (Inr res)
    show ?thesis
    proof (cases res)
      case None
      with Inr Cons show ?thesis by simp
    next
      case (Some node)
      with Inr Cons.prems obtain st1 where st1: "add_node st node level = Inr st1"
        and rest: "parse_rows df sheet_config dates (r + 1) levels st1 = Inr st'"
        by (auto split: sum.splits)
      from Inr Some have leaf: "children node = []" by (simp add: parse_row_leaf)
      from Inr Some have item: "without_children node = node" by (simp add: parse_row_item)
      obtain store stack where st: "st = (store, stack)" by (cases st)
      from Cons.prems(1) st have inv: "store_inv lv (store, stack)" by simp
      from st1 st have ok: "add_node (store, stack) node level = Inr st1" by simp
      from add_node_store_inv [OF inv ok leaf] have inv1: "store_inv (lv @ [level]) st1" .
      from ok obtain popped p l rest' where stack: "stack = popped @ (p, l) # rest'"
        and st1': "st1 = ((store @ [node])[p := append_child (store ! p) (length store)],
                  (length store, level) # (p, l) # rest')"
        by (rule add_node_Inr)
      have "(p, l) \<in> set stack" using stack by simp
      from store_invD(3) [OF inv this] have p: "p < length store" by simp
      have "map without_children (fst st1) =
          (map without_children (store @ [node]))[p := without_children (store ! p)]"
        using st1' by (simp add: map_update without_children_append_child)
      also have "\<dots> = map without_children (store @ [node])"
        using p by (simp add: list_update_append1 list_update_same_conv)
      finally have one: "map without_children (fst st1) = map without_children store @ [node]"
        using item by simp
      from Cons.IH [OF inv1 rest] one st Inr Some show ?thesis by simp
    qed
  qed
qed

lemma parse_section_nodes:
  assumes "parse_section df sheet_config dates start_row hierarchy_levels section_name = Inr store"
  shows "map without_children store =
     Section section_name [] # row_nodes df sheet_config dates start_row hierarchy_levels"
proof -
  from assms obtain stack where run:
    "parse_rows df sheet_config dates start_row hierarchy_levels ([Section section_name []], [(0, 0)])
       = Inr (store, stack)"
    by (rule parse_section_run)
  have "store_inv [0] ([Section section_name []], [(0, 0)])"
    using gen_inv_init [of section_name] by (rule gen_invD(1))
  from parse_rows_nodes [OF this run] show ?thesis by simp
qed
section \<open>A forward gap in the levels\<close>

lemma jump_nodes:
  "build_section_hierarchy jump_entries =
     ([\<lparr>node_id = ''row_2'', node_name = ''A'', node_is = ''A'', node_en = [], node_level = 1,
        node_values = scenario_values, node_children = []\<rparr>,
       \<lparr>node_id = ''row_3'', node_name = ''B'', node_is = ''B'', node_en = [], node_level = 3,
        node_values = scenario_values, node_children = []\<rparr>],
      [0])"
  by (simp add: build_section_hierarchy_def jump_entries_def make_node_def place_node_def
      str_int_digits upt_conv_Cons)

lemma jump_store:
  "parse_section scenario_df scenario_config [''2024-01'', ''2024-02''] 1 [1, 3] s =
     Inr [Section s [1],
          Item ''A'' ''A'' ''A'' scenario_values [2],
          Item ''B'' ''B'' ''B'' scenario_values []]"
  by (simp add: json_eval scenario_df_def scenario_config_def scenario_values_def)

lemma jump_node_levels:
  "node_levels scenario_df scenario_config [''2024-01'', ''2024-02''] 1 [1, 3] = [1, 3]"
  by (simp add: json_eval scenario_df_def scenario_config_def)

lemma direct_parent_jump:
  "l1 + 1 < l2 \<Longrightarrow>
     direct_parent (record_parent (record_parent current_parents l1 c1) l2 c2) l2 = CNone"
  by (simp add: direct_parent_def record_parent_def)

lemma jump_row_nodes:
  "row_nodes scenario_df scenario_config [''2024-01'', ''2024-02''] 1 [1, 3] =
     [Item ''A'' ''A'' ''A'' scenario_values [], Item ''B'' ''B'' ''B'' scenario_values []]"
  by (simp add: json_eval scenario_df_def scenario_config_def scenario_values_def)

section \<open>The values of a row\<close>



lemma ex_nth_Cons:
  "(\<exists>i < Suc n. (x # xs) ! i = d \<and> P i) \<longleftrightarrow> (x = d \<and> P 0) \<or> (\<exists>j < n. xs ! j = d \<and> P (Suc j))"
proof
  assume "\<exists>i < Suc n. (x # xs) ! i = d \<and> P i"
  then obtain i where i: "i < Suc n" "(x # xs) ! i = d" "P i" by blast
  show "(x = d \<and> P 0) \<or> (\<exists>j < n. xs ! j = d \<and> P (Suc j))"
  proof (cases i)
    case 0
    with i show ?thesis by simp
  next
    case (Suc j)
    with i have "j < n \<and> xs ! j = d \<and> P (Suc j)" by simp
    then show ?thesis by blast
  qed
next
  assume "(x = d \<and> P 0) \<or> (\<exists>j < n. xs ! j = d \<and> P (Suc j))"
  then show "\<exists>i < Suc n. (x # xs) ! i = d \<and> P i"
  proof
    assume "x = d \<and> P 0"
    then have "0 < Suc n \<and> (x # xs) ! 0 = d \<and> P 0" by simp
    then show ?thesis by blast
  next
    assume "\<exists>j < n. xs ! j = d \<and> P (Suc j)"
    then obtain j where "j < n" "xs ! j = d" "P (Suc j)" by blast
    then have "Suc j < Suc n \<and> (x # xs) ! Suc j = d \<and> P (Suc j)" by simp
    then show ?thesis by blast
  qed
qed


text \<open>
  \<^verbatim>\<open>hierarchy_mapper.py\<close>: the keys are the dates paired with a number, and a value
  is the cell of one of the columns paired with its date.
\<close>

lemma row_values_keys:
  assumes "1 \<le> row_index"
  shows "1 \<le> col \<Longrightarrow>
     \<exists>vals'. row_values ws row_index col dates vals = Inr vals' \<and>
       (\<forall>d. (d \<in> dom vals' \<longleftrightarrow>
          d \<in> dom vals \<or>
          (\<exists>i < length dates. dates ! i = d \<and>
             is_int_or_float (cell_value ws row_index (col + int i)))) \<and>
          (\<forall>v. vals' d = Some v \<longrightarrow>
             vals d = Some v \<or>
             (\<exists>i < length dates. dates ! i = d \<and> v = cell_value ws row_index (col + int i))))"
proof (induction dates arbitrary: col vals)
  case Nil
  then show ?case by simp
next
  case (Cons d0 ds)
  let ?v = "cell_value ws row_index col"
  let ?vals1 = "if ?v \<noteq> CNone \<and> is_int_or_float ?v then vals(d0 \<mapsto> ?v) else vals"
  from Cons.prems assms have cell: "ws_cell ws row_index col = Inr ?v" by (simp add: ws_cell_def)
  from Cons.prems have "1 \<le> col + 1" by simp
  from Cons.IH [OF this, of ?vals1] obtain vals' where
    run: "row_values ws row_index (col + 1) ds ?vals1 = Inr vals'"
    and all: "\<forall>d. (d \<in> dom vals' \<longleftrightarrow> d \<in> dom ?vals1 \<or>
          (\<exists>i < length ds. ds ! i = d \<and> is_int_or_float (cell_value ws row_index (col + 1 + int i))))
       \<and> (\<forall>v. vals' d = Some v \<longrightarrow> ?vals1 d = Some v \<or>
          (\<exists>i < length ds. ds ! i = d \<and> v = cell_value ws row_index (col + 1 + int i)))"
    by (elim exE conjE)
  from all have keys: "\<And>d. d \<in> dom vals' \<longleftrightarrow> d \<in> dom ?vals1 \<or>
          (\<exists>i < length ds. ds ! i = d \<and> is_int_or_float (cell_value ws row_index (col + 1 + int i)))"
    by blast
  from all have prov: "\<And>d v. vals' d = Some v \<Longrightarrow> ?vals1 d = Some v \<or>
          (\<exists>i < length ds. ds ! i = d \<and> v = cell_value ws row_index (col + 1 + int i))"
    by blast
  from cell run have r: "row_values ws row_index col (d0 # ds) vals = Inr vals'" by simp
  have num: "?v \<noteq> CNone \<and> is_int_or_float ?v \<longleftrightarrow> is_int_or_float ?v" by (cases ?v) simp_all
  have k: "d \<in> dom vals' \<longleftrightarrow> d \<in> dom vals \<or>
          (\<exists>i < length (d0 # ds). (d0 # ds) ! i = d \<and>
             is_int_or_float (cell_value ws row_index (col + int i)))" for d
  proof -
    have "d \<in> dom ?vals1 \<longleftrightarrow> d \<in> dom vals \<or> (d0 = d \<and> is_int_or_float ?v)"
      using num by auto
    moreover have "(\<exists>i < length (d0 # ds). (d0 # ds) ! i = d \<and>
             is_int_or_float (cell_value ws row_index (col + int i))) \<longleftrightarrow>
         (d0 = d \<and> is_int_or_float ?v) \<or>
         (\<exists>j < length ds. ds ! j = d \<and> is_int_or_float (cell_value ws row_index (col + 1 + int j)))"
      using ex_nth_Cons [of "length ds" d0 ds d "\<lambda>i. is_int_or_float (cell_value ws row_index (col + int i))"]
      by (simp add: algebra_simps)
    ultimately show ?thesis using keys [of d] by blast
  qed
  have p: "vals d = Some v \<or>
          (\<exists>i < length (d0 # ds). (d0 # ds) ! i = d \<and> v = cell_value ws row_index (col + int i))"
    if v: "vals' d = Some v" for d v
  proof -
    have split: "(\<exists>i < length (d0 # ds). (d0 # ds) ! i = d \<and> v = cell_value ws row_index (col + int i)) \<longleftrightarrow>
         (d0 = d \<and> v = ?v) \<or>
         (\<exists>j < length ds. ds ! j = d \<and> v = cell_value ws row_index (col + 1 + int j))"
      using ex_nth_Cons [of "length ds" d0 ds d "\<lambda>i. v = cell_value ws row_index (col + int i)"]
      by (simp add: algebra_simps)
    from prov [OF v] show ?thesis
    proof
      assume "?vals1 d = Some v"
      then have "vals d = Some v \<or> (d0 = d \<and> v = ?v)" by (auto split: if_splits)
      with split show ?thesis by blast
    next
      assume "\<exists>i < length ds. ds ! i = d \<and> v = cell_value ws row_index (col + 1 + int i)"
      with split show ?thesis by blast
    qed
  qed
  show ?case
  proof (intro exI conjI allI impI)
    show "row_values ws row_index col (d0 # ds) vals = Inr vals'" by (rule r)
  next
    fix d show "d \<in> dom vals' \<longleftrightarrow> d \<in> dom vals \<or>
          (\<exists>i < length (d0 # ds). (d0 # ds) ! i = d \<and>
             is_int_or_float (cell_value ws row_index (col + int i)))" by (rule k)
  next
    fix d v assume "vals' d = Some v"
    then show "vals d = Some v \<or>
          (\<exists>i < length (d0 # ds). (d0 # ds) ! i = d \<and> v = cell_value ws row_index (col + int i))"
      by (rule p)
  qed
qed


text \<open>
  \<^verbatim>\<open>extract_json.py\<close>: the keys are the dates paired with a cell of the frame that
  is not \<^verbatim>\<open>NaN\<close>, and a value is the cell of one of the columns paired with its
  date, as a float when it is a number of a column of numbers.
\<close>

lemma prepare_values_keys:
  assumes len: "length row_data = shape1 df"
  shows "0 \<le> start - 1 + i \<Longrightarrow>
     \<exists>vals'. prepare_values df start row_data i dates vals = Inr vals' \<and>
       (\<forall>d. (d \<in> dom vals' \<longleftrightarrow>
          d \<in> dom vals \<or>
          (\<exists>j < length dates. dates ! j = d \<and> start - 1 + i + int j < int (shape1 df) \<and>
             notna (row_data ! nat (start - 1 + i + int j)))) \<and>
          (\<forall>v. vals' d = Some v \<longrightarrow>
             vals d = Some v \<or>
             (\<exists>j < length dates. dates ! j = d \<and>
                v = float_if_numpy df (start - 1 + i + int j)
                      (row_data ! nat (start - 1 + i + int j)))))"
proof (induction dates arbitrary: i vals)
  case Nil
  then show ?case by simp
next
  case (Cons d0 ds)
  let ?w = "shape1 df"
  let ?c = "start - 1 + i"
  let ?v = "row_data ! nat ?c"
  let ?s = "\<lambda>k. float_if_numpy df k (row_data ! nat k)"
  let ?vals1 = "if ?c < int ?w \<and> notna ?v then vals(d0 \<mapsto> ?s ?c) else vals"
  from Cons.prems have "0 \<le> start - 1 + (i + 1)" by simp
  from Cons.IH [OF this, of ?vals1] obtain vals' where
    run: "prepare_values df start row_data (i + 1) ds ?vals1 = Inr vals'"
    and all: "\<forall>d. (d \<in> dom vals' \<longleftrightarrow> d \<in> dom ?vals1 \<or>
          (\<exists>j < length ds. ds ! j = d \<and> start - 1 + (i + 1) + int j < int ?w \<and>
             notna (row_data ! nat (start - 1 + (i + 1) + int j))))
       \<and> (\<forall>v. vals' d = Some v \<longrightarrow> ?vals1 d = Some v \<or>
          (\<exists>j < length ds. ds ! j = d \<and> v = ?s (start - 1 + (i + 1) + int j)))"
    by (elim exE conjE)
  from all have keys: "\<And>d. d \<in> dom vals' \<longleftrightarrow> d \<in> dom ?vals1 \<or>
          (\<exists>j < length ds. ds ! j = d \<and> start - 1 + (i + 1) + int j < int ?w \<and>
             notna (row_data ! nat (start - 1 + (i + 1) + int j)))"
    by blast
  from all have prov: "\<And>d v. vals' d = Some v \<Longrightarrow> ?vals1 d = Some v \<or>
          (\<exists>j < length ds. ds ! j = d \<and> v = ?s (start - 1 + (i + 1) + int j))"
    by blast
  have r: "prepare_values df start row_data i (d0 # ds) vals = Inr vals'"
  proof (cases "?c < int ?w")
    case True
    with Cons.prems len have "getitem row_data ?c = Inr ?v" by (simp add: getitem_def)
    with True run show ?thesis by (simp add: Let_def)
  next
    case False
    with run show ?thesis by (simp add: Let_def)
  qed
  have k: "d \<in> dom vals' \<longleftrightarrow> d \<in> dom vals \<or>
          (\<exists>j < length (d0 # ds). (d0 # ds) ! j = d \<and> start - 1 + i + int j < int ?w \<and>
             notna (row_data ! nat (start - 1 + i + int j)))" for d
  proof -
    have "d \<in> dom ?vals1 \<longleftrightarrow> d \<in> dom vals \<or> (d0 = d \<and> ?c < int ?w \<and> notna ?v)"
      by auto
    moreover have "(\<exists>j < length (d0 # ds). (d0 # ds) ! j = d \<and> start - 1 + i + int j < int ?w \<and>
             notna (row_data ! nat (start - 1 + i + int j))) \<longleftrightarrow>
         (d0 = d \<and> ?c < int ?w \<and> notna ?v) \<or>
         (\<exists>j < length ds. ds ! j = d \<and> start - 1 + (i + 1) + int j < int ?w \<and>
             notna (row_data ! nat (start - 1 + (i + 1) + int j)))"
      using ex_nth_Cons [of "length ds" d0 ds d "\<lambda>j. start - 1 + i + int j < int ?w \<and>
             notna (row_data ! nat (start - 1 + i + int j))"]
      by (simp add: algebra_simps)
    ultimately show ?thesis using keys [of d] by blast
  qed
  have p: "vals d = Some v \<or>
          (\<exists>j < length (d0 # ds). (d0 # ds) ! j = d \<and> v = ?s (start - 1 + i + int j))"
    if v: "vals' d = Some v" for d v
  proof -
    have split: "(\<exists>j < length (d0 # ds). (d0 # ds) ! j = d \<and> v = ?s (start - 1 + i + int j)) \<longleftrightarrow>
         (d0 = d \<and> v = ?s ?c) \<or>
         (\<exists>j < length ds. ds ! j = d \<and> v = ?s (start - 1 + (i + 1) + int j))"
      using ex_nth_Cons [of "length ds" d0 ds d "\<lambda>j. v = ?s (start - 1 + i + int j)"]
      by (simp add: algebra_simps)
    from prov [OF v] show ?thesis
    proof
      assume "?vals1 d = Some v"
      then have "vals d = Some v \<or> (d0 = d \<and> v = ?s ?c)" by (auto split: if_splits)
      with split show ?thesis by blast
    next
      assume "\<exists>j < length ds. ds ! j = d \<and> v = ?s (start - 1 + (i + 1) + int j)"
      with split show ?thesis by blast
    qed
  qed
  show ?case
  proof (intro exI conjI allI impI)
    show "prepare_values df start row_data i (d0 # ds) vals = Inr vals'" by (rule r)
  next
    fix d show "d \<in> dom vals' \<longleftrightarrow> d \<in> dom vals \<or>
          (\<exists>j < length (d0 # ds). (d0 # ds) ! j = d \<and> start - 1 + i + int j < int ?w \<and>
             notna (row_data ! nat (start - 1 + i + int j)))" by (rule k)
  next
    fix d v assume "vals' d = Some v"
    then show "vals d = Some v \<or>
          (\<exists>j < length (d0 # ds). (d0 # ds) ! j = d \<and> v = ?s (start - 1 + i + int j))"
      by (rule p)
  qed
qed

section \<open>Facts about the period axis\<close>

lemma header_dates_map_filter:
  assumes "1 \<le> date_row1"
  shows "\<forall>c \<in> set cols. 1 \<le> c \<Longrightarrow>
     header_dates to_datetime ws date_row1 cols =
       Inr (List.map_filter (\<lambda>c. parse_date to_datetime (cell_value ws date_row1 c)) cols)"
proof (induction cols)
  case Nil
  then show ?case by (simp add: List.map_filter_simps)
next
  case (Cons col cols)
  from Cons.prems assms have "ws_cell ws date_row1 col = Inr (cell_value ws date_row1 col)"
    by (simp add: ws_cell_def)
  moreover from Cons have "header_dates to_datetime ws date_row1 cols =
       Inr (List.map_filter (\<lambda>c. parse_date to_datetime (cell_value ws date_row1 c)) cols)"
    by simp
  ultimately show ?case
    by (cases "parse_date to_datetime (cell_value ws date_row1 col)")
      (simp_all add: List.map_filter_simps)
qed


lemma length_frame_row: "length (frame_row df j) = shape1 df"
  by (simp add: frame_row_def padded_def)

lemma iloc_length: "iloc df i = Inr row_data \<Longrightarrow> length row_data = shape1 df"
  by (auto simp: iloc_def Let_def length_frame_row split: if_splits)

lemma json_dates_loop_filter:
  assumes "0 \<le> r" "r < int (length (table df))"
  shows "\<forall>c \<in> set cols. 0 \<le> c \<and> c < int (shape1 df) \<Longrightarrow>
     json_dates_loop df r cols =
       Inr (map date_label (filter notna (map (\<lambda>c. frame_row df (nat r) ! nat c) cols)))"
proof (induction cols)
  case Nil
  then show ?case by simp
next
  case (Cons col cols)
  from Cons.prems assms have "iloc2 df r col = Inr (frame_row df (nat r) ! nat col)"
    by (simp add: iloc2_def Let_def)
  moreover from Cons have "json_dates_loop df r cols =
       Inr (map date_label (filter notna (map (\<lambda>c. frame_row df (nat r) ! nat c) cols)))"
    by simp
  ultimately show ?case by simp
qed

section \<open>Evaluation on the concrete sheets\<close>

lemma labels:
  "strftime jan_31 = ''2024-01-31''" "strftime feb_29 = ''2024-02-29''"
  "strftime (DateTime 2024 (Suc 0) 31 0 0 0 0) = ''2024-01-31''"
  "str_int 2023 = ''2023''" "str_int 2024 = ''2024''"
  "float_str (PyFloat False 2024 0) = ''2024.0''"
  by code_simp+

lemma floats:
  "float_of_int 12 = PyFloat False 12 0" "float_of_int 25 = PyFloat False 25 0"
  "float_of_int 3 = PyFloat False 3 0" "float_of_int 7 = PyFloat False 7 0"
  by code_simp+

lemma shift_extract_dates:
  "extract_dates no_parse shift_ws row_config = Inr [''2024-01-31'', ''2024-02-29'']"
  by (simp add: extract_dates_def shift_ws_def row_config_def ws_cell_def upto.simps
      parse_date_def no_parse_def labels)

lemma shift_row_values:
  "row_values shift_ws 2 2 [''2024-01-31'', ''2024-02-29''] Map.empty =
     Inr [''2024-01-31'' \<mapsto> CNum 10, ''2024-02-29'' \<mapsto> CNum 99]"
  by (simp add: shift_ws_def ws_cell_def)

lemma shift_json_dates:
  "json_dates shift_df row_config = Inr [''2024-01-31'', ''Total'', ''2024-02-29'']"
  by (simp add: json_eval shift_df_def row_config_def upto.simps labels)

lemma gap_json_dates:
  "json_dates gap_df row_config = Inr [''2024-01-31'', ''2024-02-29'']"
  by (simp add: json_eval gap_df_def row_config_def upto.simps labels)

lemma missing_hierarchy:
  "extract_hierarchy_data no_parse missing_ws row_config =
     Inr ([''2024-01-31'', ''2024-02-29''],
          ([\<lparr>node_id = ''row_2'', node_name = ''A'', node_is = ''A'', node_en = [], node_level = 1,
             node_values = [''2024-01-31'' \<mapsto> CNum 10], node_children = []\<rparr>], [0]),
          ([], []))"
  by (simp add: extract_hierarchy_data_def extract_dates_def missing_ws_def row_config_def
      ws_cell_def upto.simps parse_date_def no_parse_def labels strip_def isspace_def
      split_name_def startswith_def build_section_hierarchy_def make_node_def place_node_def
      str_int_digits)

lemma missing_json:
  "extract_nested_json missing_df row_config =
     Inr ([''2024-01'', ''2024-02''],
          [Section ''EIGNIR / ASSETS'' [1], Item ''A'' ''A'' ''A'' [''2024-01'' \<mapsto> CNum 10] []],
          [Section ''SKULDIR / LIABILITIES'' []])"
  by (simp add: extract_nested_json_def json_eval missing_df_def row_config_def upto.simps)

lemma text_json:
  "extract_nested_json text_df row_config =
     Inr ([''2024-01'', ''2024-02''],
          [Section ''EIGNIR / ASSETS'' [1],
           Item ''A'' ''A'' ''A'' [''2024-01'' \<mapsto> CNum 10, ''2024-02'' \<mapsto> CStr ''see note''] []],
          [Section ''SKULDIR / LIABILITIES'' []])"
  by (simp add: extract_nested_json_def json_eval text_df_def row_config_def upto.simps)

lemma text_iloc: "iloc text_df 1 = Inr [CStr ''A'', CNum 10, CStr ''see note'']"
  by (simp add: json_eval text_df_def)

lemma missing_row_values:
  "row_values missing_ws 2 2 [''2024-01-31'', ''2024-02-29''] Map.empty =
     Inr [''2024-01-31'' \<mapsto> CNum 10]"
  by (simp add: missing_ws_def ws_cell_def)

lemma text_prepare_values:
  "prepare_values text_df 2 [CStr ''A'', CNum 10, CStr ''see note''] 0 [''2024-01'', ''2024-02'']
     Map.empty = Inr [''2024-01'' \<mapsto> CNum 10, ''2024-02'' \<mapsto> CStr ''see note'']"
  by (simp add: json_eval text_df_def)

lemma gap_json:
  "extract_nested_json gap_df row_config =
     Inr ([''2024-01-31'', ''2024-02-29''],
          [Section ''EIGNIR / ASSETS'' [1],
           Item ''A'' ''A'' ''A''
             [''2024-01-31'' \<mapsto> CNum 10, ''2024-02-29'' \<mapsto> CFloat (PyFloat False 99 0)] []],
          [Section ''SKULDIR / LIABILITIES'' []])"
proof -
  have "parse_section gap_df row_config [''2024-01-31'', ''2024-02-29''] 1 [1] ''EIGNIR / ASSETS'' =
      Inr [Section ''EIGNIR / ASSETS'' [1],
           Item ''A'' ''A'' ''A''
             [''2024-01-31'' \<mapsto> CNum 10, ''2024-02-29'' \<mapsto> CFloat (PyFloat False 99 0)] []]"
    by (simp add: json_eval gap_df_def row_config_def)
  moreover have "parse_section gap_df row_config [''2024-01-31'', ''2024-02-29'']
      (liabilities_row row_config - 1) [] ''SKULDIR / LIABILITIES''
      = Inr [Section ''SKULDIR / LIABILITIES'' []]"
    by (simp add: parse_section_def)
  moreover have "assets_row row_config - 1 = 1" "assets_hierarchy row_config = [1]"
    "liabilities_hierarchy row_config = []"
    by (simp_all add: row_config_def)
  ultimately show ?thesis
    by (simp only: extract_nested_json_def gap_json_dates sum.case)
qed

lemma gap_iloc:
  "iloc gap_df 1 = Inr [CStr ''A'', CNum 10, CFloat (PyFloat False 99 0), CNum 20]"
  by (simp add: json_eval gap_df_def)

lemma gap_prepare_values:
  "prepare_values gap_df 2 [CStr ''A'', CNum 10, CFloat (PyFloat False 99 0), CNum 20] 0
     [''2024-01-31'', ''2024-02-29''] Map.empty =
   Inr [''2024-01-31'' \<mapsto> CNum 10, ''2024-02-29'' \<mapsto> CFloat (PyFloat False 99 0)]"
  by (simp add: json_eval gap_df_def)

section \<open>Facts about the flat view\<close>

lemma length_infer_column: "length (infer_column cs) = length cs"
  by (simp add: infer_column_def)

lemma infer_column_nth: "i < length cs \<Longrightarrow> same_number (cs ! i) (infer_column cs ! i)"
  by (simp add: infer_column_def same_number_def)

lemma length_data_frame: "length (data_frame rows) = length rows"
  by (simp add: data_frame_def length_infer_column)

lemma data_frame_nth:
  assumes "i < length rows"
  shows "data_frame rows ! i =
     (rows ! i)\<lparr>row_name := infer_column (map row_name rows) ! i,
       row_name_is := infer_column (map row_name_is rows) ! i,
       row_parent := infer_column (map row_parent rows) ! i,
       row_parent_is := infer_column (map row_parent_is rows) ! i,
       row_value := infer_column (map row_value rows) ! i\<rparr>"
  using assms by (simp add: data_frame_def length_infer_column)

lemma data_frame_same: "list_all2 same_row rows (data_frame rows)"
proof (rule list_all2_all_nthI)
  show "length rows = length (data_frame rows)" by (simp add: length_data_frame)
next
  fix i assume i: "i < length rows"
  have "same_number (map f rows ! i) (infer_column (map f rows) ! i)" for f :: "flat_row \<Rightarrow> cell"
    using i by (intro infer_column_nth) simp
  then have "same_number (f (rows ! i)) (infer_column (map f rows) ! i)" for f :: "flat_row \<Rightarrow> cell"
    using i by (metis nth_map)
  then show "same_row (rows ! i) (data_frame rows ! i)"
    unfolding data_frame_nth [OF i] same_row_def by simp
qed

lemma sort_values_Inr:
  assumes "sort_values rows = Inr df"
  shows "df = sort_key sort_tuple rows" and "mset df = mset rows" and "sorted (map sort_tuple df)"
    and "rows \<noteq> []"
proof -
  from assms show 1: "df = sort_key sort_tuple rows" and "rows \<noteq> []"
    by (auto simp: sort_values_def split: if_splits)
  from 1 show "mset df = mset rows" by simp
  from 1 show "sorted (map sort_tuple df)" by simp
qed

lemma value_rows_eq:
  assumes "1 \<le> row_index"
  shows "1 \<le> col \<Longrightarrow>
     value_rows ws row_index col dates mk =
       Inr (map (\<lambda>(d, v). mk d v)
              (filter (\<lambda>(d, v). is_int_or_float v)
                 (zip dates (map (\<lambda>i. cell_value ws row_index (col + int i)) [0 ..< length dates]))))"
proof (induction dates arbitrary: col)
  case Nil
  then show ?case by simp
next
  case (Cons d ds)
  let ?v = "cell_value ws row_index col"
  from Cons.prems assms have cell: "ws_cell ws row_index col = Inr ?v" by (simp add: ws_cell_def)
  from Cons.prems have "1 \<le> col + 1" by simp
  from Cons.IH [OF this] have rest: "value_rows ws row_index (col + 1) ds mk =
       Inr (map (\<lambda>(d, v). mk d v)
              (filter (\<lambda>(d, v). is_int_or_float v)
                 (zip ds (map (\<lambda>i. cell_value ws row_index (col + 1 + int i)) [0 ..< length ds]))))" .
  have idx: "map (\<lambda>i. cell_value ws row_index (col + int i)) [0 ..< length (d # ds)] =
      ?v # map (\<lambda>i. cell_value ws row_index (col + 1 + int i)) [0 ..< length ds]"
  proof -
    have "[0 ..< Suc (length ds)] = 0 # [Suc 0 ..< Suc (length ds)]"
      by (rule upt_conv_Cons) simp
    moreover have "[Suc 0 ..< Suc (length ds)] = map Suc [0 ..< length ds]"
      by (simp only: map_Suc_upt)
    ultimately have "[0 ..< length (d # ds)] = 0 # map Suc [0 ..< length ds]" by simp
    then show ?thesis by (simp add: comp_def algebra_simps)
  qed
  have num: "?v \<noteq> CNone \<and> is_int_or_float ?v \<longleftrightarrow> is_int_or_float ?v" by (cases ?v) simp_all
  show ?case unfolding idx using cell rest num by simp
qed

lemma section_rows_append:
  "section_rows ws banking_config dates ty row_index (levels1 @ levels2) current_parents = Inr rows \<Longrightarrow>
     \<exists>a b current_parents'.
       section_rows ws banking_config dates ty row_index levels1 current_parents = Inr a \<and>
       section_rows ws banking_config dates ty (row_index + int (length levels1)) levels2
         current_parents' = Inr b \<and>
       rows = a @ b"
proof (induction levels1 arbitrary: row_index current_parents rows)
  case Nil
  then show ?case by auto
next
  case (Cons level levels1)
  show ?case
  proof (cases "ws_cell ws row_index (data_name_column banking_config)")
    case (Inl e)
    with Cons.prems show ?thesis by simp
  next
    case (Inr c)
    show ?thesis
    proof (cases "c = CNone")
      case True
      with Inr Cons.prems have "section_rows ws banking_config dates ty (row_index + 1)
          (levels1 @ levels2) current_parents = Inr rows" by simp
      from Cons.IH [OF this] obtain a b cp' where
        "section_rows ws banking_config dates ty (row_index + 1) levels1 current_parents = Inr a"
        "section_rows ws banking_config dates ty (row_index + 1 + int (length levels1)) levels2 cp' = Inr b"
        "rows = a @ b" by blast
      with Inr True have "section_rows ws banking_config dates ty row_index (level # levels1) current_parents = Inr a \<and>
        section_rows ws banking_config dates ty (row_index + int (length (level # levels1))) levels2 cp' = Inr b \<and>
        rows = a @ b" by (simp add: algebra_simps)
      then show ?thesis by blast
    next
      case False
      let ?cp = "record_parent current_parents level c"
      let ?vr = "value_rows ws row_index (data_start_column banking_config) dates
                    (make_row c ty (direct_parent ?cp level) level)"
      show ?thesis
      proof (cases ?vr)
        case vl: (Inl e)
        with Inr False Cons.prems show ?thesis by simp
      next
        case vr: (Inr these)
        show ?thesis
        proof (cases "section_rows ws banking_config dates ty (row_index + 1) (levels1 @ levels2) ?cp")
          case sl: (Inl e)
          with Inr False vr Cons.prems show ?thesis by simp
        next
          case sr: (Inr later)
          with Inr False vr Cons.prems have rows: "rows = these @ later" by simp
          from Cons.IH [OF sr] obtain a b cp' where
            a: "section_rows ws banking_config dates ty (row_index + 1) levels1 ?cp = Inr a"
            and b: "section_rows ws banking_config dates ty (row_index + 1 + int (length levels1)) levels2 cp' = Inr b"
            and l: "later = a @ b" by blast
          from Inr False vr a have "section_rows ws banking_config dates ty row_index (level # levels1) current_parents
              = Inr (these @ a)" by simp
          moreover from b have "section_rows ws banking_config dates ty
              (row_index + int (length (level # levels1))) levels2 cp' = Inr b"
            by (simp add: algebra_simps)
          moreover from rows l have "rows = (these @ a) @ b" by simp
          ultimately show ?thesis by blast
        qed
      qed
    qed
  qed
qed

lemmas flat_eval =
  all_data_def extract_stamps_def ws_cell_def upto.simps parse_stamp_def no_parse_def
  make_row_def direct_parent_def record_parent_def split_cell_def startswith_def

lemma order_all_data:
  "all_data no_parse order_ws order_config = Inr [order_row_B, order_row_A]"
  by (simp add: flat_eval order_ws_def order_config_def order_row_A_def order_row_B_def)

lemma order_data_frame: "data_frame [order_row_B, order_row_A] = [order_row_B, order_row_A]"
  by (simp add: data_frame_def infer_column_def order_row_A_def order_row_B_def)

lemma order_sorted:
  "sort_values [order_row_B, order_row_A] = Inr [order_row_A, order_row_B]"
  by (simp add: sort_values_def sort_tuple_def date_key_def name_key_def
      order_row_A_def order_row_B_def)

lemma order_result:
  "parse_excel_to_dataframe no_parse order_ws order_config = Inr [order_row_A, order_row_B]"
  by (simp add: parse_excel_to_dataframe_def order_all_data order_data_frame order_sorted)

lemma order_rows_differ: "order_row_A \<noteq> order_row_B"
  by (simp add: order_row_A_def order_row_B_def)

lemma order_section_rows:
  "section_rows order_ws order_config [Stamp jan_31 0] ''asset'' 2 ([1] @ [2]) Map.empty =
     Inr [order_row_B, order_row_A]"
  by (simp add: ws_cell_def order_ws_def order_config_def make_row_def direct_parent_def
      record_parent_def split_cell_def startswith_def order_row_A_def order_row_B_def)

lemma number_all_data:
  "all_data no_parse number_ws order_config = Inr [order_row_B, number_row_7]"
  by (simp add: flat_eval number_ws_def order_config_def number_row_7_def order_row_B_def)

lemma number_result:
  "parse_excel_to_dataframe no_parse number_ws order_config = Inr [number_row_7, order_row_B]"
  by (simp add: parse_excel_to_dataframe_def number_all_data data_frame_def infer_column_def
      sort_values_def sort_tuple_def date_key_def name_key_def number_row_7_def order_row_B_def)

section \<open>What a pass over a section reads\<close>


subsection \<open>Rows of two frames of different widths\<close>















subsection \<open>Rows of two worksheets\<close>













section \<open>The asset rows of the returned frame\<close>














section \<open>Evaluation on the sheets with a liabilities row\<close>









lemma floats_years:
  "float_of_int 2024 = PyFloat False 2024 0"
  by code_simp

lemma years_same_numbers:
  "list_all2 same_number (table years_df ! 0) (table years_df_float ! 0)"
  "list_all2 same_number (table years_df ! 1) (table years_df_float ! 1)"
  by (simp_all add: years_df_def years_df_float_def same_number_def floats floats_years)

lemma years_json:
  "extract_nested_json years_df years_config =
     Inr ([''2023'', ''2024''],
          [Section ''EIGNIR / ASSETS'' [1],
           Item ''A'' ''A'' ''A''
             [''2023'' \<mapsto> CFloat (PyFloat False 12 0), ''2024'' \<mapsto> CFloat (PyFloat False 25 0)] []],
          [Section ''SKULDIR / LIABILITIES'' [1],
           Item ''L'' ''L'' ''L''
             [''2023'' \<mapsto> CFloat (PyFloat False 3 0), ''2024'' \<mapsto> CFloat (PyFloat False 7 0)] []])"
proof -
  have d: "json_dates years_df years_config = Inr [''2023'', ''2024'']"
    by (simp add: json_eval years_df_def years_config_def upto.simps labels)
  have a: "parse_section years_df years_config [''2023'', ''2024''] 1 [1] ''EIGNIR / ASSETS'' =
      Inr [Section ''EIGNIR / ASSETS'' [1],
           Item ''A'' ''A'' ''A''
             [''2023'' \<mapsto> CFloat (PyFloat False 12 0), ''2024'' \<mapsto> CFloat (PyFloat False 25 0)] []]"
    by (simp add: json_eval years_df_def years_config_def floats)
  have l: "parse_section years_df years_config [''2023'', ''2024''] 2 [1] ''SKULDIR / LIABILITIES'' =
      Inr [Section ''SKULDIR / LIABILITIES'' [1],
           Item ''L'' ''L'' ''L''
             [''2023'' \<mapsto> CFloat (PyFloat False 3 0), ''2024'' \<mapsto> CFloat (PyFloat False 7 0)] []]"
    by (simp add: json_eval years_df_def years_config_def floats)
  have c: "assets_row years_config - 1 = 1" "assets_hierarchy years_config = [1]"
    "liabilities_row years_config - 1 = 2" "liabilities_hierarchy years_config = [1]"
    by (simp_all add: years_config_def)
  show ?thesis by (simp only: extract_nested_json_def d c a l sum.case)
qed

lemma years_float_json:
  "extract_nested_json years_df_float years_config =
     Inr ([''2023'', ''2024.0''],
          [Section ''EIGNIR / ASSETS'' [1],
           Item ''A'' ''A'' ''A''
             [''2023'' \<mapsto> CFloat (PyFloat False 12 0), ''2024.0'' \<mapsto> CFloat (PyFloat False 25 0)] []],
          [Section ''SKULDIR / LIABILITIES'' [1],
           Item ''L'' ''L'' ''L''
             [''2023'' \<mapsto> CFloat (PyFloat False 3 0),
              ''2024.0'' \<mapsto> CFloat (PyFloat False 75 (- 1))] []])"
proof -
  have d: "json_dates years_df_float years_config = Inr [''2023'', ''2024.0'']"
    by (simp add: json_eval years_df_float_def years_config_def upto.simps labels)
  have a: "parse_section years_df_float years_config [''2023'', ''2024.0''] 1 [1] ''EIGNIR / ASSETS'' =
      Inr [Section ''EIGNIR / ASSETS'' [1],
           Item ''A'' ''A'' ''A''
             [''2023'' \<mapsto> CFloat (PyFloat False 12 0), ''2024.0'' \<mapsto> CFloat (PyFloat False 25 0)] []]"
    by (simp add: json_eval years_df_float_def years_config_def floats)
  have l: "parse_section years_df_float years_config [''2023'', ''2024.0''] 2 [1]
      ''SKULDIR / LIABILITIES'' =
      Inr [Section ''SKULDIR / LIABILITIES'' [1],
           Item ''L'' ''L'' ''L''
             [''2023'' \<mapsto> CFloat (PyFloat False 3 0),
              ''2024.0'' \<mapsto> CFloat (PyFloat False 75 (- 1))] []]"
    by (simp add: json_eval years_df_float_def years_config_def floats)
  have c: "assets_row years_config - 1 = 1" "assets_hierarchy years_config = [1]"
    "liabilities_row years_config - 1 = 2" "liabilities_hierarchy years_config = [1]"
    by (simp_all add: years_config_def)
  show ?thesis by (simp only: extract_nested_json_def d c a l sum.case)
qed

section \<open>Forward gaps in the levels (C1)\<close>

text \<open>
  C1 (as amended). In \<^verbatim>\<open>parse_section\<close> of \<^verbatim>\<open>extract_json.py\<close> every row that is
  not skipped gets a node: the dictionaries of the result, without their children, are
  the section's dictionary followed by the dictionaries of the rows, one for each row
  that is not skipped, in row order. Each of them has a parent, and a node whose level
  exceeds the level of the node created before it, by one or by more, is a child of
  that node, which is then on top of the stack. In \<^verbatim>\<open>build_section_hierarchy\<close> of
  \<^verbatim>\<open>hierarchy_mapper.py\<close> a node whose level exceeds the level of the row before it
  by more than one (that level being at least 1) is neither a root nor a child of any
  node: it is attached only when a node of the level just above is on record. In
  \<^verbatim>\<open>dataframe_parser.py\<close> the parent of such a row is \<^verbatim>\<open>None\<close>.
\<close>

theorem level_jump_attachment:
  assumes json: "parse_section df sheet_config dates start_row hierarchy_levels section_name = Inr store"
    and hm: "build_section_hierarchy items = (nodes, root_nodes)"
    and i: "Suc i < length items"
    and prev: "1 \<le> hierarchy_level (items ! i)"
    and jump: "hierarchy_level (items ! i) + 1 < hierarchy_level (items ! Suc i)"
    and flat: "l1 + 1 < l2"
  shows "map without_children store =
           Section section_name [] # row_nodes df sheet_config dates start_row hierarchy_levels
     \<and> length store = length (json_levels df sheet_config dates start_row hierarchy_levels)
     \<and> (\<forall>a < length store. 0 < a \<longrightarrow>
            (\<exists>p < a. a \<in> set (children (store ! p))) \<and>
            (json_levels df sheet_config dates start_row hierarchy_levels ! (a - 1)
               < json_levels df sheet_config dates start_row hierarchy_levels ! a
             \<longrightarrow> a \<in> set (children (store ! (a - 1)))))
     \<and> Suc i \<notin> set root_nodes
     \<and> (\<forall>p < length nodes. Suc i \<notin> set (node_children (nodes ! p)))
     \<and> direct_parent (record_parent (record_parent current_parents l1 c1) l2 c2) l2 = CNone"
proof -
  let ?lv = "json_levels df sheet_config dates start_row hierarchy_levels"
  from json obtain stack where run:
    "parse_rows df sheet_config dates start_row hierarchy_levels ([Section section_name []], [(0, 0)])
       = Inr (store, stack)"
    by (rule parse_section_run)
  from parse_rows_gen [OF gen_inv_init run]
  have inv: "gen_inv ?lv (store, stack)" by (simp add: json_levels_def)
  note G = gen_invD [OF inv]
  note D = store_invD [OF G(1)]
  have n: "map without_children store =
           Section section_name [] # row_nodes df sheet_config dates start_row hierarchy_levels"
    using json by (rule parse_section_nodes)
  have l: "length store = length ?lv" using D(1) by simp
  have a: "\<forall>a < length store. 0 < a \<longrightarrow>
            (\<exists>p < a. a \<in> set (children (store ! p))) \<and>
            (?lv ! (a - 1) < ?lv ! a \<longrightarrow> a \<in> set (children (store ! (a - 1))))"
  proof (intro allI impI conjI)
    fix a assume "a < length store" "0 < a"
    from G(5) [OF this] show "\<exists>p < a. a \<in> set (children (store ! p))" by blast
  next
    fix a assume "a < length store" "0 < a" "?lv ! (a - 1) < ?lv ! a"
    then show "a \<in> set (children (store ! (a - 1)))" by (rule G(6))
  qed
  note J = build_section_hierarchy_jump [OF hm i prev jump]
  have b: "Suc i \<notin> set root_nodes" by (rule J(1))
  have c: "\<forall>p < length nodes. Suc i \<notin> set (node_children (nodes ! p))"
    using J(2) by blast
  have d: "direct_parent (record_parent (record_parent current_parents l1 c1) l2 c2) l2 = CNone"
    using flat by (rule direct_parent_jump)
  from n l a b c d show ?thesis by (intro conjI)
qed

theorem level_jump_attachment_witness:
  "parse_section scenario_df scenario_config [''2024-01'', ''2024-02''] 1 [1, 3] ''EIGNIR / ASSETS''
     = Inr [Section ''EIGNIR / ASSETS'' [1],
            Item ''A'' ''A'' ''A'' scenario_values [2],
            Item ''B'' ''B'' ''B'' scenario_values []]
   \<and> row_nodes scenario_df scenario_config [''2024-01'', ''2024-02''] 1 [1, 3] =
       [Item ''A'' ''A'' ''A'' scenario_values [], Item ''B'' ''B'' ''B'' scenario_values []]
   \<and> json_levels scenario_df scenario_config [''2024-01'', ''2024-02''] 1 [1, 3] = [0, 1, 3]
   \<and> 2 \<in> set (children
         ([Section ''EIGNIR / ASSETS'' [1],
           Item ''A'' ''A'' ''A'' scenario_values [2],
           Item ''B'' ''B'' ''B'' scenario_values []] ! 1))
   \<and> hierarchy_level (jump_entries ! 0) + 1 < hierarchy_level (jump_entries ! 1)
   \<and> 1 \<notin> set (snd (build_section_hierarchy jump_entries))
   \<and> 1 \<notin> set (node_children (fst (build_section_hierarchy jump_entries) ! 0))
   \<and> direct_parent (record_parent (record_parent Map.empty 1 (CStr ''A'')) 3 (CStr ''B'')) 3 = CNone"
proof -
  have lv: "json_levels scenario_df scenario_config [''2024-01'', ''2024-02''] 1 [1, 3] = [0, 1, 3]"
    unfolding json_levels_def jump_node_levels by simp
  have h1: "Suc 0 < length jump_entries" by (simp add: jump_entries_def)
  have h2: "1 \<le> hierarchy_level (jump_entries ! 0)" by (simp add: jump_entries_def)
  have h3: "hierarchy_level (jump_entries ! 0) + 1 < hierarchy_level (jump_entries ! Suc 0)"
    by (simp add: jump_entries_def)
  have h4: "(1::int) + 1 < 3" by simp
  note T = level_jump_attachment [OF jump_store [of "''EIGNIR / ASSETS''"] jump_nodes h1 h2 h3 h4,
      of Map.empty "CStr ''A''" "CStr ''B''"]
  note T3 = T [THEN conjunct2, THEN conjunct2]
  from T3 [THEN conjunct1, rule_format, of 2] lv
  have 1: "2 \<in> set (children
         ([Section ''EIGNIR / ASSETS'' [1],
           Item ''A'' ''A'' ''A'' scenario_values [2],
           Item ''B'' ''B'' ''B'' scenario_values []] ! 1))" by simp
  from T3 have 2: "1 \<notin> set (snd (build_section_hierarchy jump_entries))"
    by (simp add: jump_nodes)
  from T3 [THEN conjunct2, THEN conjunct2, THEN conjunct1, rule_format, of 0]
  have 3: "1 \<notin> set (node_children (fst (build_section_hierarchy jump_entries) ! 0))"
    by (simp add: jump_nodes)
  from T3 have 4: "direct_parent (record_parent (record_parent Map.empty 1 (CStr ''A'')) 3 (CStr ''B'')) 3 = CNone"
    by blast
  from jump_store [of "''EIGNIR / ASSETS''"] jump_row_nodes lv 1 h3 2 3 4 show ?thesis by simp
qed

text \<open>
  C1 as stated fails in \<^verbatim>\<open>build_section_hierarchy\<close>: for the levels 1, 3 the second
  node is not a root and is in no list of children.
\<close>

theorem level_jump_dropped_counterexample:
  "build_section_hierarchy jump_entries =
     ([\<lparr>node_id = ''row_2'', node_name = ''A'', node_is = ''A'', node_en = [], node_level = 1,
        node_values = scenario_values, node_children = []\<rparr>,
       \<lparr>node_id = ''row_3'', node_name = ''B'', node_is = ''B'', node_en = [], node_level = 3,
        node_values = scenario_values, node_children = []\<rparr>],
      [0])
   \<and> 1 \<notin> set (snd (build_section_hierarchy jump_entries))
   \<and> 1 \<notin> set (node_children (fst (build_section_hierarchy jump_entries) ! 0))
   \<and> 1 \<notin> set (node_children (fst (build_section_hierarchy jump_entries) ! 1))"
  by (simp add: jump_nodes)
section \<open>The concrete scenario (C2)\<close>

text \<open>
  C2 (as amended). For the rows of declared levels 1, 2, 3, 2, 1, each with the value
  10 for 2024-01 and 20 for 2024-02, the tree has two level-1 roots; the first root
  has two level-2 children, the rows 2 and 4, of which the first has one level-3 child
  and the second has none; the second root has no children; and the values of every
  node are 2024-01: 10, 2024-02: 20. This is the result of \<^verbatim>\<open>extract_json.py\<close>
  (whose roots are the children of the section's dictionary) and of
  \<^verbatim>\<open>build_section_hierarchy\<close> in \<^verbatim>\<open>hierarchy_mapper.py\<close>.
\<close>

theorem scenario_trees:
  "extract_nested_json scenario_df scenario_config =
     Inr ([''2024-01'', ''2024-02''],
          [Section ''EIGNIR / ASSETS'' [1, 5],
           Item ''A'' ''A'' ''A'' scenario_values [2, 4],
           Item ''B'' ''B'' ''B'' scenario_values [3],
           Item ''C'' ''C'' ''C'' scenario_values [],
           Item ''D'' ''D'' ''D'' scenario_values [],
           Item ''E'' ''E'' ''E'' scenario_values []],
          [Section ''SKULDIR / LIABILITIES'' []])
   \<and> json_tree
         [Section ''EIGNIR / ASSETS'' [1, 5],
          Item ''A'' ''A'' ''A'' scenario_values [2, 4],
          Item ''B'' ''B'' ''B'' scenario_values [3],
          Item ''C'' ''C'' ''C'' scenario_values [],
          Item ''D'' ''D'' ''D'' scenario_values [],
          Item ''E'' ''E'' ''E'' scenario_values []] =
       Some (SectionT ''EIGNIR / ASSETS''
         [ItemT ''A'' ''A'' ''A'' scenario_values
            [ItemT ''B'' ''B'' ''B'' scenario_values
               [ItemT ''C'' ''C'' ''C'' scenario_values []],
             ItemT ''D'' ''D'' ''D'' scenario_values []],
          ItemT ''E'' ''E'' ''E'' scenario_values []])
   \<and> forest (build_section_hierarchy scenario_entries) =
       Some [HTree ''row_2'' ''A'' ''A'' [] 1 scenario_values
               [HTree ''row_3'' ''B'' ''B'' [] 2 scenario_values
                  [HTree ''row_4'' ''C'' ''C'' [] 3 scenario_values []],
                HTree ''row_5'' ''D'' ''D'' [] 2 scenario_values []],
             HTree ''row_6'' ''E'' ''E'' [] 1 scenario_values []]
   \<and> scenario_values = [''2024-01'' \<mapsto> CNum 10, ''2024-02'' \<mapsto> CNum 20]"
  using scenario_extract scenario_json_tree [of "''EIGNIR / ASSETS''"] scenario_forest
  by (simp add: scenario_values_def)

text \<open>
  C2 as stated fails: the fourth row, of level 2, is a child of the first root too, so
  the first root has two children, not one. The lists below are the numbers of
  children of the section's dictionary and of the five rows in \<^verbatim>\<open>extract_json.py\<close>,
  and of the five rows in \<^verbatim>\<open>hierarchy_mapper.py\<close>.
\<close>

theorem scenario_first_root_counterexample:
  "map (length \<circ> children)
     (projr (parse_section scenario_df scenario_config [''2024-01'', ''2024-02''] 1
        [1, 2, 3, 2, 1] ''EIGNIR / ASSETS'')) = [2, 2, 1, 0, 0, 0]
   \<and> length (children
        (projr (parse_section scenario_df scenario_config [''2024-01'', ''2024-02''] 1
           [1, 2, 3, 2, 1] ''EIGNIR / ASSETS'') ! 1)) \<noteq> 1
   \<and> map (length \<circ> node_children) (fst (build_section_hierarchy scenario_entries))
       = [2, 1, 0, 0, 0]
   \<and> length (node_children (fst (build_section_hierarchy scenario_entries) ! 0)) \<noteq> 1"
  by (simp add: scenario_store scenario_nodes)

section \<open>Level consistency (C3)\<close>

text \<open>
  C3. When the declared levels have no forward gap (the first node has level at most
  1 and every later node has a level at most one more than the node created before
  it), every node of the tree of \<^verbatim>\<open>parse_section\<close> in \<^verbatim>\<open>extract_json.py\<close> has a
  parent, the level of a child is the level of its parent plus one, and the nodes of
  level 1 are exactly the children of the section's dictionary, that is, the nodes
  without a parent node. In \<^verbatim>\<open>build_section_hierarchy\<close> of \<^verbatim>\<open>hierarchy_mapper.py\<close>
  every root has level 1, the level of a child is the level of its parent plus one,
  and no child has level 1; this holds there for every input.
\<close>

theorem level_consistency:
  assumes json: "parse_section df sheet_config dates start_row hierarchy_levels section_name = Inr store"
    and strict: "no_forward_gaps 0 (node_levels df sheet_config dates start_row hierarchy_levels)"
    and hm: "build_section_hierarchy items = (nodes, root_nodes)"
  shows "length store = length (json_levels df sheet_config dates start_row hierarchy_levels)
    \<and> (\<forall>p < length store. \<forall>c \<in> set (children (store ! p)).
           json_levels df sheet_config dates start_row hierarchy_levels ! c =
             json_levels df sheet_config dates start_row hierarchy_levels ! p + 1
           \<and> (json_levels df sheet_config dates start_row hierarchy_levels ! c = 1 \<longleftrightarrow> p = 0))
    \<and> (\<forall>a < length store. 0 < a \<longrightarrow> (\<exists>p < a. a \<in> set (children (store ! p))))
    \<and> (\<forall>q < length items. node_level (nodes ! q) = hierarchy_level (items ! q))
    \<and> (\<forall>r \<in> set root_nodes. node_level (nodes ! r) = 1)
    \<and> (\<forall>p < length nodes. \<forall>c \<in> set (node_children (nodes ! p)).
           node_level (nodes ! c) = node_level (nodes ! p) + 1 \<and> node_level (nodes ! c) \<noteq> 1)"
proof -
  let ?lv = "json_levels df sheet_config dates start_row hierarchy_levels"
  from json obtain stack where run:
    "parse_rows df sheet_config dates start_row hierarchy_levels ([Section section_name []], [(0, 0)])
       = Inr (store, stack)"
    by (rule parse_section_run)
  have "strict_inv ([0] @ node_levels df sheet_config dates start_row hierarchy_levels) (store, stack)"
    using strict_inv_init [of section_name] strict run by (intro parse_rows_strict) simp_all
  then have inv: "strict_inv ?lv (store, stack)" by (simp add: json_levels_def)
  note S = strict_invD [OF inv]
  note G = gen_invD [OF S(1)]
  note D = store_invD [OF G(1)]
  have c1: "length store = length ?lv" using D(1) by simp
  have c2: "\<forall>p < length store. \<forall>c \<in> set (children (store ! p)).
           ?lv ! c = ?lv ! p + 1 \<and> (?lv ! c = 1 \<longleftrightarrow> p = 0)"
  proof (intro allI impI ballI)
    fix p c assume p: "p < length store" and c: "c \<in> set (children (store ! p))"
    from S(5) [OF p c] have e: "?lv ! c = ?lv ! p + 1" .
    have "?lv ! p = 0 \<longleftrightarrow> p = 0"
    proof
      assume z: "?lv ! p = 0"
      show "p = 0"
      proof (rule ccontr)
        assume "p \<noteq> 0"
        with S(4) [of p] p D(1) have "1 \<le> ?lv ! p" by simp
        with z show False by simp
      qed
    next
      assume "p = 0"
      with S(3) show "?lv ! p = 0" by simp
    qed
    with e show "?lv ! c = ?lv ! p + 1 \<and> (?lv ! c = 1 \<longleftrightarrow> p = 0)" by simp
  qed
  have c3: "\<forall>a < length store. 0 < a \<longrightarrow> (\<exists>p < a. a \<in> set (children (store ! p)))"
    using G(5) by blast
  note H = build_section_hierarchy_inv [OF hm]
  have c4: "\<forall>q < length items. node_level (nodes ! q) = hierarchy_level (items ! q)"
    using H(2) by blast
  have c5: "\<forall>r \<in> set root_nodes. node_level (nodes ! r) = 1"
    using H(3) by blast
  have c6: "\<forall>p < length nodes. \<forall>c \<in> set (node_children (nodes ! p)).
           node_level (nodes ! c) = node_level (nodes ! p) + 1 \<and> node_level (nodes ! c) \<noteq> 1"
  proof (intro allI impI ballI)
    fix p c assume "p < length nodes" "c \<in> set (node_children (nodes ! p))"
    from H(4) [OF this]
    show "node_level (nodes ! c) = node_level (nodes ! p) + 1 \<and> node_level (nodes ! c) \<noteq> 1"
      by simp
  qed
  from c1 c2 c3 c4 c5 c6 show ?thesis by (intro conjI)
qed

theorem level_consistency_witness:
  "no_forward_gaps 0
     (node_levels scenario_df scenario_config [''2024-01'', ''2024-02''] 1 [1, 2, 3, 2, 1])
   \<and> json_levels scenario_df scenario_config [''2024-01'', ''2024-02''] 1 [1, 2, 3, 2, 1] ! 2 =
       json_levels scenario_df scenario_config [''2024-01'', ''2024-02''] 1 [1, 2, 3, 2, 1] ! 1 + 1
   \<and> node_level (fst (build_section_hierarchy scenario_entries) ! 1) =
       node_level (fst (build_section_hierarchy scenario_entries) ! 0) + 1"
proof -
  have gaps: "no_forward_gaps 0
     (node_levels scenario_df scenario_config [''2024-01'', ''2024-02''] 1 [1, 2, 3, 2, 1])"
    unfolding scenario_node_levels by simp
  note T = level_consistency [OF scenario_store [of "''EIGNIR / ASSETS''"] gaps scenario_nodes]
  note J = T [THEN conjunct2, THEN conjunct1, rule_format, of 1 2]
  note H = T [THEN conjunct2, THEN conjunct2, THEN conjunct2, THEN conjunct2, THEN conjunct2,
      rule_format, of 0 1]
  from J have "json_levels scenario_df scenario_config [''2024-01'', ''2024-02''] 1 [1, 2, 3, 2, 1] ! 2 =
       json_levels scenario_df scenario_config [''2024-01'', ''2024-02''] 1 [1, 2, 3, 2, 1] ! 1 + 1"
    by simp
  moreover from H have "node_level (fst (build_section_hierarchy scenario_entries) ! 1) =
       node_level (fst (build_section_hierarchy scenario_entries) ! 0) + 1"
    by (simp add: scenario_nodes)
  ultimately show ?thesis using gaps by simp
qed

section \<open>The values of a row (C4)\<close>

text \<open>
  C4 (as amended). In \<^verbatim>\<open>hierarchy_mapper.py\<close>, for a row and a start column from 1
  on, reading the values raises no error, a period is a key of the values exactly
  when one of the cells paired with it holds an \<^verbatim>\<open>int\<close> or a \<^verbatim>\<open>float\<close> (a test
  that a Boolean passes too), and the value of a key is such a cell: blank and textual
  cells give no key. In \<^verbatim>\<open>extract_json.py\<close>, for a start column from 1 on, reading
  the values raises no error, and a period is a key exactly when one of the cells
  paired with it lies within the frame and is not \<^verbatim>\<open>NaN\<close> in the frame that pandas
  read: a blank cell gives no key, a textual cell gives a key and is kept as the
  value; a number of a column of numbers is kept as a float. In both, the row whose
  cell for the first period holds 10 and whose cell for the second period is blank has
  the values of one key, the first period, with the value 10.
\<close>

theorem values_keys:
  assumes hm: "1 \<le> row_index" "1 \<le> col"
    and json: "1 \<le> start" "iloc df r = Inr row_data"
  shows "(\<exists>vals. row_values ws row_index col dates Map.empty = Inr vals \<and>
            (\<forall>d. (d \<in> dom vals \<longleftrightarrow>
                    (\<exists>i < length dates. dates ! i = d \<and>
                       is_int_or_float (cell_value ws row_index (col + int i)))) \<and>
                 (\<forall>v. vals d = Some v \<longrightarrow>
                    (\<exists>i < length dates. dates ! i = d \<and>
                       v = cell_value ws row_index (col + int i)))))
     \<and> (\<exists>vals. prepare_values df start row_data 0 dates' Map.empty = Inr vals \<and>
            (\<forall>d. (d \<in> dom vals \<longleftrightarrow>
                    (\<exists>j < length dates'. dates' ! j = d \<and> start - 1 + int j < int (shape1 df) \<and>
                       notna (row_data ! nat (start - 1 + int j)))) \<and>
                 (\<forall>v. vals d = Some v \<longrightarrow>
                    (\<exists>j < length dates'. dates' ! j = d \<and>
                       v = float_if_numpy df (start - 1 + int j)
                             (row_data ! nat (start - 1 + int j))))))
     \<and> extract_hierarchy_data no_parse missing_ws row_config =
         Inr ([''2024-01-31'', ''2024-02-29''],
              ([\<lparr>node_id = ''row_2'', node_name = ''A'', node_is = ''A'', node_en = [],
                 node_level = 1, node_values = [''2024-01-31'' \<mapsto> CNum 10],
                 node_children = []\<rparr>], [0]),
              ([], []))
     \<and> extract_nested_json missing_df row_config =
         Inr ([''2024-01'', ''2024-02''],
              [Section ''EIGNIR / ASSETS'' [1],
               Item ''A'' ''A'' ''A'' [''2024-01'' \<mapsto> CNum 10] []],
              [Section ''SKULDIR / LIABILITIES'' []])"
proof -
  from row_values_keys [OF hm, of ws dates Map.empty]
  have a: "\<exists>vals. row_values ws row_index col dates Map.empty = Inr vals \<and>
            (\<forall>d. (d \<in> dom vals \<longleftrightarrow>
                    (\<exists>i < length dates. dates ! i = d \<and>
                       is_int_or_float (cell_value ws row_index (col + int i)))) \<and>
                 (\<forall>v. vals d = Some v \<longrightarrow>
                    (\<exists>i < length dates. dates ! i = d \<and>
                       v = cell_value ws row_index (col + int i))))"
    by simp
  from json(2) have len: "length row_data = shape1 df" by (rule iloc_length)
  from json(1) have "0 \<le> start - 1 + 0" by simp
  from prepare_values_keys [OF len this, of dates' Map.empty]
  have b: "\<exists>vals. prepare_values df start row_data 0 dates' Map.empty = Inr vals \<and>
            (\<forall>d. (d \<in> dom vals \<longleftrightarrow>
                    (\<exists>j < length dates'. dates' ! j = d \<and> start - 1 + int j < int (shape1 df) \<and>
                       notna (row_data ! nat (start - 1 + int j)))) \<and>
                 (\<forall>v. vals d = Some v \<longrightarrow>
                    (\<exists>j < length dates'. dates' ! j = d \<and>
                       v = float_if_numpy df (start - 1 + int j)
                             (row_data ! nat (start - 1 + int j)))))"
    by simp
  from a b missing_hierarchy missing_json show ?thesis by (intro conjI)
qed

theorem values_keys_witness:
  "row_values missing_ws 2 2 [''2024-01-31'', ''2024-02-29''] Map.empty =
     Inr [''2024-01-31'' \<mapsto> CNum 10]
   \<and> ''2024-01-31'' \<in> dom [''2024-01-31'' \<mapsto> CNum 10]
   \<and> is_int_or_float (cell_value missing_ws 2 (2 + int 0))
   \<and> iloc text_df 1 = Inr [CStr ''A'', CNum 10, CStr ''see note'']
   \<and> prepare_values text_df 2 [CStr ''A'', CNum 10, CStr ''see note''] 0 [''2024-01'', ''2024-02'']
       Map.empty = Inr [''2024-01'' \<mapsto> CNum 10, ''2024-02'' \<mapsto> CStr ''see note'']
   \<and> notna ([CStr ''A'', CNum 10, CStr ''see note''] ! nat (2 - 1 + int 1))"
proof -
  have h1: "(1::int) \<le> 2" by simp
  note T = values_keys [OF h1 h1 h1 text_iloc, of missing_ws "[''2024-01-31'', ''2024-02-29'']"
      "[''2024-01'', ''2024-02'']"]
  have r: "row_values missing_ws 2 2 [''2024-01-31'', ''2024-02-29''] Map.empty =
     Inr [''2024-01-31'' \<mapsto> CNum 10]"
    by (rule missing_row_values)
  from T r have "\<forall>d. (d \<in> dom [''2024-01-31'' \<mapsto> CNum 10] \<longleftrightarrow>
      (\<exists>i < length [''2024-01-31'', ''2024-02-29'']. [''2024-01-31'', ''2024-02-29''] ! i = d \<and>
          is_int_or_float (cell_value missing_ws 2 (2 + int i))))"
    by simp
  then have "''2024-01-31'' \<in> dom [''2024-01-31'' \<mapsto> CNum 10]" by simp
  moreover have "is_int_or_float (cell_value missing_ws 2 (2 + int 0))"
    by (simp add: missing_ws_def)
  moreover have "notna ([CStr ''A'', CNum 10, CStr ''see note''] ! nat (2 - 1 + int 1))" by simp
  ultimately show ?thesis using r text_iloc text_prepare_values by simp
qed

text \<open>
  C4 as stated fails in \<^verbatim>\<open>extract_json.py\<close>: a text in the cell for 2024-02 is kept
  as the value of that period.
\<close>

theorem values_text_cell_counterexample:
  "extract_nested_json text_df row_config =
     Inr ([''2024-01'', ''2024-02''],
          [Section ''EIGNIR / ASSETS'' [1],
           Item ''A'' ''A'' ''A'' [''2024-01'' \<mapsto> CNum 10, ''2024-02'' \<mapsto> CStr ''see note''] []],
          [Section ''SKULDIR / LIABILITIES'' []])
   \<and> ''2024-02'' \<in> dom [''2024-01'' \<mapsto> CNum 10, ''2024-02'' \<mapsto> CStr ''see note'']
   \<and> table text_df ! 1 ! 2 = CStr ''see note''"
  by (simp add: text_json) (simp add: text_df_def)
section \<open>Bilingual split (C5)\<close>

text \<open>
  C5 (as amended). In \<^verbatim>\<open>hierarchy_mapper.py\<close> a label is split at the first
  \<^verbatim>\<open>" / "\<close>: \<^verbatim>\<open>"Eignir / Assets"\<close> gives \<open>(Eignir, Assets)\<close>, and a label
  without the separator gives the label and the empty string. In
  \<^verbatim>\<open>extract_json.py\<close> a label is split at the first \<^verbatim>\<open>"/"\<close> and both parts are
  stripped of white space (no-break spaces included), so \<^verbatim>\<open>"Eignir / Assets"\<close> gives
  \<open>(Eignir, Assets)\<close> too, but a label without the separator gives the label twice:
  the English name is then the whole label, not the empty string.
\<close>

theorem bilingual_split:
  "split_name ''Eignir / Assets'' = (''Eignir'', ''Assets'')
   \<and> split_name ''TotalOnly'' = (''TotalOnly'', [])
   \<and> (\<not> py_in '' / '' name \<longrightarrow> split_name name = (name, []))
   \<and> (\<not> py_in '' / '' (a @ '' /'') \<longrightarrow> split_name (a @ '' / '' @ b) = (a, b))
   \<and> split_translation ''Eignir / Assets'' = (''Eignir'', ''Assets'')
   \<and> (\<not> py_in ''/'' name' \<longrightarrow> split_translation name' = (name', name'))
   \<and> (\<not> py_in ''/'' a' \<longrightarrow> split_translation (a' @ ''/'' @ b') = (strip a', strip b'))
   \<and> split_translation (''Eignir'' @ [CHR 0xA0] @ ''/'' @ [CHR 0xA0] @ ''Assets'')
         = (''Eignir'', ''Assets'')"
proof -
  have 1: "split_name ''Eignir / Assets'' = (''Eignir'', ''Assets'')"
    by (simp add: split_name_def startswith_def)
  have 2: "split_name ''TotalOnly'' = (''TotalOnly'', [])"
    by (simp add: split_name_def startswith_def)
  have 3: "\<not> py_in '' / '' name \<longrightarrow> split_name name = (name, [])"
    by (simp add: split_name_def)
  have 4: "\<not> py_in '' / '' (a @ '' /'') \<longrightarrow> split_name (a @ '' / '' @ b) = (a, b)"
    using split1_first [of "'' / ''" a b] py_in_append [of "'' / ''" a b]
    by (simp add: split_name_def)
  have 5: "split_translation ''Eignir / Assets'' = (''Eignir'', ''Assets'')"
    by (simp add: split_translation_def startswith_def strip_def isspace_def)
  have 6: "\<not> py_in ''/'' name' \<longrightarrow> split_translation name' = (name', name')"
    by (simp add: split_translation_def)
  have 7: "\<not> py_in ''/'' a' \<longrightarrow> split_translation (a' @ ''/'' @ b') = (strip a', strip b')"
    using split1_first [of "''/''" a' b'] py_in_append [of "''/''" a' b']
    by (simp add: split_translation_def)
  have 8: "split_translation (''Eignir'' @ [CHR 0xA0] @ ''/'' @ [CHR 0xA0] @ ''Assets'')
         = (''Eignir'', ''Assets'')"
    by (simp add: split_translation_def startswith_def strip_def isspace_def)
  from 1 2 3 4 5 6 7 8 show ?thesis by blast
qed

theorem bilingual_split_witness:
  "\<not> py_in '' / '' ''TotalOnly'' \<and> split_name ''TotalOnly'' = (''TotalOnly'', [])
   \<and> \<not> py_in '' / '' (''Eignir'' @ '' /'')
   \<and> split_name (''Eignir'' @ '' / '' @ ''Assets'') = (''Eignir'', ''Assets'')
   \<and> \<not> py_in ''/'' ''TotalOnly''
   \<and> split_translation ''TotalOnly'' = (''TotalOnly'', ''TotalOnly'')
   \<and> \<not> py_in ''/'' ''Eignir ''
   \<and> split_translation (''Eignir '' @ ''/'' @ '' Assets'') = (strip ''Eignir '', strip '' Assets'')"
proof -
  have h1: "\<not> py_in '' / '' ''TotalOnly''" by (simp add: startswith_def)
  have h2: "\<not> py_in '' / '' (''Eignir'' @ '' /'')" by (simp add: startswith_def)
  have h3: "\<not> py_in ''/'' ''TotalOnly''" by (simp add: startswith_def)
  have h4: "\<not> py_in ''/'' ''Eignir ''" by (simp add: startswith_def)
  show ?thesis
    using h1 h2 h3 h4
      bilingual_split [of "''TotalOnly''" "''Eignir''" "''Assets''" "''TotalOnly''"
        "''Eignir ''" "'' Assets''"]
    by blast
qed

text \<open>
  C5 as stated fails in \<^verbatim>\<open>extract_json.py\<close>: for \<^verbatim>\<open>"TotalOnly"\<close> the English name
  is \<^verbatim>\<open>"TotalOnly"\<close>, since \<^verbatim>\<open>english_name = name\<close> is the initial value.
\<close>

theorem bilingual_split_counterexample:
  "split_translation ''TotalOnly'' = (''TotalOnly'', ''TotalOnly'')
   \<and> split_translation ''TotalOnly'' \<noteq> (''TotalOnly'', [])"
  by (simp add: split_translation_def startswith_def)

section \<open>The period axis (C6)\<close>

text \<open>
  C6 (as amended). In \<^verbatim>\<open>hierarchy_mapper.py\<close>, for a header row and a start column
  from 1 on, the extraction of the dates raises no error and the axis is the list of
  the labels of the header cells that parse as a date, in column order; a cell that
  is empty or does not parse contributes nothing. The \<open>i\<close>-th date of the axis is then
  paired with the column \<open>data_start_column + i\<close>, whatever column its header stood
  in: under the header (date, \<^verbatim>\<open>Total\<close>, date) the second date gets the value 99 of
  the column headed \<^verbatim>\<open>Total\<close>. In \<^verbatim>\<open>extract_json.py\<close>, for a header row of the
  frame and a start column from 1 on, only the empty header cells are skipped: every
  other cell gives a label, its date label if it is a \<^verbatim>\<open>datetime\<close> and its \<^verbatim>\<open>str\<close>
  otherwise. There too the \<open>j\<close>-th label of the axis is paired with the column
  \<open>data_start_column + j\<close>: under the header (date, empty, date) the second date gets
  the value 99 of the column with the empty header.
\<close>

theorem period_axis:
  assumes hm: "1 \<le> date_row banking_config" "1 \<le> data_start_column banking_config"
      "1 \<le> row_index"
    and json: "1 \<le> date_row sheet_config" "date_row sheet_config \<le> int (length (table df))"
      "1 \<le> data_start_column sheet_config" "iloc df r = Inr row_data"
  shows "extract_dates to_datetime ws banking_config =
       Inr (List.map_filter (\<lambda>c. parse_date to_datetime (cell_value ws (date_row banking_config) c))
              [data_start_column banking_config .. max_column ws])
     \<and> (\<exists>vals. row_values ws row_index (data_start_column banking_config) dates Map.empty = Inr vals \<and>
            (\<forall>d. (d \<in> dom vals \<longleftrightarrow>
                    (\<exists>i < length dates. dates ! i = d \<and>
                       is_int_or_float
                         (cell_value ws row_index (data_start_column banking_config + int i)))) \<and>
                 (\<forall>v. vals d = Some v \<longrightarrow>
                    (\<exists>i < length dates. dates ! i = d \<and>
                       v = cell_value ws row_index (data_start_column banking_config + int i)))))
     \<and> json_dates df sheet_config =
         Inr (map date_label (filter notna
                (map (\<lambda>c. frame_row df (nat (date_row sheet_config - 1)) ! nat c)
                   [data_start_column sheet_config - 1 .. int (shape1 df) - 1])))
     \<and> (\<exists>vals. prepare_values df (data_start_column sheet_config) row_data 0 dates' Map.empty
                  = Inr vals \<and>
            (\<forall>d. (d \<in> dom vals \<longleftrightarrow>
                    (\<exists>j < length dates'. dates' ! j = d \<and>
                       data_start_column sheet_config - 1 + int j < int (shape1 df) \<and>
                       notna (row_data ! nat (data_start_column sheet_config - 1 + int j)))) \<and>
                 (\<forall>v. vals d = Some v \<longrightarrow>
                    (\<exists>j < length dates'. dates' ! j = d \<and>
                       v = float_if_numpy df (data_start_column sheet_config - 1 + int j)
                             (row_data ! nat (data_start_column sheet_config - 1 + int j))))))
     \<and> extract_dates no_parse shift_ws row_config = Inr [''2024-01-31'', ''2024-02-29'']
     \<and> row_values shift_ws 2 2 [''2024-01-31'', ''2024-02-29''] Map.empty =
         Inr [''2024-01-31'' \<mapsto> CNum 10, ''2024-02-29'' \<mapsto> CNum 99]
     \<and> extract_nested_json gap_df row_config =
         Inr ([''2024-01-31'', ''2024-02-29''],
              [Section ''EIGNIR / ASSETS'' [1],
               Item ''A'' ''A'' ''A''
                 [''2024-01-31'' \<mapsto> CNum 10, ''2024-02-29'' \<mapsto> CFloat (PyFloat False 99 0)] []],
              [Section ''SKULDIR / LIABILITIES'' []])"
proof -
  have cols: "\<forall>c \<in> set [data_start_column banking_config .. max_column ws]. 1 \<le> c"
    using hm(2) by simp
  have a: "extract_dates to_datetime ws banking_config =
       Inr (List.map_filter (\<lambda>c. parse_date to_datetime (cell_value ws (date_row banking_config) c))
              [data_start_column banking_config .. max_column ws])"
    unfolding extract_dates_def by (rule header_dates_map_filter [OF hm(1) cols])
  from row_values_keys [OF hm(3) hm(2), of ws dates Map.empty]
  have b: "\<exists>vals. row_values ws row_index (data_start_column banking_config) dates Map.empty = Inr vals \<and>
            (\<forall>d. (d \<in> dom vals \<longleftrightarrow>
                    (\<exists>i < length dates. dates ! i = d \<and>
                       is_int_or_float
                         (cell_value ws row_index (data_start_column banking_config + int i)))) \<and>
                 (\<forall>v. vals d = Some v \<longrightarrow>
                    (\<exists>i < length dates. dates ! i = d \<and>
                       v = cell_value ws row_index (data_start_column banking_config + int i))))"
    by simp
  have r0: "0 \<le> date_row sheet_config - 1" "date_row sheet_config - 1 < int (length (table df))"
    using json(1,2) by simp_all
  have jcols: "\<forall>c \<in> set [data_start_column sheet_config - 1 .. int (shape1 df) - 1].
      0 \<le> c \<and> c < int (shape1 df)"
    using json(3) by simp
  have c: "json_dates df sheet_config =
         Inr (map date_label (filter notna
                (map (\<lambda>c. frame_row df (nat (date_row sheet_config - 1)) ! nat c)
                   [data_start_column sheet_config - 1 .. int (shape1 df) - 1])))"
    unfolding json_dates_def by (rule json_dates_loop_filter [OF r0 jcols])
  from json(4) have len: "length row_data = shape1 df" by (rule iloc_length)
  from json(3) have "0 \<le> data_start_column sheet_config - 1 + 0" by simp
  from prepare_values_keys [OF len this, of dates' Map.empty]
  have d: "\<exists>vals. prepare_values df (data_start_column sheet_config) row_data 0 dates' Map.empty
                  = Inr vals \<and>
            (\<forall>d. (d \<in> dom vals \<longleftrightarrow>
                    (\<exists>j < length dates'. dates' ! j = d \<and>
                       data_start_column sheet_config - 1 + int j < int (shape1 df) \<and>
                       notna (row_data ! nat (data_start_column sheet_config - 1 + int j)))) \<and>
                 (\<forall>v. vals d = Some v \<longrightarrow>
                    (\<exists>j < length dates'. dates' ! j = d \<and>
                       v = float_if_numpy df (data_start_column sheet_config - 1 + int j)
                             (row_data ! nat (data_start_column sheet_config - 1 + int j)))))"
    by simp
  from a b c d shift_extract_dates shift_row_values gap_json show ?thesis by (intro conjI)
qed

theorem period_axis_witness:
  "extract_dates no_parse shift_ws row_config = Inr [''2024-01-31'', ''2024-02-29'']
   \<and> List.map_filter (\<lambda>c. parse_date no_parse (cell_value shift_ws (date_row row_config) c))
        [data_start_column row_config .. max_column shift_ws] = [''2024-01-31'', ''2024-02-29'']
   \<and> iloc gap_df 1 = Inr [CStr ''A'', CNum 10, CFloat (PyFloat False 99 0), CNum 20]
   \<and> json_dates gap_df row_config = Inr [''2024-01-31'', ''2024-02-29'']
   \<and> map date_label (filter notna
        (map (\<lambda>c. frame_row gap_df (nat (date_row row_config - 1)) ! nat c)
           [data_start_column row_config - 1 .. int (shape1 gap_df) - 1]))
       = [''2024-01-31'', ''2024-02-29'']
   \<and> prepare_values gap_df 2 [CStr ''A'', CNum 10, CFloat (PyFloat False 99 0), CNum 20] 0
        [''2024-01-31'', ''2024-02-29''] Map.empty =
       Inr [''2024-01-31'' \<mapsto> CNum 10, ''2024-02-29'' \<mapsto> CFloat (PyFloat False 99 0)]"
proof -
  have h1: "1 \<le> date_row row_config" "1 \<le> data_start_column row_config"
    by (simp_all add: row_config_def)
  have h2: "(1::int) \<le> 2" by simp
  have h3: "date_row row_config \<le> int (length (table gap_df))"
    by (simp add: row_config_def gap_df_def)
  note T = period_axis [OF h1 h2 h1(1) h3 h1(2) gap_iloc, of no_parse shift_ws "[]" "[]"]
  from T shift_extract_dates
  have 1: "List.map_filter (\<lambda>c. parse_date no_parse (cell_value shift_ws (date_row row_config) c))
        [data_start_column row_config .. max_column shift_ws] = [''2024-01-31'', ''2024-02-29'']"
    by simp
  from T gap_json_dates
  have 2: "map date_label (filter notna
        (map (\<lambda>c. frame_row gap_df (nat (date_row row_config - 1)) ! nat c)
           [data_start_column row_config - 1 .. int (shape1 gap_df) - 1]))
       = [''2024-01-31'', ''2024-02-29'']"
    by simp
  from shift_extract_dates 1 gap_iloc gap_json_dates 2 gap_prepare_values show ?thesis
    by (intro conjI)
qed

text \<open>
  C6 as stated fails in \<^verbatim>\<open>extract_json.py\<close>: the header cell \<^verbatim>\<open>Total\<close>, which is
  not a date, is not skipped; it is a label of the axis.
\<close>

theorem period_axis_text_header_counterexample:
  "json_dates shift_df row_config = Inr [''2024-01-31'', ''Total'', ''2024-02-29'']
   \<and> table shift_df ! 0 ! 2 = CStr ''Total''
   \<and> ''Total'' \<in> set [''2024-01-31'', ''Total'', ''2024-02-29'']"
  by (simp add: shift_json_dates) (simp add: shift_df_def)
section \<open>The section switch (C7)\<close>

text \<open>
  C7. The claim is that a row matching the liabilities marker switches the section
  only beyond the minimum row offset from the start of the section. The code does not
  do that for the marker \<^verbatim>\<open>SKULDIR\<close>: on the row \<open>start_row\<close> itself, which is not
  beyond \<open>start_row + 5\<close>, the title \<^verbatim>\<open>SKULDIR / LIABILITIES\<close> switches to the
  liabilities and empties the stack. The offset guards the marker \<^verbatim>\<open>LIABILITIES\<close>
  only, which does not switch on row 10 and does on row 16.
\<close>

theorem section_switch_before_offset:
  "is_section_switch ''SKULDIR / LIABILITIES'' 10 10
   \<and> \<not> (10 :: int) > 10 + 5
   \<and> switch_step early_marker_ws 1 10 10 (True, [0 :: nat]) = Inr (False, [])
   \<and> \<not> is_section_switch ''LIABILITIES'' 10 10
   \<and> is_section_switch ''LIABILITIES'' 16 10"
proof -
  have 1: "is_section_switch ''SKULDIR / LIABILITIES'' 10 10"
    by (simp add: is_section_switch_def startswith_def)
  have t: "strip (py_str (CStr ''SKULDIR / LIABILITIES'')) = ''SKULDIR / LIABILITIES''"
    by (simp add: strip_def isspace_def)
  have 2: "switch_step early_marker_ws 1 10 10 (True, [0 :: nat]) = Inr (False, [])"
    using 1 t by (simp add: switch_step_def early_marker_ws_def ws_cell_def)
  have 3: "\<not> is_section_switch ''LIABILITIES'' 10 10"
    by (simp add: is_section_switch_def startswith_def)
  have 4: "is_section_switch ''LIABILITIES'' 16 10"
    by (simp add: is_section_switch_def startswith_def)
  from 1 2 3 4 show ?thesis by simp
qed

section \<open>The order of the flat view (C8)\<close>

text \<open>
  C8 (as amended). \<^verbatim>\<open>parse_excel_to_dataframe\<close> collects the flat rows in the
  order of the sheet: the rows of the assets before the rows of the liabilities, the
  rows of a section in increasing row index (the flat rows of any first part of a
  section come before those of the rest), and for one row of the sheet one flat row
  for every period whose cell holds a number, in the order of the periods. It then
  makes a frame of them, which keeps their order and changes at most the type of a
  number, and sorts the frame by date, type and name: the frame it returns is the
  stable sort of the collected rows, a permutation of them in ascending order of
  that key. Names of different kinds are ordered too, numbers before texts.
\<close>

theorem flat_view_order:
  assumes res: "parse_excel_to_dataframe to_datetime ws banking_config = Inr df"
    and sec: "section_rows ws banking_config dates ty row_index (levels1 @ levels2) current_parents
                = Inr rows'"
    and pos: "1 \<le> r" "1 \<le> col"
  shows "(\<exists>rows axis assets liabilities.
            all_data to_datetime ws banking_config = Inr rows \<and>
            extract_stamps to_datetime ws banking_config = Inr axis \<and>
            section_rows ws banking_config axis ''asset'' (assets_row banking_config)
              (assets_hierarchy banking_config) Map.empty = Inr assets \<and>
            section_rows ws banking_config axis ''liability'' (liabilities_row banking_config)
              (liabilities_hierarchy banking_config) Map.empty = Inr liabilities \<and>
            rows = assets @ liabilities \<and>
            list_all2 same_row rows (data_frame rows) \<and>
            df = sort_key sort_tuple (data_frame rows) \<and>
            mset df = mset (data_frame rows) \<and> sorted (map sort_tuple df))
     \<and> (\<exists>a b current_parents'.
            section_rows ws banking_config dates ty row_index levels1 current_parents = Inr a \<and>
            section_rows ws banking_config dates ty (row_index + int (length levels1)) levels2
              current_parents' = Inr b \<and>
            rows' = a @ b)
     \<and> value_rows ws r col dates' mk =
           Inr (map (\<lambda>(d, v). mk d v)
                  (filter (\<lambda>(d, v). is_int_or_float v)
                     (zip dates' (map (\<lambda>i. cell_value ws r (col + int i)) [0 ..< length dates']))))"
proof -
  from res obtain rows where rows: "all_data to_datetime ws banking_config = Inr rows"
    and sorted: "sort_values (data_frame rows) = Inr df"
    by (cases "all_data to_datetime ws banking_config") (simp_all add: parse_excel_to_dataframe_def)
  from rows obtain axis where axis: "extract_stamps to_datetime ws banking_config = Inr axis"
    by (cases "extract_stamps to_datetime ws banking_config") (simp_all add: all_data_def)
  from rows axis obtain assets where assets:
    "section_rows ws banking_config axis ''asset'' (assets_row banking_config)
              (assets_hierarchy banking_config) Map.empty = Inr assets"
    by (cases "section_rows ws banking_config axis ''asset'' (assets_row banking_config)
              (assets_hierarchy banking_config) Map.empty") (simp_all add: all_data_def)
  from rows axis assets obtain liabilities where liabilities:
    "section_rows ws banking_config axis ''liability'' (liabilities_row banking_config)
              (liabilities_hierarchy banking_config) Map.empty = Inr liabilities"
    by (cases "section_rows ws banking_config axis ''liability'' (liabilities_row banking_config)
              (liabilities_hierarchy banking_config) Map.empty") (simp_all add: all_data_def)
  from rows axis assets liabilities have cat: "rows = assets @ liabilities"
    by (simp add: all_data_def)
  note S = sort_values_Inr [OF sorted]
  note F = data_frame_same [of rows]
  from rows axis assets liabilities cat F S(1) S(2) S(3)
  have a: "\<exists>rows axis assets liabilities.
            all_data to_datetime ws banking_config = Inr rows \<and>
            extract_stamps to_datetime ws banking_config = Inr axis \<and>
            section_rows ws banking_config axis ''asset'' (assets_row banking_config)
              (assets_hierarchy banking_config) Map.empty = Inr assets \<and>
            section_rows ws banking_config axis ''liability'' (liabilities_row banking_config)
              (liabilities_hierarchy banking_config) Map.empty = Inr liabilities \<and>
            rows = assets @ liabilities \<and>
            list_all2 same_row rows (data_frame rows) \<and>
            df = sort_key sort_tuple (data_frame rows) \<and>
            mset df = mset (data_frame rows) \<and> sorted (map sort_tuple df)"
    by blast
  note b = section_rows_append [OF sec]
  note c = value_rows_eq [OF pos, of ws dates' mk]
  from a b c show ?thesis by (intro conjI)
qed

theorem flat_view_order_witness:
  "parse_excel_to_dataframe no_parse order_ws order_config = Inr [order_row_A, order_row_B]
   \<and> all_data no_parse order_ws order_config = Inr [order_row_B, order_row_A]
   \<and> data_frame [order_row_B, order_row_A] = [order_row_B, order_row_A]
   \<and> sorted (map sort_tuple [order_row_A, order_row_B])
   \<and> section_rows order_ws order_config [Stamp jan_31 0] ''asset'' 2 ([1] @ [2]) Map.empty =
        Inr [order_row_B, order_row_A]
   \<and> all_data no_parse number_ws order_config = Inr [order_row_B, number_row_7]
   \<and> parse_excel_to_dataframe no_parse number_ws order_config = Inr [number_row_7, order_row_B]"
proof -
  have h: "(1::int) \<le> 2" by simp
  note T = flat_view_order [OF order_result order_section_rows h h]
  from T [THEN conjunct1] order_all_data
  have "sorted (map sort_tuple [order_row_A, order_row_B])" by auto
  with order_result order_all_data order_data_frame order_section_rows number_all_data
    number_result
  show ?thesis by simp
qed

text \<open>
  C8 as stated fails: for a sheet whose rows are named \<^verbatim>\<open>B\<close> and \<^verbatim>\<open>A\<close> in that
  order, the returned frame has the row of \<^verbatim>\<open>A\<close> first.
\<close>

theorem flat_view_sorted_counterexample:
  "all_data no_parse order_ws order_config = Inr [order_row_B, order_row_A]
   \<and> parse_excel_to_dataframe no_parse order_ws order_config = Inr [order_row_A, order_row_B]
   \<and> [order_row_A, order_row_B] \<noteq> [order_row_B, order_row_A]
   \<and> cell_value order_ws 2 1 = CStr ''B''
   \<and> cell_value order_ws 3 1 = CStr ''A''"
  using order_all_data order_result order_rows_differ by (simp add: order_ws_def)
section \<open>Independence of the sections (C9)\<close>



text \<open>
  C9 as stated does not hold of \<^verbatim>\<open>extract_json.py\<close>. Take the sheet whose header
  holds the years 2023 and 2024 as numbers and whose asset row holds 12 and 25, with
  the liabilities row 3 and 7, and the same sheet with 7.5 in the place of 7: the
  header row and the asset row are the same in both. pandas gives the column of 2024
  the type of integers in the first frame and of floats in the second, so the header
  cell and the asset cell of that column hold the same numbers as floats there, and
  the label of the header is \<^verbatim>\<open>2024\<close> in the first result and \<^verbatim>\<open>2024.0\<close> in the
  second: the dates and the keys of the values of the asset differ.
\<close>

theorem sections_column_type_counterexample:
  "list_all2 same_number (table years_df ! 0) (table years_df_float ! 0)
   \<and> list_all2 same_number (table years_df ! 1) (table years_df_float ! 1)
   \<and> extract_nested_json years_df years_config =
     Inr ([''2023'', ''2024''],
          [Section ''EIGNIR / ASSETS'' [1],
           Item ''A'' ''A'' ''A''
             [''2023'' \<mapsto> CFloat (PyFloat False 12 0), ''2024'' \<mapsto> CFloat (PyFloat False 25 0)] []],
          [Section ''SKULDIR / LIABILITIES'' [1],
           Item ''L'' ''L'' ''L''
             [''2023'' \<mapsto> CFloat (PyFloat False 3 0), ''2024'' \<mapsto> CFloat (PyFloat False 7 0)] []])
   \<and> extract_nested_json years_df_float years_config =
     Inr ([''2023'', ''2024.0''],
          [Section ''EIGNIR / ASSETS'' [1],
           Item ''A'' ''A'' ''A''
             [''2023'' \<mapsto> CFloat (PyFloat False 12 0), ''2024.0'' \<mapsto> CFloat (PyFloat False 25 0)] []],
          [Section ''SKULDIR / LIABILITIES'' [1],
           Item ''L'' ''L'' ''L''
             [''2023'' \<mapsto> CFloat (PyFloat False 3 0),
              ''2024.0'' \<mapsto> CFloat (PyFloat False 75 (- 1))] []])
   \<and> [Section ''EIGNIR / ASSETS'' [1],
       Item ''A'' ''A'' ''A''
         [''2023'' \<mapsto> CFloat (PyFloat False 12 0), ''2024'' \<mapsto> CFloat (PyFloat False 25 0)] []]
     \<noteq> [Section ''EIGNIR / ASSETS'' [1],
       Item ''A'' ''A'' ''A''
         [''2023'' \<mapsto> CFloat (PyFloat False 12 0), ''2024.0'' \<mapsto> CFloat (PyFloat False 25 0)] []]"
proof -
  have "[''2023'' \<mapsto> CFloat (PyFloat False 12 0), ''2024'' \<mapsto> CFloat (PyFloat False 25 0)] ''2024''
      \<noteq> [''2023'' \<mapsto> CFloat (PyFloat False 12 0), ''2024.0'' \<mapsto> CFloat (PyFloat False 25 0)] ''2024''"
    by simp
  then have "[''2023'' \<mapsto> CFloat (PyFloat False 12 0), ''2024'' \<mapsto> CFloat (PyFloat False 25 0)]
      \<noteq> [''2023'' \<mapsto> CFloat (PyFloat False 12 0), ''2024.0'' \<mapsto> CFloat (PyFloat False 25 0)]"
    by metis
  then have d: "[Section ''EIGNIR / ASSETS'' [1],
       Item ''A'' ''A'' ''A''
         [''2023'' \<mapsto> CFloat (PyFloat False 12 0), ''2024'' \<mapsto> CFloat (PyFloat False 25 0)] []]
     \<noteq> [Section ''EIGNIR / ASSETS'' [1],
       Item ''A'' ''A'' ''A''
         [''2023'' \<mapsto> CFloat (PyFloat False 12 0), ''2024.0'' \<mapsto> CFloat (PyFloat False 25 0)] []]"
    by simp
  from years_same_numbers years_json years_float_json d show ?thesis by (intro conjI)
qed

section \<open>The sentinel of the ancestor stack (C10)\<close>

text \<open>
  C10. In \<^verbatim>\<open>parse_section\<close> of \<^verbatim>\<open>extract_json.py\<close>, when every declared level is
  at least 1, \<^verbatim>\<open>stack[-1]\<close> is never evaluated on an empty stack: the run does not
  end in the \<^verbatim>\<open>IndexError\<close> of the empty list, and if it ends normally the stack
  still has the sentinel \<open>(root, 0)\<close> at its bottom. Conversely, a run that ends in
  that error has a declared level of 0 or less.
\<close>

theorem parse_section_stack_never_empty:
  "(parse_section df sheet_config dates start_row hierarchy_levels section_name = Inl IndexError_list
      \<longrightarrow> (\<exists>level \<in> set hierarchy_levels. level \<le> 0))
   \<and> ((\<forall>level \<in> set hierarchy_levels. 1 \<le> level) \<longrightarrow>
        parse_section df sheet_config dates start_row hierarchy_levels section_name
          \<noteq> Inl IndexError_list
        \<and> (\<forall>st. parse_rows df sheet_config dates start_row hierarchy_levels
                   ([Section section_name []], [(0, 0)]) = Inr st
              \<longrightarrow> snd st \<noteq> [] \<and> last (snd st) = (0, 0)))"
proof -
  let ?init = "([Section section_name []], [(0, 0)]) :: jnode list \<times> (nat \<times> int) list"
  let ?run = "parse_rows df sheet_config dates start_row hierarchy_levels ?init"
  have init: "gen_inv [0] ?init" by (rule gen_inv_init)
  have safe: "parse_section df sheet_config dates start_row hierarchy_levels section_name
      \<noteq> Inl IndexError_list" if pos: "\<forall>level \<in> set hierarchy_levels. 1 \<le> level"
  proof -
    from parse_rows_no_stack_error [OF init pos] have "?run \<noteq> Inl IndexError_list" .
    then show ?thesis by (cases ?run) (simp_all add: parse_section_def)
  qed
  have bottom: "snd st \<noteq> [] \<and> last (snd st) = (0, 0)" if run: "?run = Inr st" for st
  proof -
    from parse_rows_gen [OF init run]
    have "gen_inv ([0] @ node_levels df sheet_config dates start_row hierarchy_levels) st" .
    then show ?thesis unfolding gen_inv_def by blast
  qed
  have only: "\<exists>level \<in> set hierarchy_levels. level \<le> 0"
    if err: "parse_section df sheet_config dates start_row hierarchy_levels section_name
      = Inl IndexError_list"
  proof (rule ccontr)
    assume "\<not> (\<exists>level \<in> set hierarchy_levels. level \<le> 0)"
    then have "\<forall>level \<in> set hierarchy_levels. 1 \<le> level" by force
    from safe [OF this] err show False by simp
  qed
  from safe bottom only show ?thesis by blast
qed

theorem parse_section_stack_never_empty_witness:
  "list_all (\<lambda>level. 1 \<le> level) [1, 2, 3, 2, 1 :: int]
   \<and> parse_section scenario_df scenario_config [''2024-01'', ''2024-02''] 1 [1, 2, 3, 2, 1] ''S''
        \<noteq> Inl IndexError_list
   \<and> parse_section scenario_df scenario_config [''2024-01'', ''2024-02''] 1 [1, 0] ''S''
        = Inl IndexError_list
   \<and> (\<exists>level \<in> set [1, 0 :: int]. level \<le> 0)"
proof -
  have pos: "\<forall>level \<in> set [1, 2, 3, 2, 1 :: int]. 1 \<le> level" by simp
  have err: "parse_section scenario_df scenario_config [''2024-01'', ''2024-02''] 1 [1, 0] ''S''
        = Inl IndexError_list" by (rule scenario_level_zero)
  from pos parse_section_stack_never_empty
    [of scenario_df scenario_config "[''2024-01'', ''2024-02'']" 1 "[1, 2, 3, 2, 1]" "''S''"]
  have 1: "parse_section scenario_df scenario_config [''2024-01'', ''2024-02''] 1 [1, 2, 3, 2, 1] ''S''
        \<noteq> Inl IndexError_list" by blast
  from err parse_section_stack_never_empty
    [of scenario_df scenario_config "[''2024-01'', ''2024-02'']" 1 "[1, 0]" "''S''"]
  have 2: "\<exists>level \<in> set [1, 0 :: int]. level \<le> 0" by blast
  from 1 err 2 show ?thesis by simp
qed

end
